(* ===== verification/Prelude.thy ===== *)
theory Prelude
  imports Main "HOL-Library.Word"
begin

text \<open>
  The vocabulary every component shares: machine integers and byte strings, the
  big-endian codecs of Go's \<open>encoding/binary\<close>, slices, decimal rendering, and the
  collections of facts (\<open>codec\<close> for byte layouts, \<open>fmt\<close> for rendered strings) that
  the component theories extend.
\<close>

unbundle bit_operations_syntax

named_theorems codec \<open>layouts, lengths and round trips of byte encodings\<close>
named_theorems fmt \<open>facts on rendered strings\<close>

section \<open>Machine integers and bytes\<close>

type_synonym byte = "8 word"
type_synonym bytes = "byte list"
type_synonym u16 = "16 word"
type_synonym u32 = "32 word"
type_synonym u64 = "64 word"

text \<open>Go strings are byte strings; the model uses \<open>string\<close> for text and this map for \<open>[]byte(s)\<close>.\<close>

definition str_bytes :: "string \<Rightarrow> bytes" where
  "str_bytes s = map (\<lambda>c. of_char c) s"

definition bytes_str :: "bytes \<Rightarrow> string" where
  "bytes_str bs = map (\<lambda>b. char_of (unat b)) bs"

lemma length_str_bytes [simp]: "length (str_bytes s) = length s"
  by (simp add: str_bytes_def)

lemma length_bytes_str [simp]: "length (bytes_str bs) = length bs"
  by (simp add: bytes_str_def)

lemma char_of_unat_inj: "char_of (unat (a :: byte)) = char_of (unat b) \<longleftrightarrow> a = b"
proof
  assume "char_of (unat a) = (char_of (unat b) :: char)"
  then have "of_char (char_of (unat a)) = (of_char (char_of (unat b)) :: nat)"
    by simp
  then have "unat a mod 256 = unat b mod 256"
    by simp
  moreover have "unat a < 256" "unat b < 256"
    using unsigned_less[of a] unsigned_less[of b] by simp_all
  ultimately show "a = b"
    by (simp add: unsigned_word_eqI)
qed simp

lemma bytes_str_inj: "bytes_str xs = bytes_str ys \<longleftrightarrow> xs = ys"
proof -
  have "inj (\<lambda>b :: byte. char_of (unat b))"
    by (rule injI) (metis char_of_unat_inj)
  then show ?thesis
    by (simp add: bytes_str_def inj_map_eq_map)
qed

lemma unat_of_char: "unat (of_char c :: byte) = of_char c"
proof -
  have "(of_char c :: byte) = of_nat (of_char c)"
    by (simp only: of_nat_of_char)
  moreover have "(of_char c :: nat) < 256"
    using of_char_mod_256[of c] mod_less_divisor[of 256 "of_char c :: nat"] by simp
  ultimately show ?thesis
    by (simp add: unat_of_nat)
qed

lemma str_bytes_inj [simp]: "str_bytes a = str_bytes b \<longleftrightarrow> a = b"
proof -
  have "inj (\<lambda>c. of_char c :: byte)"
    by (rule injI) (metis unat_of_char of_char_eq_iff)
  then show ?thesis
    by (simp add: str_bytes_def inj_map_eq_map)
qed

lemma unat_byte_less: "unat (b :: byte) < 256"
  using unsigned_less[of b] by simp

lemma unat32_less: "unat (w :: u32) < 2 ^ 32"
  using unsigned_less[of w] by simp

section \<open>Slices\<close>

text \<open>\<open>b[i:j]\<close> for indices in range.\<close>

definition slice :: "nat \<Rightarrow> nat \<Rightarrow> 'a list \<Rightarrow> 'a list" where
  "slice i j xs = take (j - i) (drop i xs)"

lemma length_slice [simp]: "length (slice i j xs) = min (j - i) (length xs - i)"
  by (simp add: slice_def)

lemma slice_append_left:
  "j \<le> length xs \<Longrightarrow> slice i j (xs @ ys) = slice i j xs"
  by (simp add: slice_def)

lemma slice_append_right:
  "length xs \<le> i \<Longrightarrow> slice i j (xs @ ys) = slice (i - length xs) (j - length xs) ys"
  by (simp add: slice_def)

lemma slice_all: "j = length xs \<Longrightarrow> slice 0 j xs = xs"
  by (simp add: slice_def)

lemma slice_Cons:
  "slice i j (x # xs) =
     (if j = 0 then [] else if i = 0 then x # slice 0 (j - 1) xs else slice (i - 1) (j - 1) xs)"
  by (cases i; cases j) (simp_all add: slice_def)

lemma slice_take: "j \<le> n \<Longrightarrow> slice i j (take n xs) = slice i j xs"
  by (simp add: slice_def drop_take min_def)

lemma slice_nil [simp]: "slice i j [] = []"
  by (simp add: slice_def)

lemma take_as_slices: "i \<le> j \<Longrightarrow> take i xs @ slice i j xs = take j xs"
  by (simp add: slice_def) (metis add_diff_inverse_nat not_less take_add)

section \<open>Big-endian integers\<close>

definition put16 :: "u16 \<Rightarrow> bytes" where
  "put16 w = [ucast (drop_bit 8 w), ucast w]"

definition get16 :: "bytes \<Rightarrow> u16" where
  "get16 bs = push_bit 8 (ucast (bs ! 0)) OR ucast (bs ! 1)"

definition put32 :: "u32 \<Rightarrow> bytes" where
  "put32 w = [ucast (drop_bit 24 w), ucast (drop_bit 16 w), ucast (drop_bit 8 w), ucast w]"

definition get32 :: "bytes \<Rightarrow> u32" where
  "get32 bs = push_bit 24 (ucast (bs ! 0)) OR push_bit 16 (ucast (bs ! 1))
     OR push_bit 8 (ucast (bs ! 2)) OR ucast (bs ! 3)"

definition put64 :: "u64 \<Rightarrow> bytes" where
  "put64 w = put32 (ucast (drop_bit 32 w)) @ put32 (ucast w)"

definition get64 :: "bytes \<Rightarrow> u64" where
  "get64 bs = push_bit 32 (ucast (get32 (take 4 bs))) OR ucast (get32 (take 4 (drop 4 bs)))"

lemma length_put16 [simp, codec]: "length (put16 w) = 2"
  by (simp add: put16_def)

lemma length_put32 [simp, codec]: "length (put32 w) = 4"
  by (simp add: put32_def)

lemma length_put64 [simp, codec]: "length (put64 w) = 8"
  by (simp add: put64_def)

lemma get16_put16_append: "get16 (put16 w @ r) = w"
  unfolding get16_def put16_def
  by (rule bit_word_eqI) (auto simp: bit_simps not_less)

lemma get16_put16 [simp, codec]: "get16 (put16 w) = w"
  using get16_put16_append[of w "[]"] by simp

lemma put16_get16: "length bs = 2 \<Longrightarrow> put16 (get16 bs) = bs"
proof -
  assume "length bs = 2"
  then obtain a b where bs: "bs = [a, b]"
    by (auto simp: numeral_2_eq_2 length_Suc_conv)
  show ?thesis
    unfolding bs get16_def put16_def
    by simp (intro conjI bit_word_eqI; auto simp: bit_simps dest: bit_imp_le_length)
qed

lemma get32_put32_append: "get32 (put32 w @ r) = w"
proof (rule bit_word_eqI)
  fix n
  assume "n < LENGTH(32)"
  then consider "n < 8" | "8 \<le> n" "n < 16" | "16 \<le> n" "n < 24" | "24 \<le> n" "n < 32"
    by fastforce
  then show "bit (get32 (put32 w @ r)) n = bit w n"
    by cases (auto simp: get32_def put32_def bit_simps)
qed

lemma get32_put32 [simp, codec]: "get32 (put32 w) = w"
  using get32_put32_append[of w "[]"] by simp

lemma put32_get32: "length bs = 4 \<Longrightarrow> put32 (get32 bs) = bs"
proof -
  assume "length bs = 4"
  then obtain a b c d where bs: "bs = [a, b, c, d]"
    by (auto simp: numeral_eq_Suc length_Suc_conv)
  show ?thesis
    unfolding bs get32_def put32_def
    by simp (intro conjI bit_word_eqI; auto simp: bit_simps dest: bit_imp_le_length)
qed

lemma get64_put64 [simp, codec]: "get64 (put64 w) = w"
proof -
  have "push_bit 32 (ucast (ucast (drop_bit 32 w) :: u32)) OR ucast (ucast w :: u32) = w"
    by (rule bit_word_eqI) (auto simp: bit_simps not_less)
  then show ?thesis
    by (simp add: get64_def put64_def)
qed

lemma put64_get64: "length bs = 8 \<Longrightarrow> put64 (get64 bs) = bs"
proof -
  assume len: "length bs = 8"
  let ?hi = "get32 (take 4 bs)" and ?lo = "get32 (take 4 (drop 4 bs))"
  have "ucast (drop_bit 32 (get64 bs)) = ?hi" "ucast (get64 bs) = ?lo"
    unfolding get64_def
    by (rule bit_word_eqI; auto simp: bit_simps not_less dest: bit_imp_le_length)+
  then show ?thesis
    using len by (simp add: put64_def put32_get32)
qed

section \<open>Decimal rendering\<close>

text \<open>\<open>strconv.Itoa\<close> and \<open>fmt.Sprint\<close> on non-negative numbers.\<close>

definition digit :: "nat \<Rightarrow> char" where
  "digit d = char_of (48 + d)"

fun dec :: "nat \<Rightarrow> string" where
  "dec n = (if n < 10 then [digit n] else dec (n div 10) @ [digit (n mod 10)])"

declare dec.simps [simp del]

definition undigit :: "char \<Rightarrow> nat" where
  "undigit c = of_char c - 48"

definition undec :: "string \<Rightarrow> nat" where
  "undec s = foldl (\<lambda>acc c. 10 * acc + undigit c) 0 s"

definition is_digit :: "char \<Rightarrow> bool" where
  "is_digit c \<longleftrightarrow> 48 \<le> (of_char c :: nat) \<and> (of_char c :: nat) \<le> 57"

lemma of_char_digit: "d < 10 \<Longrightarrow> of_char (digit d) = 48 + d"
  by (simp add: digit_def)

lemma is_digit_digit: "d < 10 \<Longrightarrow> is_digit (digit d)"
  by (simp add: is_digit_def of_char_digit)

lemma undec_dec [simp, fmt]: "undec (dec n) = n"
proof (induction n rule: dec.induct)
  case (1 n)
  show ?case
  proof (cases "n < 10")
    case True
    then show ?thesis
      by (subst dec.simps) (simp add: undec_def undigit_def of_char_digit)
  next
    case False
    with "1.IH" have "undec (dec (n div 10)) = n div 10"
      by simp
    with False show ?thesis
      by (subst dec.simps) (simp add: undec_def undigit_def of_char_digit)
  qed
qed

lemma dec_inj [simp, fmt]: "dec m = dec n \<longleftrightarrow> m = n"
  by (metis undec_dec)

lemma dec_digits: "c \<in> set (dec n) \<Longrightarrow> is_digit c"
proof (induction n rule: dec.induct)
  case (1 n)
  show ?case
  proof (cases "n < 10")
    case True
    with "1.prems" show ?thesis
      by (simp add: dec.simps[of n] is_digit_digit)
  next
    case False
    with "1.IH" "1.prems" show ?thesis
      by (auto simp: dec.simps[of n] is_digit_digit)
  qed
qed

lemma dec_not_nil [simp, fmt]: "dec n \<noteq> []"
  by (simp add: dec.simps)

lemma non_digit_notin_dec [fmt]: "\<not> is_digit c \<Longrightarrow> c \<notin> set (dec n)"
  using dec_digits by blast

lemma not_digit_punct [simp, fmt]:
  "\<not> is_digit CHR ''.''" "\<not> is_digit CHR '':''" "\<not> is_digit CHR ''|''" "\<not> is_digit CHR ''?''"
  "\<not> is_digit CHR ''<''"
  by (simp_all add: is_digit_def)

text \<open>A separator that does not occur in the left parts makes a rendered pair unambiguous.\<close>

lemma append_sep_eq:
  assumes "c \<notin> set xs" and "c \<notin> set ys"
  shows "xs @ c # as = ys @ c # bs \<longleftrightarrow> xs = ys \<and> as = bs"
  using assms
proof (induction xs arbitrary: ys)
  case Nil
  then show ?case by (cases ys) auto
next
  case (Cons x xs)
  then show ?case by (cases ys) auto
qed

lemma append_sep_eq_last:
  assumes "c \<notin> set as" and "c \<notin> set bs"
  shows "xs @ c # as = ys @ c # bs \<longleftrightarrow> xs = ys \<and> as = bs"
proof -
  have "xs @ c # as = ys @ c # bs \<longleftrightarrow> rev as @ c # rev xs = rev bs @ c # rev ys"
    by (metis append.assoc append_Cons append_Nil rev.simps(2) rev_append rev_rev_ident)
  also have "\<dots> \<longleftrightarrow> rev as = rev bs \<and> rev xs = rev ys"
    using assms by (intro append_sep_eq) simp_all
  finally show ?thesis by auto
qed

section \<open>Association lists standing for Go maps\<close>

text \<open>
  A Go map whose iteration or size matters is a list of pairs with distinct keys;
  assignment replaces the entry or appends one, \<open>delete\<close> drops it.
\<close>

fun aput :: "'k \<Rightarrow> 'v \<Rightarrow> ('k \<times> 'v) list \<Rightarrow> ('k \<times> 'v) list" where
  "aput k v [] = [(k, v)]"
| "aput k v ((k', v') # m) = (if k = k' then (k, v) # m else (k', v') # aput k v m)"

definition adel :: "'k \<Rightarrow> ('k \<times> 'v) list \<Rightarrow> ('k \<times> 'v) list" where
  "adel k m = filter (\<lambda>(k', _). k' \<noteq> k) m"

lemma map_of_aput [simp]: "map_of (aput k v m) = (map_of m)(k \<mapsto> v)"
  by (induction m rule: aput.induct) (auto simp: fun_eq_iff)

lemma map_of_adel [simp]: "map_of (adel k m) = (map_of m)(k := None)"
  by (induction m) (auto simp: adel_def fun_eq_iff)

lemma fst_aput: "fst ` set (aput k v m) = insert k (fst ` set m)"
  by (induction m rule: aput.induct) auto

lemma distinct_aput [simp]:
  "distinct (map fst m) \<Longrightarrow> distinct (map fst (aput k v m))"
  by (induction m rule: aput.induct) (auto simp: fst_aput)

lemma fst_adel: "fst ` set (adel k m) = fst ` set m - {k}"
  by (auto simp: adel_def image_iff)

lemma distinct_adel [simp]:
  "distinct (map fst m) \<Longrightarrow> distinct (map fst (adel k m))"
  by (induction m) (auto simp: adel_def image_iff)

lemma length_aput:
  "length (aput k v m) = (if k \<in> fst ` set m then length m else Suc (length m))"
  by (induction m rule: aput.induct) auto

lemma aput_fresh: "k \<notin> fst ` set m \<Longrightarrow> aput k v m = m @ [(k, v)]"
  by (induction m rule: aput.induct) auto

lemma adel_fresh: "k \<notin> fst ` set m \<Longrightarrow> adel k m = m"
  by (auto simp: adel_def filter_id_conv image_iff)

lemma adel_split:
  assumes "distinct (map fst m)" and "map_of m k = Some v"
  obtains xs ys where "m = xs @ (k, v) # ys" and "adel k m = xs @ ys"
proof -
  from map_of_SomeD[OF assms(2)] obtain xs ys where m: "m = xs @ (k, v) # ys"
    by (meson split_list)
  with assms(1) have "k \<notin> fst ` set xs" "k \<notin> fst ` set ys"
    by (auto simp: image_iff)
  then have "adel k xs = xs" "adel k ys = ys"
    by (simp_all add: adel_fresh)
  with m have "adel k m = xs @ ys"
    by (simp add: adel_def)
  with m show thesis by (rule that)
qed

text \<open>The high half of a byte.\<close>

lemma nibble: "(b :: byte) AND 0xF0 = c \<longleftrightarrow> unat b div 16 * 16 = unat c"
proof -
  have "b AND NOT (mask 4) = push_bit 4 (drop_bit 4 b)"
    by (rule bit_word_eqI) (auto simp: bit_simps)
  moreover have "NOT (mask 4) = (0xF0 :: byte)"
    by (simp add: mask_eq_exp_minus_1)
  ultimately have "b AND 0xF0 = push_bit 4 (drop_bit 4 b)"
    by simp
  then have "unat (b AND 0xF0) = unat b div 16 * 16"
    using unat_byte_less[of b]
    by (simp add: push_bit_eq_mult unat_word_ariths unat_drop_bit_eq drop_bit_eq_div mult.commute)
  then show ?thesis
    by (metis unsigned_word_eqI)
qed

lemma high_nibble: "drop_bit 4 (b :: byte) = c \<longleftrightarrow> unat b div 16 = unat c"
proof -
  have "unat (drop_bit 4 b) = unat b div 16"
    unfolding unat_drop_bit_eq by (simp add: drop_bit_eq_div)
  then show ?thesis by (metis unsigned_word_eqI)
qed

text \<open>\<open>%d\<close> of an \<open>int\<close>.\<close>

definition sprint :: "int \<Rightarrow> string" where
  "sprint n = (if n < 0 then CHR ''-'' # dec (nat (- n)) else dec (nat n))"

text \<open>Go's division of signed integers.\<close>

definition quot :: "int \<Rightarrow> int \<Rightarrow> int" where
  "quot a b = (if a \<ge> 0 then a div b else - (- a div b))"

end
