(* ===== verification/NetAddr.thy ===== *)
theory NetAddr
  imports Prelude
begin

text \<open>
  Go's \<open>net.IP\<close>, \<open>net.UDPAddr\<close> and the host/port strings of package \<open>net\<close>, as far as the
  program uses them: an address is a byte string of length 4 or 16 (\<open>nil\<close> is the empty
  one), and the session tables, the cipher caches and the slave's session map are keyed by
  its rendered form, so the injectivity of the rendering on IPv4 addresses is what makes
  those keys sound.
\<close>

section \<open>net.IP\<close>

type_synonym ip = bytes

definition v4_prefix :: bytes where
  "v4_prefix = [0,0,0,0,0,0,0,0,0,0,255,255]"

definition to4 :: "ip \<Rightarrow> ip option" where
  "to4 a = (if length a = 4 then Some a
            else if length a = 16 \<and> take 12 a = v4_prefix then Some (drop 12 a)
            else None)"

definition to16 :: "ip \<Rightarrow> ip" where
  "to16 a = (if length a = 4 then v4_prefix @ a else if length a = 16 then a else [])"

definition ip_equal :: "ip \<Rightarrow> ip \<Rightarrow> bool" where
  "ip_equal a b =
     (if length a = length b then a = b
      else if length a = 4 \<and> length b = 16 then take 12 b = v4_prefix \<and> a = drop 12 b
      else if length a = 16 \<and> length b = 4 then take 12 a = v4_prefix \<and> drop 12 a = b
      else False)"

lemma length_v4_prefix [simp]: "length v4_prefix = 12"
  by (simp add: v4_prefix_def)

lemma to4_len4 [simp]: "length a = 4 \<Longrightarrow> to4 a = Some a"
  by (simp add: to4_def)

lemma to4_length: "to4 a = Some b \<Longrightarrow> length b = 4"
  by (auto simp: to4_def split: if_splits)

lemma to4_idem: "to4 a = Some b \<Longrightarrow> to4 b = Some b"
  by (simp add: to4_length)

lemma to4_to16 [simp]: "to4 (to16 a) = to4 a"
  by (auto simp: to4_def to16_def)

lemma ip_equal_v4: "to4 a = Some x \<Longrightarrow> to4 b = Some y \<Longrightarrow> ip_equal a b \<longleftrightarrow> x = y"
  by (auto simp: to4_def ip_equal_def split: if_splits)
     (metis append_take_drop_id)

section \<open>Rendering\<close>

definition hexdig :: "nat \<Rightarrow> char" where
  "hexdig d = (if d < 10 then char_of (48 + d) else char_of (87 + d))"

fun hex :: "nat \<Rightarrow> string" where
  "hex n = (if n < 16 then [hexdig n] else hex (n div 16) @ [hexdig (n mod 16)])"

declare hex.simps [simp del]

fun join :: "string \<Rightarrow> string list \<Rightarrow> string" where
  "join sep [] = []"
| "join sep [x] = x"
| "join sep (x # y # zs) = x @ sep @ join sep (y # zs)"

definition ip4_string :: "ip \<Rightarrow> string" where
  "ip4_string a = join ''.'' (map (\<lambda>b. dec (unat b)) a)"

text \<open>The first longest run of at least two zero groups is written \<open>::\<close>.\<close>

fun groups :: "bytes \<Rightarrow> nat list" where
  "groups (a # b # r) = (256 * unat a + unat b) # groups r"
| "groups _ = []"

definition zero_run :: "nat list \<Rightarrow> nat \<times> nat" where
  "zero_run gs = foldl (\<lambda>(s, l) i.
      let m = length (takeWhile (\<lambda>g. g = 0) (drop i gs))
      in if 2 \<le> m \<and> l < m then (i, m) else (s, l)) (0, 0) [0..<length gs]"

definition ip6_string :: "ip \<Rightarrow> string" where
  "ip6_string a =
     (let gs = groups a; (s, l) = zero_run gs
      in if l = 0 then join '':'' (map hex gs)
         else join '':'' (map hex (take s gs)) @ ''::'' @ join '':'' (map hex (drop (s + l) gs)))"

definition ip_string :: "ip \<Rightarrow> string" where
  "ip_string a =
     (if a = [] then ''<nil>''
      else if length a \<noteq> 4 \<and> length a \<noteq> 16
        then CHR ''?'' # concat (map (\<lambda>b. [hexdig (unat b div 16), hexdig (unat b mod 16)]) a)
      else case to4 a of Some b \<Rightarrow> ip4_string b | None \<Rightarrow> ip6_string a)"

lemma ip_string_v4 [fmt]: "to4 a = Some b \<Longrightarrow> ip_string a = ip4_string b"
  by (auto simp: ip_string_def to4_def split: if_splits)

lemma ip4_string_4:
  "ip4_string [a, b, c, d] =
     dec (unat a) @ CHR ''.'' # dec (unat b) @ CHR ''.'' # dec (unat c) @ CHR ''.'' # dec (unat d)"
  by (simp add: ip4_string_def)

lemma list4E:
  assumes "length xs = 4" obtains a b c d where "xs = [a, b, c, d]"
  using assms that by (auto simp: numeral_eq_Suc length_Suc_conv)

lemma ip4_string_inj:
  assumes "length a = 4" and "length b = 4"
  shows "ip4_string a = ip4_string b \<longleftrightarrow> a = b"
proof -
  from assms(1) obtain a0 a1 a2 a3 where a: "a = [a0, a1, a2, a3]" by (rule list4E)
  from assms(2) obtain b0 b1 b2 b3 where b: "b = [b0, b1, b2, b3]" by (rule list4E)
  have dot: "CHR ''.'' \<notin> set (dec n)" for n
    by (simp add: non_digit_notin_dec)
  show ?thesis
    unfolding a b ip4_string_4
    by (simp add: append_sep_eq[OF dot dot] word_unat_eq_iff)
qed

lemma ip_string_inj [fmt]:
  "to4 a = Some x \<Longrightarrow> to4 b = Some y \<Longrightarrow> ip_string a = ip_string b \<longleftrightarrow> x = y"
  by (simp add: ip_string_v4 ip4_string_inj to4_length)

lemma ip4_string_no_colon: "length a = 4 \<Longrightarrow> CHR '':'' \<notin> set (ip4_string a)"
proof -
  assume "length a = 4"
  then obtain a0 a1 a2 a3 where a: "a = [a0, a1, a2, a3]" by (rule list4E)
  have "CHR '':'' \<notin> set (dec n)" for n
    by (simp add: non_digit_notin_dec)
  then show ?thesis
    by (simp add: a ip4_string_4)
qed

lemma join_has_sep: "2 \<le> length xs \<Longrightarrow> set sep \<subseteq> set (join sep xs)"
  by (induction sep xs rule: join.induct) auto

lemma length_groups: "length (groups a) = length a div 2"
  by (induction a rule: groups.induct) auto

lemma ip6_string_colon: "length a = 16 \<Longrightarrow> CHR '':'' \<in> set (ip6_string a)"
proof -
  assume "length a = 16"
  then have "2 \<le> length (map hex (groups a))"
    by (simp add: length_groups)
  then have "CHR '':'' \<in> set (join '':'' (map hex (groups a)))"
    using join_has_sep[of "map hex (groups a)" "'':''"] by auto
  then show ?thesis
    by (cases "zero_run (groups a)") (auto simp: ip6_string_def Let_def)
qed

text \<open>An IPv6 address never renders like an IPv4 one.\<close>

lemma ip_string_v4_v6:
  "to4 a = Some x \<Longrightarrow> to4 b = None \<Longrightarrow> length b = 16 \<Longrightarrow> ip_string a \<noteq> ip_string b"
  using ip4_string_no_colon[of x] ip6_string_colon[of b]
  by (auto simp: ip_string_v4 ip_string_def[of b] to4_length)

section \<open>UDP addresses\<close>

record udpaddr =
  uip :: ip
  uport :: nat

definition join_host_port :: "string \<Rightarrow> string \<Rightarrow> string" where
  "join_host_port host port =
     (if CHR '':'' \<in> set host then ''['' @ host @ '']:'' @ port else host @ '':'' @ port)"

definition udp_string :: "udpaddr \<Rightarrow> string" where
  "udp_string u = join_host_port (if uip u = [] then [] else ip_string (uip u)) (dec (uport u))"

definition is_v4 :: "udpaddr \<Rightarrow> bool" where
  "is_v4 u \<longleftrightarrow> to4 (uip u) \<noteq> None"

lemma udp_string_inj [fmt]:
  assumes "to4 (uip u) = Some x" and "to4 (uip v) = Some y"
  shows "udp_string u = udp_string v \<longleftrightarrow> x = y \<and> uport u = uport v"
proof -
  have ne: "uip u \<noteq> []" "uip v \<noteq> []"
    using assms by (auto simp: to4_def)
  have colon: "CHR '':'' \<notin> set (dec n)" for n
    by (simp add: non_digit_notin_dec)
  have "udp_string u = ip4_string x @ CHR '':'' # dec (uport u)"
       "udp_string v = ip4_string y @ CHR '':'' # dec (uport v)"
    using assms ne ip4_string_no_colon
    by (simp_all add: udp_string_def join_host_port_def ip_string_v4 to4_length)
  then show ?thesis
    using assms by (simp add: append_sep_eq_last[OF colon colon] ip4_string_inj to4_length)
qed

section \<open>SplitHostPort\<close>

definition index_of :: "char \<Rightarrow> string \<Rightarrow> nat option" where
  "index_of c s = (let i = length (takeWhile (\<lambda>d. d \<noteq> c) s) in if i < length s then Some i else None)"

definition last_index_of :: "char \<Rightarrow> string \<Rightarrow> nat option" where
  "last_index_of c s = map_option (\<lambda>i. length s - 1 - i) (index_of c (rev s))"

definition split_host_port :: "string \<Rightarrow> (string \<times> string) option" where
  "split_host_port hp =
     (case last_index_of CHR '':'' hp of
        None \<Rightarrow> None
      | Some i \<Rightarrow>
          if hp ! 0 = CHR ''['' then
            (case index_of CHR '']'' hp of
               None \<Rightarrow> None
             | Some e \<Rightarrow>
                 if e + 1 \<noteq> i then None
                 else if CHR ''['' \<in> set (drop 1 hp) \<or> CHR '']'' \<in> set (drop (e + 1) hp) then None
                 else Some (slice 1 e hp, drop (i + 1) hp))
          else if CHR '':'' \<in> set (take i hp) then None
          else if CHR ''['' \<in> set hp \<or> CHR '']'' \<in> set hp then None
          else Some (take i hp, drop (i + 1) hp))"

lemma index_of_append_sep: "c \<notin> set xs \<Longrightarrow> index_of c (xs @ c # ys) = Some (length xs)"
proof -
  assume "c \<notin> set xs"
  then have "takeWhile (\<lambda>d. d \<noteq> c) (xs @ c # ys) = xs"
    by (induction xs) auto
  then show ?thesis
    by (simp add: index_of_def)
qed

lemma last_index_of_append_sep: "c \<notin> set ys \<Longrightarrow> last_index_of c (xs @ c # ys) = Some (length xs)"
  using index_of_append_sep[of c "rev ys" "rev xs"] by (simp add: last_index_of_def)

definition plain_host :: "string \<Rightarrow> bool" where
  "plain_host h \<longleftrightarrow> CHR '':'' \<notin> set h \<and> CHR ''['' \<notin> set h \<and> CHR '']'' \<notin> set h"

lemma split_join_host_port:
  assumes "plain_host h" and "plain_host p"
  shows "split_host_port (join_host_port h p) = Some (h, p)"
proof -
  have li: "last_index_of CHR '':'' (h @ CHR '':'' # p) = Some (length h)"
    using assms(2) by (simp add: last_index_of_append_sep plain_host_def)
  have "(h @ CHR '':'' # p) ! 0 \<noteq> CHR ''[''"
    using assms(1) by (cases h) (auto simp: plain_host_def)
  then show ?thesis
    using assms li by (simp add: split_host_port_def join_host_port_def plain_host_def)
qed

section \<open>ParseIP\<close>

fun split_on :: "char \<Rightarrow> string \<Rightarrow> string list" where
  "split_on c [] = [[]]"
| "split_on c (x # xs) =
     (if x = c then [] # split_on c xs
      else (case split_on c xs of p # ps \<Rightarrow> (x # p) # ps | [] \<Rightarrow> [[x]]))"

definition parse_octet :: "string \<Rightarrow> byte option" where
  "parse_octet f =
     (if f = [] \<or> \<not> list_all is_digit f \<or> (length f > 1 \<and> hd f = CHR ''0'') \<or> undec f > 255
      then None else Some (of_nat (undec f)))"

fun all_some :: "'a option list \<Rightarrow> 'a list option" where
  "all_some [] = Some []"
| "all_some (None # xs) = None"
| "all_some (Some x # xs) = map_option ((#) x) (all_some xs)"

definition parse_ip4 :: "string \<Rightarrow> bytes option" where
  "parse_ip4 s = (let fs = split_on CHR ''.'' s in
     if length fs \<noteq> 4 then None else all_some (map parse_octet fs))"

definition hex_digit :: "char \<Rightarrow> nat option" where
  "hex_digit c = (let n = (of_char c :: nat) in
     if 48 \<le> n \<and> n \<le> 57 then Some (n - 48)
     else if 97 \<le> n \<and> n \<le> 102 then Some (n - 87)
     else if 65 \<le> n \<and> n \<le> 70 then Some (n - 55) else None)"

definition hex_field :: "string \<Rightarrow> nat" where
  "hex_field f = foldl (\<lambda>acc c. 16 * acc + (case hex_digit c of Some d \<Rightarrow> d | None \<Rightarrow> 0)) 0 f"

lemma dropWhile_shrinks:
  "dropWhile P s = x # d # y \<Longrightarrow> Suc (length y) < length s"
  using length_dropWhile_le[of P s] by simp

text \<open>
  The loop over the fields of an IPv6 address: \<open>acc\<close> are the bytes written, \<open>ell\<close> the
  position of the ellipsis. The result is the bytes, the ellipsis and the text left over.
\<close>

function parse_fields :: "string \<Rightarrow> bytes \<Rightarrow> nat option \<Rightarrow> (bytes \<times> nat option \<times> string) option" where
  "parse_fields s acc ell =
     (if length acc \<ge> 16 then Some (acc, ell, s)
      else let f = takeWhile (\<lambda>c. hex_digit c \<noteq> None) s; r = dropWhile (\<lambda>c. hex_digit c \<noteq> None) s in
      if f = [] \<or> length f > 4 then None
      else if r \<noteq> [] \<and> hd r = CHR ''.'' then
        (if ell = None \<and> length acc \<noteq> 12 then None
         else if length acc + 4 > 16 then None
         else case parse_ip4 s of None \<Rightarrow> None | Some v \<Rightarrow> Some (acc @ v, ell, []))
      else let n = hex_field f; acc' = acc @ [of_nat (n div 256), of_nat n] in
        case r of
          [] \<Rightarrow> Some (acc', ell, [])
        | c # r' \<Rightarrow>
            if c \<noteq> CHR '':'' then None
            else (case r' of
                [] \<Rightarrow> None
              | d # r'' \<Rightarrow>
                  if d \<noteq> CHR '':'' then parse_fields r' acc' ell
                  else if ell \<noteq> None then None
                  else if r'' = [] then Some (acc', Some (length acc'), [])
                  else parse_fields r'' acc' (Some (length acc'))))"
  by pat_completeness auto

termination
  by (relation "measure (\<lambda>(s, acc, ell). length s)") (auto dest!: dropWhile_shrinks[OF sym])

declare parse_fields.simps [simp del]

definition parse_ip6 :: "string \<Rightarrow> bytes option" where
  "parse_ip6 s =
     (if CHR ''%'' \<in> set s then None
      else let lead = (take 2 s = ''::''); s' = (if lead then drop 2 s else s) in
        if lead \<and> s' = [] then Some (replicate 16 0)
        else case parse_fields s' [] (if lead then Some 0 else None) of
          None \<Rightarrow> None
        | Some (acc, ell, rest) \<Rightarrow>
            if rest \<noteq> [] then None
            else if length acc < 16 then
              (case ell of None \<Rightarrow> None
               | Some e \<Rightarrow> Some (take e acc @ replicate (16 - length acc) 0 @ drop e acc))
            else if ell \<noteq> None then None
            else Some acc)"

definition parse_ip :: "string \<Rightarrow> ip option" where
  "parse_ip s =
     (case filter (\<lambda>c. c = CHR ''.'' \<or> c = CHR '':'' \<or> c = CHR ''%'') s of
        [] \<Rightarrow> None
      | c # _ \<Rightarrow> if c = CHR ''.'' then map_option to16 (parse_ip4 s)
                else if c = CHR '':'' then parse_ip6 s else None)"

definition is_unspecified :: "ip \<Rightarrow> bool" where
  "is_unspecified a \<longleftrightarrow> ip_equal a (v4_prefix @ [0, 0, 0, 0]) \<or> ip_equal a (replicate 16 0)"

lemma split_on_none: "c \<notin> set xs \<Longrightarrow> split_on c xs = [xs]"
  by (induction xs) auto

lemma split_on_append: "c \<notin> set xs \<Longrightarrow> split_on c (xs @ c # ys) = xs # split_on c ys"
  by (induction xs) auto

lemma hd_dec: "hd (dec n) = CHR ''0'' \<longleftrightarrow> n = 0"
proof (induction n rule: dec.induct)
  case (1 n)
  show ?case
  proof (cases "n < 10")
    case True
    have "CHR ''0'' = digit 0"
      by (simp add: digit_def char_of_def bit_iff_odd)
    moreover have "digit n = digit 0 \<longleftrightarrow> n = 0"
      using True of_char_digit[of n] of_char_digit[of 0] by (metis add_left_cancel zero_less_numeral)
    ultimately show ?thesis
      using True by (simp add: dec.simps[of n])
  next
    case False
    with 1 show ?thesis by (simp add: dec.simps[of n])
  qed
qed

lemma parse_octet_dec [fmt]: "parse_octet (dec (unat (b :: byte))) = Some b"
proof -
  have "list_all is_digit (dec (unat b))"
    using dec_digits by (simp add: list_all_iff)
  moreover have "\<not> (length (dec (unat b)) > 1 \<and> hd (dec (unat b)) = CHR ''0'')"
  proof -
    have "length (dec 0) = 1"
      by (simp add: dec.simps[of 0])
    then show ?thesis
      by (metis hd_dec less_irrefl)
  qed
  moreover have "\<not> undec (dec (unat b)) > 255"
    using unat_byte_less[of b] by simp
  ultimately show ?thesis
    by (simp add: parse_octet_def)
qed

lemma parse_ip4_string [fmt]:
  assumes "length a = 4"
  shows "parse_ip4 (ip4_string a) = Some a"
proof -
  obtain w x y z where a: "a = [w, x, y, z]"
    using list4E[OF assms] by metis
  have dot: "CHR ''.'' \<notin> set (dec n)" for n
    by (simp add: fmt)
  show ?thesis
    by (simp add: a ip4_string_def parse_ip4_def split_on_append split_on_none dot parse_octet_dec)
qed

lemma parse_ip_string [fmt]:
  assumes "to4 a = Some b"
  shows "parse_ip (ip_string a) = Some (to16 b)"
proof -
  have len: "length b = 4"
    using assms by (rule to4_length)
  obtain w x y z where b: "b = [w, x, y, z]"
    using list4E[OF len] by metis
  have no: "filter (\<lambda>c. c = CHR ''.'' \<or> c = CHR '':'' \<or> c = CHR ''%'') (dec n) = []" for n
    by (auto simp: filter_empty_conv dest!: dec_digits) (simp_all add: is_digit_def)
  have "filter (\<lambda>c. c = CHR ''.'' \<or> c = CHR '':'' \<or> c = CHR ''%'') (ip4_string b) = ''...''"
    by (simp add: b ip4_string_def no)
  then show ?thesis
    using parse_ip4_string[OF len] by (simp add: parse_ip_def ip_string_v4[OF assms])
qed

lemma ip4_string_plain: "length a = 4 \<Longrightarrow> plain_host (ip4_string a)"
proof -
  assume "length a = 4"
  then obtain w x y z where a: "a = [w, x, y, z]"
    by (metis list4E)
  have "c \<notin> set (dec n)" if "c = CHR '':'' \<or> c = CHR ''['' \<or> c = CHR '']''" for c n
    using that by (auto dest!: dec_digits simp: is_digit_def)
  then show ?thesis
    by (simp add: plain_host_def a ip4_string_4)
qed

end
