(* ===== verification/IpPool.thy ===== *)
theory IpPool
  imports NetAddr "HOL-Library.Multiset"
begin

text \<open>
  The tunnel-address pool of \<open>master/session\<close>: the enumeration of a subnet, the FIFO of
  free addresses per family and the pool that tries IPv4 before IPv6. The \<open>address_pool\<close>
  locale states what the handshake and the reaper rely on: an address is handed out only
  while free, and every address handed out or returned is accounted for.
\<close>

section \<open>Addresses and subnets of package net\<close>

record ipnet =
  n_ip :: ip
  n_mask :: bytes

definition and_bytes :: "bytes \<Rightarrow> bytes \<Rightarrow> bytes" where
  "and_bytes a m = map2 (AND) a m"

definition ip_mask :: "ip \<Rightarrow> bytes \<Rightarrow> ip" where
  "ip_mask a msk =
     (let m = (if length msk = 16 \<and> length a = 4 \<and> take 12 msk = replicate 12 0xFF then drop 12 msk else msk);
          b = (if length m = 4 \<and> length a = 16 \<and> take 12 a = v4_prefix then drop 12 a else a)
      in if length b = length m then and_bytes b m else [])"

definition network_number :: "ipnet \<Rightarrow> ip \<times> bytes" where
  "network_number n =
     (let a = (case to4 (n_ip n) of Some x \<Rightarrow> x | None \<Rightarrow> n_ip n)
      in if length a \<noteq> 4 \<and> length a \<noteq> 16 then ([], [])
         else if length (n_mask n) = 4 then (if length a = 4 then (a, n_mask n) else ([], []))
         else if length (n_mask n) = 16 then (a, if length a = 4 then drop 12 (n_mask n) else n_mask n)
         else ([], []))"

definition net_contains :: "ipnet \<Rightarrow> ip \<Rightarrow> bool" where
  "net_contains n a =
     (let (nn, m) = network_number n; b = (case to4 a of Some x \<Rightarrow> x | None \<Rightarrow> a)
      in length b = length nn \<and> and_bytes nn m = and_bytes b m)"

section \<open>Enumerating a subnet\<close>

fun inc_rev :: "bytes \<Rightarrow> bytes" where
  "inc_rev [] = []"
| "inc_rev (b # bs) = (if b + 1 \<noteq> 0 then (b + 1) # bs else 0 # inc_rev bs)"

definition increment_ip :: "ip \<Rightarrow> ip" where
  "increment_ip a = rev (inc_rev (rev a))"

definition broadcast_ip :: "ipnet \<Rightarrow> ip" where
  "broadcast_ip n =
     (case to4 (n_ip n) of Some b \<Rightarrow> map2 (\<lambda>x m. x OR NOT m) b (n_mask n) | None \<Rightarrow> [])"

definition max_pool_size :: nat where "max_pool_size = 2 ^ 16"

definition reserved :: "ip \<Rightarrow> ip \<Rightarrow> ip \<Rightarrow> ip \<Rightarrow> bool" where
  "reserved network gateway bcast a \<longleftrightarrow>
     ip_equal a network \<or> ip_equal a gateway \<or> (bcast \<noteq> [] \<and> ip_equal a bcast)"

text \<open>The loop of \<open>newSubnet\<close>; \<open>None\<close> would be a loop that never ends.\<close>

partial_function (option) subnet_loop :: "ipnet \<Rightarrow> (ip \<Rightarrow> bool) \<Rightarrow> ip \<Rightarrow> ip list \<Rightarrow> ip list option" where
  "subnet_loop n skip a acc =
     (if \<not> net_contains n a then Some acc
      else if length acc \<ge> max_pool_size then Some acc
      else if skip a then subnet_loop n skip (increment_ip a) acc
      else subnet_loop n skip (increment_ip a) (acc @ [a]))"

definition new_subnet :: "ipnet \<Rightarrow> ip \<Rightarrow> ip list option" where
  "new_subnet n gateway =
     (let network = ip_mask (n_ip n) (n_mask n);
          bcast = (if to4 network \<noteq> None then broadcast_ip n else [])
      in subnet_loop n (reserved network gateway bcast) network [])"

section \<open>The enumeration returns\<close>

text \<open>The big-endian number an address stands for; incrementing adds one to it.\<close>

fun rev_val :: "bytes \<Rightarrow> nat" where
  "rev_val [] = 0"
| "rev_val (b # bs) = unat b + 256 * rev_val bs"

definition ip_val :: "ip \<Rightarrow> nat" where
  "ip_val a = rev_val (rev a)"

lemma length_increment_ip [simp]: "length (increment_ip a) = length a"
proof -
  have "length (inc_rev xs) = length xs" for xs
    by (induction xs) auto
  then show ?thesis by (simp add: increment_ip_def)
qed

lemma length_increments [simp]: "length ((increment_ip ^^ k) a) = length a"
  by (induction k) auto

lemma rev_val_less: "rev_val xs < 256 ^ length xs"
proof (induction xs)
  case (Cons b bs)
  have "unat b < 256"
    using unsigned_less[of b] by simp
  moreover have "256 * rev_val bs + 256 \<le> 256 * 256 ^ length bs"
    using Cons by linarith
  ultimately show ?case by simp
qed simp

lemma rev_val_inc: "rev_val (inc_rev xs) = (rev_val xs + 1) mod 256 ^ length xs"
proof (induction xs)
  case (Cons b bs)
  have less: "unat b < 256"
    using unsigned_less[of b] by simp
  show ?case
  proof (cases "b + 1 = 0")
    case True
    then have "(unat b + 1) mod 256 = 0"
      using unat_word_ariths(1)[of b 1] by simp
    with less have b255: "unat b = 255"
      by presburger
    have "rev_val (inc_rev (b # bs)) = 256 * ((rev_val bs + 1) mod 256 ^ length bs)"
      using True Cons by simp
    also have "\<dots> = (256 * (rev_val bs + 1)) mod (256 * 256 ^ length bs)"
      by (simp add: mult_mod_right)
    finally show ?thesis
      using b255 by (simp add: algebra_simps)
  next
    case False
    then have "unat (b + 1) = unat b + 1"
      by (metis unatSuc add.commute Suc_eq_plus1)
    moreover from this have "unat b + 1 < 256"
      by (metis unat_byte_less)
    then have "rev_val (b # bs) + 1 < 256 ^ length (b # bs)"
      using rev_val_less[of bs] by simp
    ultimately show ?thesis
      using False by simp
  qed
qed simp

lemma ip_val_less: "ip_val a < 256 ^ length a"
  using rev_val_less[of "rev a"] by (simp add: ip_val_def)

lemma ip_val_increment: "ip_val (increment_ip a) = (ip_val a + 1) mod 256 ^ length a"
  by (simp add: ip_val_def increment_ip_def rev_val_inc)

lemma ip_val_increments: "ip_val ((increment_ip ^^ k) a) = (ip_val a + k) mod 256 ^ length a"
  by (induction k) (simp_all add: ip_val_less ip_val_increment mod_Suc_eq)

lemma increments_distinct:
  assumes "i < 256 ^ length a" and "j < 256 ^ length a"
    and "(increment_ip ^^ i) a = (increment_ip ^^ j) a"
  shows "i = j"
proof -
  have *: "(ip_val a + i) mod 256 ^ length a = (ip_val a + j) mod 256 ^ length a"
    using assms(3) by (metis ip_val_increments)
  then show ?thesis
  proof (cases "i \<le> j")
    case True
    with * have "256 ^ length a dvd j - i"
      using mod_eq_dvd_iff_nat[of "ip_val a + i" "ip_val a + j"] by (metis add_diff_cancel_left add_left_mono)
    with True assms(2) show ?thesis
      by (meson dvd_imp_le le_antisym less_imp_diff_less not_less zero_less_diff leI)
  next
    case False
    with * have "256 ^ length a dvd i - j"
      using mod_eq_dvd_iff_nat[of "ip_val a + j" "ip_val a + i"]
      by (metis add_diff_cancel_left add_left_mono nat_le_linear)
    with False assms(1) show ?thesis
      by (meson dvd_imp_le le_antisym less_imp_diff_less not_less zero_less_diff leI)
  qed
qed

text \<open>
  Among any four consecutive addresses at most three are reserved, so the loop adds an
  address at least every fourth round and stops after at most \<open>4 * max_pool_size\<close> rounds.
\<close>

lemma last_byte_increments:
  "a \<noteq> [] \<Longrightarrow> k < 4 \<Longrightarrow> l < 4 \<Longrightarrow> (increment_ip ^^ k) a = (increment_ip ^^ l) a \<Longrightarrow> k = l"
proof (rule increments_distinct)
  assume "a \<noteq> []" "k < 4" "l < 4"
  then have "(256 :: nat) ^ 1 \<le> 256 ^ length a"
    by (intro power_increasing) (auto simp: Suc_le_eq)
  with \<open>k < 4\<close> \<open>l < 4\<close> show "k < 256 ^ length a" "l < 256 ^ length a"
    by simp_all
qed

lemma ip_equal_unique:
  "ip_equal a x \<Longrightarrow> ip_equal b x \<Longrightarrow> length a = length b \<Longrightarrow> a = b"
  by (auto simp: ip_equal_def split: if_splits) (metis append_take_drop_id)

lemma four_two_equal:
  fixes f :: "nat \<Rightarrow> 'a"
  assumes "\<And>k. k < 4 \<Longrightarrow> P (f k) \<or> Q (f k) \<or> R (f k)"
    and "\<And>k l. k < 4 \<Longrightarrow> l < 4 \<Longrightarrow> P (f k) \<Longrightarrow> P (f l) \<Longrightarrow> k = l"
    and "\<And>k l. k < 4 \<Longrightarrow> l < 4 \<Longrightarrow> Q (f k) \<Longrightarrow> Q (f l) \<Longrightarrow> k = l"
    and "\<And>k l. k < 4 \<Longrightarrow> l < 4 \<Longrightarrow> R (f k) \<Longrightarrow> R (f l) \<Longrightarrow> k = l"
  shows False
proof -
  have "P (f 0) \<or> Q (f 0) \<or> R (f 0)" "P (f 1) \<or> Q (f 1) \<or> R (f 1)"
    "P (f 2) \<or> Q (f 2) \<or> R (f 2)" "P (f 3) \<or> Q (f 3) \<or> R (f 3)"
    using assms(1)[of 0] assms(1)[of 1] assms(1)[of 2] assms(1)[of 3] by simp_all
  moreover have "\<not> (P (f k) \<and> P (f l))" "\<not> (Q (f k) \<and> Q (f l))" "\<not> (R (f k) \<and> R (f l))"
    if "k < 4" "l < 4" "k \<noteq> l" for k l
    using assms(2-4)[of k l] that by auto
  from this[of 0 1] this[of 0 2] this[of 0 3] this[of 1 2] this[of 1 3] this[of 2 3]
  have "\<not> (P (f 0) \<and> P (f 1))" "\<not> (Q (f 0) \<and> Q (f 1))" "\<not> (R (f 0) \<and> R (f 1))"
    "\<not> (P (f 0) \<and> P (f 2))" "\<not> (Q (f 0) \<and> Q (f 2))" "\<not> (R (f 0) \<and> R (f 2))"
    "\<not> (P (f 0) \<and> P (f 3))" "\<not> (Q (f 0) \<and> Q (f 3))" "\<not> (R (f 0) \<and> R (f 3))"
    "\<not> (P (f 1) \<and> P (f 2))" "\<not> (Q (f 1) \<and> Q (f 2))" "\<not> (R (f 1) \<and> R (f 2))"
    "\<not> (P (f 1) \<and> P (f 3))" "\<not> (Q (f 1) \<and> Q (f 3))" "\<not> (R (f 1) \<and> R (f 3))"
    "\<not> (P (f 2) \<and> P (f 3))" "\<not> (Q (f 2) \<and> Q (f 3))" "\<not> (R (f 2) \<and> R (f 3))"
    by simp_all
  ultimately show False by argo
qed

lemma unreserved_soon:
  assumes "a \<noteq> []"
  shows "\<exists>k<4. \<not> reserved network gateway bcast ((increment_ip ^^ k) a)"
proof (rule ccontr)
  let ?f = "\<lambda>k. (increment_ip ^^ k) a"
  assume none: "\<not> ?thesis"
  have uniq: "k = l" if "k < 4" "l < 4" "ip_equal (?f k) x" "ip_equal (?f l) x" for k l x
    using last_byte_increments[OF assms that(1,2)] ip_equal_unique[OF that(3,4)] by simp
  show False
    by (rule four_two_equal[of "\<lambda>x. ip_equal x network" ?f "\<lambda>x. ip_equal x gateway"
          "\<lambda>x. bcast \<noteq> [] \<and> ip_equal x bcast"])
       (use none in \<open>auto simp: reserved_def intro: uniq\<close>)
qed

definition visited :: "ip \<Rightarrow> nat \<Rightarrow> ip list" where
  "visited a m = map (\<lambda>i. (increment_ip ^^ i) a) [0..<m]"

lemma visited_Suc: "visited a (Suc m) = a # visited (increment_ip a) m"
proof -
  have "[0..<Suc m] = 0 # map Suc [0..<m]"
    by (simp add: upt_conv_Cons map_Suc_upt del: upt_Suc)
  then show ?thesis
    unfolding visited_def by (simp del: upt_Suc add: funpow_swap1)
qed

lemma subnet_loop_returns:
  assumes soon: "\<And>b. length b = length a \<Longrightarrow> \<exists>k<4. \<not> skip ((increment_ip ^^ k) b)"
    and "k < 4" "\<not> skip ((increment_ip ^^ k) a)" "4 * (max_pool_size - length acc) + k \<le> N"
  shows "\<exists>m \<le> N. subnet_loop n skip a acc = Some (acc @ filter (\<lambda>x. \<not> skip x) (visited a m))
     \<and> list_all (net_contains n) (visited a m)
     \<and> (\<not> net_contains n ((increment_ip ^^ m) a)
        \<or> max_pool_size \<le> length acc + length (filter (\<lambda>x. \<not> skip x) (visited a m)))"
  using assms
proof (induction N arbitrary: a acc k)
  case 0
  then have "max_pool_size \<le> length acc" by simp
  then show ?case
    by (intro exI[of _ 0]) (simp add: subnet_loop.simps visited_def)
next
  case (Suc N)
  show ?case
  proof (cases "\<not> net_contains n a \<or> max_pool_size \<le> length acc")
    case True
    then show ?thesis
      by (intro exI[of _ 0]) (auto simp: subnet_loop.simps visited_def)
  next
    case go: False
    let ?b = "increment_ip a" and ?acc = "if skip a then acc else acc @ [a]"
    obtain k' where k': "k' < 4" "\<not> skip ((increment_ip ^^ k') ?b)"
      "4 * (max_pool_size - length ?acc) + k' \<le> N"
    proof (cases "skip a")
      case True
      with Suc.prems(3) obtain j where "k = Suc j" by (cases k) auto
      with True Suc.prems show ?thesis
        by (intro that[of j]) (auto simp: funpow_swap1)
    next
      case False
      obtain j where "j < 4" "\<not> skip ((increment_ip ^^ j) ?b)"
        using Suc.prems(1)[of ?b] by auto
      with False go Suc.prems(4) show ?thesis
        by (intro that[of j]) auto
    qed
    then obtain m where m: "m \<le> N"
      "subnet_loop n skip ?b ?acc = Some (?acc @ filter (\<lambda>x. \<not> skip x) (visited ?b m))"
      "list_all (net_contains n) (visited ?b m)"
      "\<not> net_contains n ((increment_ip ^^ m) ?b)
        \<or> max_pool_size \<le> length ?acc + length (filter (\<lambda>x. \<not> skip x) (visited ?b m))"
      using Suc.IH[of ?b k' ?acc] Suc.prems(1) by auto
    with go show ?thesis
      by (intro exI[of _ "Suc m"])
         (auto simp: subnet_loop.simps[of n skip a acc] visited_Suc funpow_swap1)
  qed
qed

lemma subnet_loop_bounded:
  assumes "subnet_loop n skip a acc = Some r"
  shows "length acc \<le> max_pool_size \<longrightarrow> length r \<le> max_pool_size"
  by (rule subnet_loop.raw_induct[OF _ assms,
        where P = "\<lambda>n skip a acc r. length acc \<le> max_pool_size \<longrightarrow> length r \<le> max_pool_size"])
     (auto split: if_splits)

lemma distinct_visited:
  assumes "m \<le> 256 ^ length a"
  shows "distinct (visited a m)"
proof -
  have "inj_on (\<lambda>i. (increment_ip ^^ i) a) {0..<m}"
  proof (rule inj_onI)
    fix i j assume "i \<in> {0..<m}" "j \<in> {0..<m}" "(increment_ip ^^ i) a = (increment_ip ^^ j) a"
    with assms show "i = j"
      by (intro increments_distinct[of i a j]) simp_all
  qed
  then show ?thesis
    by (simp add: visited_def distinct_map)
qed

lemma length_ip_mask: "ip_mask a m \<noteq> [] \<Longrightarrow> length (ip_mask a m) = length a \<or> length (ip_mask a m) = 4"
  by (auto simp: ip_mask_def and_bytes_def Let_def split: if_splits)

lemma reserved_self: "reserved a g b a"
  by (simp add: reserved_def ip_equal_def)

lemma new_subnet_run:
  assumes "network = ip_mask (n_ip n) (n_mask n)" and "network \<noteq> []"
    and "skip = reserved network gateway (if to4 network \<noteq> None then broadcast_ip n else [])"
  obtains m where "new_subnet n gateway = Some (filter (\<lambda>a. \<not> skip a) (visited network m))"
    and "m \<le> 4 * max_pool_size + 3"
    and "list_all (net_contains n) (visited network m)"
    and "\<not> net_contains n ((increment_ip ^^ m) network)
      \<or> max_pool_size \<le> length (filter (\<lambda>a. \<not> skip a) (visited network m))"
proof -
  have soon: "\<exists>k<4. \<not> skip ((increment_ip ^^ k) b)" if "length b = length network" for b
    using unreserved_soon[of b] that assms(2,3) by (metis length_0_conv)
  obtain k where "k < 4" "\<not> skip ((increment_ip ^^ k) network)"
    using soon[of network] by auto
  with subnet_loop_returns[of network skip k "[]" "4 * max_pool_size + 3" n] soon
  obtain m where "m \<le> 4 * max_pool_size + 3"
    "subnet_loop n skip network [] = Some (filter (\<lambda>a. \<not> skip a) (visited network m))"
    "list_all (net_contains n) (visited network m)"
    "\<not> net_contains n ((increment_ip ^^ m) network)
      \<or> max_pool_size \<le> length (filter (\<lambda>a. \<not> skip a) (visited network m))"
    by auto
  moreover have "new_subnet n gateway = subnet_loop n skip network []"
    using assms by (simp add: new_subnet_def Let_def)
  ultimately show thesis
    by (intro that) simp_all
qed

lemma new_subnet_list:
  assumes "length (n_ip n) = 4 \<or> length (n_ip n) = 16" and "ip_mask (n_ip n) (n_mask n) \<noteq> []"
  shows "\<exists>l. new_subnet n gateway = Some l \<and> distinct l \<and> length l \<le> 65536
    \<and> (\<forall>a \<in> set l. length a = length (ip_mask (n_ip n) (n_mask n)) \<and> net_contains n a
         \<and> \<not> ip_equal a (ip_mask (n_ip n) (n_mask n)) \<and> \<not> ip_equal a gateway)"
proof -
  let ?net = "ip_mask (n_ip n) (n_mask n)"
  let ?skip = "reserved ?net gateway (if to4 ?net \<noteq> None then broadcast_ip n else [])"
  obtain m where m: "new_subnet n gateway = Some (filter (\<lambda>a. \<not> ?skip a) (visited ?net m))"
    "m \<le> 4 * max_pool_size + 3" "list_all (net_contains n) (visited ?net m)"
    using new_subnet_run[OF refl assms(2) refl] by blast
  have "length ?net \<ge> 4"
    using length_ip_mask[OF assms(2)] assms(1) by auto
  then have "(256 :: nat) ^ 4 \<le> 256 ^ length ?net"
    by (intro power_increasing) simp_all
  with m(2) have "distinct (visited ?net m)"
    by (intro distinct_visited) (simp add: max_pool_size_def)
  moreover have "length (filter (\<lambda>a. \<not> ?skip a) (visited ?net m)) \<le> 65536"
    using m(1) subnet_loop_bounded[of n ?skip ?net "[]"]
    by (simp add: new_subnet_def Let_def max_pool_size_def)
  moreover have "length a = length ?net" if "a \<in> set (visited ?net m)" for a
    using that by (auto simp: visited_def)
  ultimately show ?thesis
    using m(1,3) by (auto simp: reserved_def list_all_iff)
qed

text \<open>The enumeration returns: for an address and a mask of matching family the loop of
  \<open>newSubnet\<close> ends, with at most 2^16 addresses, none listed twice, all inside the subnet, and
  without the network address and the gateway.\<close>

theorem subnet_enumeration_returns:
  assumes "length (n_ip n) = 4 \<or> length (n_ip n) = 16" and "ip_mask (n_ip n) (n_mask n) \<noteq> []"
  shows "\<exists>l. new_subnet n gateway = Some l \<and> distinct l \<and> length l \<le> 65536
    \<and> (\<forall>a \<in> set l. net_contains n a \<and> \<not> ip_equal a (ip_mask (n_ip n) (n_mask n))
         \<and> \<not> ip_equal a gateway)"
  using new_subnet_list[OF assms] by blast

lemma ip_mask_sample: "ip_mask [10, 8, 0, 1] [255, 255, 255, 0] = [10, 8, 0, 0]"
  by (simp add: ip_mask_def and_bytes_def)

theorem subnet_enumeration_returns_witness:
  "\<exists>l. new_subnet \<lparr>n_ip = [10, 8, 0, 1], n_mask = [255, 255, 255, 0]\<rparr> [10, 8, 0, 1] = Some l \<and> distinct l"
  using subnet_enumeration_returns[of "\<lparr>n_ip = [10, 8, 0, 1], n_mask = [255, 255, 255, 0]\<rparr>" "[10, 8, 0, 1]"]
  by (auto simp: ip_mask_sample)

section \<open>IPv4 subnets, exactly\<close>

lemma rev_val_inj: "length xs = length ys \<Longrightarrow> rev_val xs = rev_val ys \<Longrightarrow> xs = ys"
proof (induction xs ys rule: list_induct2)
  case (Cons x xs y ys)
  have "rev_val (x # xs) mod 256 = rev_val (y # ys) mod 256"
    "rev_val (x # xs) div 256 = rev_val (y # ys) div 256"
    using Cons.prems by simp_all
  then have "unat x = unat y" "rev_val xs = rev_val ys"
    using unat_byte_less[of x] unat_byte_less[of y] by simp_all
  with Cons.IH show ?case by (simp add: word_unat_eq_iff)
qed simp

lemma ip_val_inj: "length a = length b \<Longrightarrow> ip_val a = ip_val b \<Longrightarrow> a = b"
  using rev_val_inj[of "rev a" "rev b"] by (simp add: ip_val_def)

lemma ip_val_put32: "ip_val (put32 w) = unat w"
proof -
  have "unat w < 2 ^ 32"
    using unsigned_less[of w] by simp
  then have *: "unat w div 2 ^ 24 mod 256 = unat w div 2 ^ 24"
    by (simp add: div_less_iff_less_mult)
  have "unat w = 256 * (256 * (256 * (unat w div 256 div 256 div 256) + unat w div 256 div 256 mod 256)
      + unat w div 256 mod 256) + unat w mod 256"
    by (metis div_mult_mod_eq mult.commute)
  with * show ?thesis
    by (simp add: ip_val_def put32_def unsigned_ucast_eq take_bit_eq_mod unsigned_drop_bit_eq
        drop_bit_eq_div[where 'a = nat] div_mult2_eq [symmetric])
qed

lemma increment_put32: "increment_ip (put32 w) = put32 (w + 1)"
  by (rule ip_val_inj) (simp_all add: ip_val_increment ip_val_put32 unat_word_ariths)

lemma increments_put32: "(increment_ip ^^ k) (put32 w) = put32 (w + of_nat k)"
  by (induction k) (simp_all add: increment_put32 algebra_simps)

lemma and_bytes_put32: "and_bytes (put32 a) (put32 b) = put32 (a AND b)"
  by (auto simp: and_bytes_def put32_def intro!: bit_word_eqI simp: bit_simps)

lemma or_not_put32: "map2 (\<lambda>x m. x OR NOT m) (put32 a) (put32 b) = put32 (a OR NOT b)"
  by (auto simp: put32_def intro!: bit_word_eqI simp: bit_simps)

lemma clear_low_bits: "(x :: u32) AND NOT (mask h) = push_bit h (drop_bit h x)"
  by (rule bit_word_eqI) (auto simp: bit_simps)

lemma drop_low: "drop_bit h ((x :: u32) AND NOT (mask h)) = drop_bit h x"
  by (rule bit_word_eqI) (auto simp: bit_simps dest: bit_imp_le_length)

lemma same_prefix: "(x :: u32) AND NOT (mask h) = y AND NOT (mask h) \<longleftrightarrow> unat x div 2 ^ h = unat y div 2 ^ h"
proof -
  have "x AND NOT (mask h) = y AND NOT (mask h) \<longleftrightarrow> drop_bit h x = drop_bit h y"
    using drop_low by (metis clear_low_bits)
  also have "\<dots> \<longleftrightarrow> unat (drop_bit h x) = unat (drop_bit h y)"
    by (simp add: word_unat_eq_iff)
  also have "\<dots> \<longleftrightarrow> unat x div 2 ^ h = unat y div 2 ^ h"
  proof -
    have "take_bit 32 (unat z) = unat z" for z :: u32
      using unsigned_less[of z] by (simp add: take_bit_nat_eq_self_iff)
    then show ?thesis
      by (simp add: unsigned_drop_bit_eq drop_bit_eq_div[where 'a = nat])
  qed
  finally show ?thesis .
qed

text \<open>The subnet of IPv4 address \<open>w\<close> with \<open>h\<close> host bits.\<close>

definition cidr4 :: "u32 \<Rightarrow> nat \<Rightarrow> ipnet" where
  "cidr4 w h = \<lparr>n_ip = put32 w, n_mask = put32 (NOT (mask h))\<rparr>"

lemma cidr4_mask: "ip_mask (n_ip (cidr4 w h)) (n_mask (cidr4 w h)) = put32 (w AND NOT (mask h))"
  by (simp add: ip_mask_def cidr4_def and_bytes_put32)

lemma cidr4_broadcast: "broadcast_ip (cidr4 w h) = put32 (w OR mask h)"
  by (simp add: broadcast_ip_def cidr4_def or_not_put32)

lemma put32_inj [simp]: "put32 a = put32 b \<longleftrightarrow> a = b"
  by (metis get32_put32)

lemma ip_equal_put32 [simp]: "ip_equal (put32 a) (put32 b) \<longleftrightarrow> a = b"
  by (simp add: ip_equal_def)

lemma put32_not_nil [simp]: "put32 a \<noteq> []"
  by (simp add: put32_def)

lemma cidr4_contains:
  "net_contains (cidr4 w h) (put32 x) \<longleftrightarrow> unat x div 2 ^ h = unat w div 2 ^ h"
  using same_prefix[of x h w]
  by (auto simp: net_contains_def network_number_def cidr4_def and_bytes_put32)

lemma split_low: "(w :: u32) AND NOT (mask h) = of_nat (unat w div 2 ^ h * 2 ^ h)"
proof -
  have "take_bit 32 (unat w) = unat w"
    using unsigned_less[of w] by (simp add: take_bit_nat_eq_self_iff)
  then have "unat (push_bit h (drop_bit h w)) = (unat w div 2 ^ h * 2 ^ h) mod 2 ^ 32"
    by (simp add: unsigned_push_bit_eq unsigned_drop_bit_eq drop_bit_eq_div[where 'a = nat]
        push_bit_eq_mult[where 'a = nat] take_bit_eq_mod)
  then show ?thesis
    unfolding clear_low_bits word_unat_eq_iff unat_of_nat by simp
qed

lemma cidr4_members:
  assumes "h \<le> 16" and "i \<le> 2 ^ h"
  shows "net_contains (cidr4 w h) (put32 ((w AND NOT (mask h)) + of_nat i)) \<longleftrightarrow> i < 2 ^ h"
proof -
  let ?q = "unat w div 2 ^ h"
  have h32: "(2 :: nat) ^ 32 = 2 ^ (32 - h) * 2 ^ h"
    using assms(1) by (simp add: power_add [symmetric])
  have q: "?q < 2 ^ (32 - h)"
    using unat32_less[of w] unfolding h32 by (rule less_mult_imp_div_less)
  have big: "(2 :: nat) \<le> 2 ^ (32 - h)"
    using power_increasing[of 1 "32 - h" "2 :: nat"] assms(1) by simp
  have "unat ((w AND NOT (mask h)) + of_nat i) = (?q * 2 ^ h + i) mod 2 ^ 32"
    unfolding split_low of_nat_add [symmetric] unat_of_nat by simp
  also have "\<dots> div 2 ^ h = (?q * 2 ^ h + i) div 2 ^ h mod 2 ^ (32 - h)"
    unfolding h32 by (metis div_exp_mod_exp_eq h32 le_add_diff_inverse2 mult.commute power_add)
  also have "(?q * 2 ^ h + i) div 2 ^ h = ?q + i div 2 ^ h"
    by simp
  finally have *: "unat ((w AND NOT (mask h)) + of_nat i) div 2 ^ h = (?q + i div 2 ^ h) mod 2 ^ (32 - h)" .
  show ?thesis
  proof (cases "i < 2 ^ h")
    case True
    with * q show ?thesis by (simp add: cidr4_contains)
  next
    case False
    with assms(2) have "i div 2 ^ h = 1" by simp
    moreover have "(?q + 1) mod 2 ^ (32 - h) \<noteq> ?q"
      using q big by (cases "?q + 1 = 2 ^ (32 - h)") auto
    ultimately show ?thesis
      using * False by (simp add: cidr4_contains)
  qed
qed

lemma cidr4_visited: "visited (put32 w) k = map (\<lambda>i. put32 (w + of_nat i)) [0..<k]"
  by (simp add: visited_def increments_put32)

lemma cidr4_last: "(w :: u32) OR mask h = (w AND NOT (mask h)) + of_nat (2 ^ h - 1)"
proof -
  have "(w AND NOT (mask h)) + mask h = (w AND NOT (mask h)) OR mask h"
    by (rule disjunctive_add) (auto simp: bit_simps)
  also have "\<dots> = w OR mask h"
    by (rule bit_word_eqI) (auto simp: bit_simps)
  finally show ?thesis
    by (simp add: mask_eq_exp_minus_1 of_nat_diff)
qed

lemma cidr4_ends:
  assumes "h \<le> 16" and "i < 2 ^ h"
  shows "((w :: u32) AND NOT (mask h)) + of_nat i = (w AND NOT (mask h)) \<longleftrightarrow> i = 0"
    and "(w AND NOT (mask h)) + of_nat i = w OR mask h \<longleftrightarrow> i = 2 ^ h - 1"
proof -
  have inj: "(w AND NOT (mask h)) + of_nat i = (w AND NOT (mask h)) + of_nat j \<longleftrightarrow> i = j"
    if "i < 2 ^ 32" "j < 2 ^ 32" for i j
    using that by (simp add: word_of_nat_eq_iff take_bit_nat_eq_self)
  have "(2 :: nat) ^ h \<le> 2 ^ 16"
    using assms(1) by (intro power_increasing) simp_all
  with assms(2) have "i < 2 ^ 32" "2 ^ h - 1 < (2 :: nat) ^ 32"
    by simp_all
  then show "(w AND NOT (mask h)) + of_nat i = (w AND NOT (mask h)) \<longleftrightarrow> i = 0"
    "(w AND NOT (mask h)) + of_nat i = w OR mask h \<longleftrightarrow> i = 2 ^ h - 1"
    unfolding cidr4_last using inj[of i 0] inj[of i "2 ^ h - 1"] by simp_all
qed

text \<open>The loop visits the whole subnet and stops at its end, not at the size limit.\<close>

lemma cidr4_run:
  assumes "h \<le> 16"
  shows "new_subnet (cidr4 w h) gateway = Some (filter
    (\<lambda>a. \<not> reserved (put32 (w AND NOT (mask h))) gateway (put32 (w OR mask h)) a)
    (map (\<lambda>i. put32 ((w AND NOT (mask h)) + of_nat i)) [0..<2 ^ h]))"
proof -
  let ?net = "w AND NOT (mask h)"
  let ?skip = "reserved (put32 ?net) gateway (put32 (w OR mask h))"
  have "put32 ?net \<noteq> []" "?skip = reserved (put32 ?net) gateway
      (if to4 (put32 ?net) \<noteq> None then broadcast_ip (cidr4 w h) else [])"
    by (simp_all add: cidr4_broadcast)
  then obtain m where m: "new_subnet (cidr4 w h) gateway = Some (filter (\<lambda>a. \<not> ?skip a) (visited (put32 ?net) m))"
    "list_all (net_contains (cidr4 w h)) (visited (put32 ?net) m)"
    "\<not> net_contains (cidr4 w h) ((increment_ip ^^ m) (put32 ?net))
      \<or> max_pool_size \<le> length (filter (\<lambda>a. \<not> ?skip a) (visited (put32 ?net) m))"
    using new_subnet_run[OF cidr4_mask [symmetric], of w h ?skip gateway] by metis
  have le: "m \<le> 2 ^ h"
  proof (rule ccontr)
    assume "\<not> m \<le> 2 ^ h"
    then have "net_contains (cidr4 w h) (put32 (?net + of_nat (2 ^ h)))"
      using m(2) by (simp add: cidr4_visited list_all_iff del: of_nat_power of_nat_numeral)
    then show False
      unfolding cidr4_members[OF assms order_refl] by simp
  qed
  have "(2 :: nat) ^ h \<le> 2 ^ 16"
    using assms by (intro power_increasing) simp_all
  with le have "length (filter (\<lambda>a. \<not> ?skip a) (visited (put32 ?net) m)) < max_pool_size"
  proof (cases m)
    case (Suc j)
    have "length (filter (\<lambda>a. \<not> ?skip a) (visited (put32 ?net) m)) \<le> j"
      by (simp add: Suc visited_Suc reserved_self)
         (rule order_trans[OF length_filter_le], simp add: visited_def)
    with Suc le \<open>2 ^ h \<le> 2 ^ 16\<close> show ?thesis by (simp add: max_pool_size_def)
  qed (simp add: visited_def max_pool_size_def)
  with m(3) le have "m = 2 ^ h"
    using cidr4_members[OF assms, of m w] by (auto simp: increments_put32)
  with m(1) show ?thesis by (simp add: cidr4_visited)
qed

text \<open>C23. The IPv4 pool, exactly: a subnet with at most 16 host bits enumerates, in order, every
  address strictly between the network and the broadcast address except the gateway.\<close>

theorem ipv4_subnet_addresses:
  assumes "h \<le> 16"
  shows "new_subnet (cidr4 w h) gateway =
    Some (filter (\<lambda>a. \<not> ip_equal a gateway)
      (map (\<lambda>i. put32 ((w AND NOT (mask h)) + of_nat i)) [1..<2 ^ h - 1]))"
proof -
  let ?at = "\<lambda>i. put32 ((w AND NOT (mask h)) + of_nat i)"
  let ?skip = "reserved (put32 (w AND NOT (mask h))) gateway (put32 (w OR mask h))"
  have skip: "?skip (?at i) = (i = 0 \<or> i = 2 ^ h - 1 \<or> ip_equal (?at i) gateway)" if "i < 2 ^ h" for i
    unfolding reserved_def ip_equal_put32 cidr4_ends[OF assms that] by (simp add: disj_commute)
  have "filter (\<lambda>a. \<not> ?skip a) (map ?at [0..<2 ^ h])
      = map ?at (filter (\<lambda>i. \<not> (i = 0 \<or> i = 2 ^ h - 1 \<or> ip_equal (?at i) gateway)) [0..<2 ^ h])"
    unfolding filter_map comp_def by (intro arg_cong[where f = "map ?at"] filter_cong) (auto simp: skip)
  moreover have "[1..<2 ^ h - 1] = filter (\<lambda>i. \<not> (i = 0 \<or> i = 2 ^ h - 1)) [0..<2 ^ h]"
    by (rule sorted_distinct_set_unique) (auto intro: sorted_wrt_filter)
  ultimately show ?thesis
    unfolding cidr4_run[OF assms] by (simp add: filter_map comp_def conj_commute conj_left_commute)
qed

theorem ipv4_subnet_addresses_witness:
  "new_subnet (cidr4 0x0A080000 3) [10, 8, 0, 1] =
     Some [[10, 8, 0, 2], [10, 8, 0, 3], [10, 8, 0, 4], [10, 8, 0, 5], [10, 8, 0, 6]]"
proof -
  have "[1..<2 ^ 3 - 1] = [1, 2, 3, 4, 5, 6 :: nat]"
    by (simp add: upt_conv_Cons)
  moreover have "(0x0A080000 :: u32) AND NOT (mask 3) = 0x0A080000"
    by (simp add: mask_eq_exp_minus_1)
  ultimately show ?thesis
    using ipv4_subnet_addresses[of 3 "0x0A080000" "[10, 8, 0, 1]"]
    by (simp add: put32_def ip_equal_def)
qed

section \<open>The pool\<close>

record ippool =
  pool4 :: "ip list option"
  pool6 :: "ip list option"

definition subnet_allocate :: "ip list \<Rightarrow> ip option \<times> ip list" where
  "subnet_allocate avail = (case avail of [] \<Rightarrow> (None, []) | a # r \<Rightarrow> (Some a, r))"

definition subnet_release :: "ip \<Rightarrow> ip list \<Rightarrow> ip list" where
  "subnet_release a avail = avail @ [a]"

definition new_ip_pool :: "ip list \<Rightarrow> ippool" where
  "new_ip_pool avail = \<lparr>pool4 = Some avail, pool6 = None\<rparr>"

definition pool_allocate :: "ippool \<Rightarrow> ip option \<times> ippool" where
  "pool_allocate p =
     (case (case pool4 p of None \<Rightarrow> None | Some l \<Rightarrow> (case subnet_allocate l of
              (None, _) \<Rightarrow> None | (Some a, l') \<Rightarrow> Some (a, p\<lparr>pool4 := Some l'\<rparr>))) of
        Some (a, p') \<Rightarrow> (Some a, p')
      | None \<Rightarrow>
          (case pool6 p of None \<Rightarrow> (None, p) | Some l \<Rightarrow> (case subnet_allocate l of
             (None, _) \<Rightarrow> (None, p) | (Some a, l') \<Rightarrow> (Some a, p\<lparr>pool6 := Some l'\<rparr>))))"

definition pool_release :: "ip \<Rightarrow> ippool \<Rightarrow> ippool" where
  "pool_release a p =
     (if to4 a \<noteq> None
      then (case pool4 p of Some l \<Rightarrow> p\<lparr>pool4 := Some (subnet_release a l)\<rparr> | None \<Rightarrow> p)
      else (case pool6 p of Some l \<Rightarrow> p\<lparr>pool6 := Some (subnet_release a l)\<rparr> | None \<Rightarrow> p))"

definition pool_free :: "ippool \<Rightarrow> ip multiset" where
  "pool_free p = mset (case pool4 p of Some l \<Rightarrow> l | None \<Rightarrow> []) + mset (case pool6 p of Some l \<Rightarrow> l | None \<Rightarrow> [])"

text \<open>An address whose family the pool serves, so that releasing it is not a no-op.\<close>

definition pool_serves :: "ippool \<Rightarrow> ip \<Rightarrow> bool" where
  "pool_serves p a \<longleftrightarrow> (if to4 a \<noteq> None then pool4 p \<noteq> None else pool6 p \<noteq> None)"

definition wf_pool :: "ippool \<Rightarrow> bool" where
  "wf_pool p \<longleftrightarrow> (\<forall>l. pool4 p = Some l \<longrightarrow> (\<forall>a \<in> set l. to4 a \<noteq> None))
     \<and> (\<forall>l. pool6 p = Some l \<longrightarrow> (\<forall>a \<in> set l. to4 a = None))"

section \<open>The interface\<close>

locale address_pool =
  fixes allocate :: "'p \<Rightarrow> ip option \<times> 'p"
    and release :: "ip \<Rightarrow> 'p \<Rightarrow> 'p"
    and free :: "'p \<Rightarrow> ip multiset"
    and serves :: "'p \<Rightarrow> ip \<Rightarrow> bool"
    and ok :: "'p \<Rightarrow> bool"
  assumes allocate_Some:
      "ok p \<Longrightarrow> allocate p = (Some a, p') \<Longrightarrow> free p = add_mset a (free p') \<and> serves p' a \<and> ok p'"
    and allocate_None: "allocate p = (None, p') \<Longrightarrow> free p = {#} \<and> p' = p"
    and release_free: "serves p a \<Longrightarrow> free (release a p) = add_mset a (free p)"
    and release_ok: "ok p \<Longrightarrow> serves p a \<Longrightarrow> ok (release a p)"
    and serves_allocate: "allocate p = (r, p') \<Longrightarrow> serves p' = serves p"
    and serves_release: "serves (release a p) = serves p"
begin

text \<open>A client that takes addresses and gives back ones it holds, in any order.\<close>

inductive lease :: "'p \<times> ip multiset \<Rightarrow> 'p \<times> ip multiset \<Rightarrow> bool" where
  take: "allocate p = (Some a, p') \<Longrightarrow> lease (p, held) (p', add_mset a held)"
| refuse: "allocate p = (None, p') \<Longrightarrow> lease (p, held) (p', held)"
| give: "a \<in># held \<Longrightarrow> lease (p, held) (release a p, held - {#a#})"

definition lease_inv :: "ip multiset \<Rightarrow> 'p \<times> ip multiset \<Rightarrow> bool" where
  "lease_inv all s \<longleftrightarrow>
     free (fst s) + snd s = all \<and> (\<forall>a \<in># snd s. serves (fst s) a) \<and> ok (fst s)"

lemma lease_step_inv: "lease s t \<Longrightarrow> lease_inv all s \<Longrightarrow> lease_inv all t"
proof (induction rule: lease.induct)
  case (take p a p' held)
  then have "free p = add_mset a (free p')" "serves p' a" "ok p'" "serves p' = serves p"
    using allocate_Some serves_allocate by (auto simp: lease_inv_def)
  with take show ?case by (auto simp: lease_inv_def)
next
  case (refuse p p' held)
  then show ?case using allocate_None by (auto simp: lease_inv_def)
next
  case (give a held p)
  then show ?case
    using release_free[of p a] release_ok[of p a] serves_release[of a p]
    by (auto simp: lease_inv_def dest: in_diffD)
qed

lemma lease_run_inv: "lease\<^sup>*\<^sup>* s t \<Longrightarrow> lease_inv all s \<Longrightarrow> lease_inv all t"
  by (induction rule: rtranclp_induct) (auto intro: lease_step_inv)

lemma lease_conserves:
  "lease\<^sup>*\<^sup>* (p, {#}) (q, held) \<Longrightarrow> ok p \<Longrightarrow> free q + held = free p"
  using lease_run_inv[of "(p, {#})" "(q, held)" "free p"] by (simp add: lease_inv_def)

text \<open>If every address is in the pool once, none is held twice, and none held is free.\<close>

lemma lease_inv_distinct:
  assumes "lease_inv all s" and "\<forall>a. Multiset.count all a \<le> 1"
  shows "Multiset.count (snd s) a \<le> 1" "a \<in># snd s \<Longrightarrow> a \<notin># free (fst s)"
proof -
  have le: "Multiset.count (free (fst s)) a + Multiset.count (snd s) a \<le> 1"
    using assms by (metis count_union lease_inv_def)
  then show "Multiset.count (snd s) a \<le> 1" by linarith
  assume "a \<in># snd s"
  then have "Multiset.count (snd s) a \<noteq> 0" by simp
  with le have "Multiset.count (free (fst s)) a = 0" by linarith
  then show "a \<notin># free (fst s)" by (simp add: not_in_iff)
qed

end

lemma pool_free_upd [simp]:
  "pool_free (p\<lparr>pool4 := Some l\<rparr>) = mset l + mset (case pool6 p of Some l \<Rightarrow> l | None \<Rightarrow> [])"
  "pool_free (p\<lparr>pool6 := Some l\<rparr>) = mset (case pool4 p of Some l \<Rightarrow> l | None \<Rightarrow> []) + mset l"
  by (simp_all add: pool_free_def)

interpretation tunnel_pool: address_pool pool_allocate pool_release pool_free pool_serves wf_pool
proof unfold_locales
  fix p p' :: ippool and a
  show "wf_pool p \<Longrightarrow> pool_allocate p = (Some a, p') \<Longrightarrow>
      pool_free p = add_mset a (pool_free p') \<and> pool_serves p' a \<and> wf_pool p'"
    by (auto simp: pool_allocate_def subnet_allocate_def pool_free_def pool_serves_def wf_pool_def
        split: option.splits list.splits)
  show "pool_allocate p = (None, p') \<Longrightarrow> pool_free p = {#} \<and> p' = p"
    by (auto simp: pool_allocate_def subnet_allocate_def pool_free_def
        split: option.splits list.splits)
  show "pool_serves p a \<Longrightarrow> pool_free (pool_release a p) = add_mset a (pool_free p)"
    by (auto simp: pool_release_def subnet_release_def pool_serves_def pool_free_def split: option.splits if_splits)
  show "wf_pool p \<Longrightarrow> pool_serves p a \<Longrightarrow> wf_pool (pool_release a p)"
    by (auto simp: pool_release_def subnet_release_def pool_serves_def wf_pool_def split: option.splits if_splits)
  show "pool_serves (pool_release a p) = pool_serves p"
    by (auto simp: pool_release_def pool_serves_def fun_eq_iff split: option.splits)
next
  fix p p' :: ippool and r
  show "pool_allocate p = (r, p') \<Longrightarrow> pool_serves p' = pool_serves p"
    by (auto simp: pool_allocate_def subnet_allocate_def pool_serves_def fun_eq_iff
        split: option.splits list.splits)
qed

section \<open>Properties of the pool\<close>

text \<open>No address is leased twice: in any sequence of allocations and releases from a pool that
  lists its addresses once, free and held addresses together stay exactly the pool's addresses,
  no address is held twice and none is both held and free.\<close>

theorem pool_leases_disjoint:
  assumes "distinct l" and "\<forall>a \<in> set l. to4 a \<noteq> None"
    and "tunnel_pool.lease\<^sup>*\<^sup>* (new_ip_pool l, {#}) (p, held)"
  shows "pool_free p + held = mset l \<and> (\<forall>a. count held a \<le> 1) \<and> set_mset held \<inter> set_mset (pool_free p) = {}"
proof -
  have inv: "tunnel_pool.lease_inv (mset l) (new_ip_pool l, {#})"
    using assms(2) by (simp add: tunnel_pool.lease_inv_def new_ip_pool_def pool_free_def wf_pool_def)
  have one: "\<forall>a. count (mset l) a \<le> 1"
    using assms(1) by (simp add: distinct_count_atmost_1)
  have "tunnel_pool.lease_inv (mset l) (p, held)"
    by (rule tunnel_pool.lease_run_inv[OF assms(3) inv])
  then show ?thesis
    using tunnel_pool.lease_inv_distinct[OF _ one, of "(p, held)"]
    by (auto simp: tunnel_pool.lease_inv_def)
qed

lemma sample_allocate:
  "pool_allocate (new_ip_pool [[10, 8, 0, 2], [10, 8, 0, 3]]) = (Some [10, 8, 0, 2], new_ip_pool [[10, 8, 0, 3]])"
  by (simp add: pool_allocate_def new_ip_pool_def subnet_allocate_def)

theorem pool_leases_disjoint_witness:
  "pool_free (new_ip_pool [[10, 8, 0, 3]]) + {#[10, 8, 0, 2]#} = {#[10, 8, 0, 2], [10, 8, 0, 3]#}"
  using pool_leases_disjoint[of "[[10, 8, 0, 2], [10, 8, 0, 3]]" "new_ip_pool [[10, 8, 0, 3]]" "{#[10, 8, 0, 2]#}"]
    tunnel_pool.lease.take[OF sample_allocate, of "{#}"]
  by (simp add: r_into_rtranclp)

end
