(* ===== verification/Session.thy ===== *)
theory Session
  imports IpPool
begin

text \<open>
  The session table of \<open>master/session\<close>. Sessions are shared objects (the serve loops keep
  pointers to them), so they live in a heap and the table's three maps hold their addresses.
  The removal hook \<open>OnRemove\<close> is an argument acting on the rest of the master's state.
\<close>

section \<open>State\<close>

type_synonym time = int

definition second :: time where "second = 1000000000"

definition session_timeout :: time where "session_timeout = 3 * 60 * second"

record session =
  s_id :: bytes
  s_client :: udpaddr
  s_tun :: ip
  s_key :: bytes
  s_last :: time
  s_slave :: string
  s_conn :: "nat option"

type_synonym sptr = nat

record 'w sessions =
  heap :: "session list"
  by_id :: "(bytes \<times> sptr) list"
  by_tun :: "(string \<times> sptr) list"
  by_client :: "(string \<times> sptr) list"
  world :: 'w

section \<open>Operations\<close>

definition new_table :: "'w \<Rightarrow> 'w sessions" where
  "new_table w = \<lparr>heap = [], by_id = [], by_tun = [], by_client = [], world = w\<rparr>"

text \<open>Allocating the \<open>Session\<close> struct: its pointer is the next heap address.\<close>

definition alloc_session :: "session \<Rightarrow> 'w sessions \<Rightarrow> sptr \<times> 'w sessions" where
  "alloc_session s t = (length (heap t), t\<lparr>heap := heap t @ [s]\<rparr>)"

definition touch :: "time \<Rightarrow> sptr \<Rightarrow> 'w sessions \<Rightarrow> 'w sessions" where
  "touch now p t = t\<lparr>heap := (heap t)[p := (heap t ! p)\<lparr>s_last := now\<rparr>]\<rparr>"

definition slave_of :: "sptr \<Rightarrow> 'w sessions \<Rightarrow> string" where
  "slave_of p t = s_slave (heap t ! p)"

definition set_slave :: "string \<Rightarrow> sptr \<Rightarrow> 'w sessions \<Rightarrow> 'w sessions" where
  "set_slave i p t = t\<lparr>heap := (heap t)[p := (heap t ! p)\<lparr>s_slave := i\<rparr>]\<rparr>"

definition expired :: "time \<Rightarrow> session \<Rightarrow> bool" where
  "expired now s \<longleftrightarrow> now - s_last s > session_timeout"

definition table_add :: "sptr \<Rightarrow> 'w sessions \<Rightarrow> 'w sessions" where
  "table_add p t = (let s = heap t ! p in
     t\<lparr>by_id := aput (s_id s) p (by_id t),
       by_tun := aput (ip_string (s_tun s)) p (by_tun t),
       by_client := aput (udp_string (s_client s)) p (by_client t)\<rparr>)"

text \<open>The hook sees the table after the removal, as the closure in the master does.\<close>

definition table_remove :: "(session \<Rightarrow> 'w sessions \<Rightarrow> 'w) \<Rightarrow> bytes \<Rightarrow> 'w sessions \<Rightarrow> 'w sessions" where
  "table_remove hook i t =
     (case map_of (by_id t) i of
        None \<Rightarrow> t
      | Some p \<Rightarrow> (let s = heap t ! p;
            t' = t\<lparr>by_id := adel i (by_id t),
                   by_tun := adel (ip_string (s_tun s)) (by_tun t),
                   by_client := adel (udp_string (s_client s)) (by_client t)\<rparr>
          in t'\<lparr>world := hook s t'\<rparr>))"

definition find_client :: "string \<Rightarrow> 'w sessions \<Rightarrow> sptr option" where
  "find_client a t = map_of (by_client t) a"

definition find_tun :: "string \<Rightarrow> 'w sessions \<Rightarrow> sptr option" where
  "find_tun a t = map_of (by_tun t) a"

text \<open>
  \<open>All\<close> ranges over a Go map, in an order Go does not fix: \<open>is_all\<close> says which lists of
  pointers it may return, \<open>table_all\<close> is one of them.
\<close>

definition table_all :: "'w sessions \<Rightarrow> sptr list" where
  "table_all t = map snd (by_id t)"

definition is_all :: "sptr list \<Rightarrow> 'w sessions \<Rightarrow> bool" where
  "is_all ps t \<longleftrightarrow> mset ps = mset (table_all t)"

fun count_slaves :: "'w sessions \<Rightarrow> sptr list \<Rightarrow> (string \<times> nat) list \<Rightarrow> (string \<times> nat) list" where
  "count_slaves t [] m = m"
| "count_slaves t (p # ps) m =
     (let i = slave_of p t; n = (case map_of m i of Some n \<Rightarrow> n | None \<Rightarrow> 0)
      in count_slaves t ps (aput i (n + 1) m))"

definition count_by_slave :: "'w sessions \<Rightarrow> (string \<times> nat) list" where
  "count_by_slave t = count_slaves t (table_all t) []"

definition table_len :: "'w sessions \<Rightarrow> nat" where
  "table_len t = length (by_id t)"

text \<open>One tick of the reaper over the snapshot \<open>ps\<close>.\<close>

fun reap :: "(session \<Rightarrow> 'w sessions \<Rightarrow> 'w) \<Rightarrow> time \<Rightarrow> sptr list \<Rightarrow> 'w sessions \<Rightarrow> 'w sessions" where
  "reap hook now [] t = t"
| "reap hook now (p # ps) t =
     reap hook now ps
       (if expired now (heap t ! p) then table_remove hook (s_id (heap t ! p)) t else t)"

section \<open>The table's invariant\<close>

definition live :: "'w sessions \<Rightarrow> sptr \<Rightarrow> bool" where
  "live t p \<longleftrightarrow> p < length (heap t) \<and> map_of (by_id t) (s_id (heap t ! p)) = Some p"

definition table_inv :: "'w sessions \<Rightarrow> bool" where
  "table_inv t \<longleftrightarrow>
     distinct (map fst (by_id t)) \<and> distinct (map fst (by_tun t)) \<and> distinct (map fst (by_client t))
   \<and> (\<forall>i p. map_of (by_id t) i = Some p \<longrightarrow> p < length (heap t) \<and> s_id (heap t ! p) = i)
   \<and> (\<forall>a p. map_of (by_tun t) a = Some p \<longrightarrow> live t p \<and> ip_string (s_tun (heap t ! p)) = a)
   \<and> (\<forall>a p. map_of (by_client t) a = Some p \<longrightarrow> live t p \<and> udp_string (s_client (heap t ! p)) = a)"

text \<open>Two heaps whose objects differ at most in \<open>LastSeen\<close> and \<open>SlaveID\<close>.\<close>

definition same_identity :: "session list \<Rightarrow> session list \<Rightarrow> bool" where
  "same_identity h h' \<longleftrightarrow> length h' = length h \<and> (\<forall>p < length h.
     s_id (h' ! p) = s_id (h ! p) \<and> s_client (h' ! p) = s_client (h ! p) \<and> s_tun (h' ! p) = s_tun (h ! p)
   \<and> s_key (h' ! p) = s_key (h ! p) \<and> s_conn (h' ! p) = s_conn (h ! p))"

lemma same_identity_touch: "same_identity (heap t) (heap (touch now p t))"
  by (cases "p < length (heap t)")
     (auto simp: same_identity_def touch_def nth_list_update list_update_beyond)

lemma same_identity_set_slave: "same_identity (heap t) (heap (set_slave i p t))"
  by (cases "p < length (heap t)")
     (auto simp: same_identity_def set_slave_def nth_list_update list_update_beyond)

lemma table_inv_new: "table_inv (new_table w)"
  by (simp add: table_inv_def new_table_def)

lemma table_inv_heap:
  assumes "table_inv t" and "same_identity (heap t) h"
  shows "table_inv (t\<lparr>heap := h\<rparr>)"
  using assms unfolding table_inv_def same_identity_def live_def by simp

lemma touch_heap: "touch now p t = t\<lparr>heap := heap (touch now p t)\<rparr>"
  by (simp add: touch_def)

lemma set_slave_heap: "set_slave i p t = t\<lparr>heap := heap (set_slave i p t)\<rparr>"
  by (simp add: set_slave_def)

lemma table_inv_touch: "table_inv t \<Longrightarrow> table_inv (touch now p t)"
  by (subst touch_heap) (intro table_inv_heap same_identity_touch)

lemma table_inv_set_slave: "table_inv t \<Longrightarrow> table_inv (set_slave i p t)"
  by (subst set_slave_heap) (intro table_inv_heap same_identity_set_slave)

lemma table_inv_alloc:
  assumes "table_inv t"
  shows "table_inv (snd (alloc_session s t))"
  using assms unfolding table_inv_def live_def alloc_session_def
  by (auto simp: nth_append intro: less_SucI)

lemma table_inv_add:
  assumes inv: "table_inv t" and p: "p < length (heap t)"
    and fresh: "map_of (by_id t) (s_id (heap t ! p)) = None"
  shows "table_inv (table_add p t)"
proof -
  have "live (table_add p t) q" if "live t q" for q
    using that fresh by (auto simp: live_def table_add_def Let_def)
  moreover have "live (table_add p t) p"
    using p by (simp add: live_def table_add_def Let_def)
  ultimately show ?thesis
    using inv p unfolding table_inv_def
    by (simp add: table_add_def Let_def del: map_of_eq_None_iff split: if_splits)
qed

lemma by_id_inv:
  assumes "table_inv t" and "map_of (by_id t) i = Some p"
  shows "live t p \<and> s_id (heap t ! p) = i"
proof -
  have "p < length (heap t) \<and> s_id (heap t ! p) = i"
    using assms unfolding table_inv_def by blast
  with assms(2) show ?thesis by (simp add: live_def)
qed

lemma table_inv_tun:
  "table_inv t \<Longrightarrow> \<forall>a p. map_of (by_tun t) a = Some p \<longrightarrow> live t p \<and> ip_string (s_tun (heap t ! p)) = a"
  unfolding table_inv_def by (elim conjE)

lemma table_inv_client:
  "table_inv t \<Longrightarrow> \<forall>a p. map_of (by_client t) a = Some p \<longrightarrow> live t p \<and> udp_string (s_client (heap t ! p)) = a"
  unfolding table_inv_def by (elim conjE)

lemma find_client_sound:
  "table_inv t \<Longrightarrow> find_client a t = Some p \<Longrightarrow> live t p \<and> udp_string (s_client (heap t ! p)) = a"
  unfolding find_client_def by (rule table_inv_client[THEN spec, THEN spec, THEN mp])

lemma find_tun_sound:
  "table_inv t \<Longrightarrow> find_tun a t = Some p \<Longrightarrow> live t p \<and> ip_string (s_tun (heap t ! p)) = a"
  unfolding find_tun_def by (rule table_inv_tun[THEN spec, THEN spec, THEN mp])

lemma live_inj: "live t p \<Longrightarrow> live t q \<Longrightarrow> s_id (heap t ! p) = s_id (heap t ! q) \<Longrightarrow> p = q"
  unfolding live_def by (metis option.inject)

lemma remove_heap [simp]: "heap (table_remove hook i t) = heap t"
  by (simp add: table_remove_def Let_def split: option.split)

lemma reap_heap [simp]: "heap (reap hook now ps t) = heap t"
  by (induction hook now ps t rule: reap.induct) simp_all

lemma remove_by_id: "map_of (by_id (table_remove hook i t)) = (map_of (by_id t))(i := None)"
  by (cases "map_of (by_id t) i") (auto simp: table_remove_def Let_def fun_eq_iff)

lemma remove_live: "live (table_remove hook i t) q \<longleftrightarrow> live t q \<and> s_id (heap t ! q) \<noteq> i"
  by (auto simp: live_def remove_by_id)

lemma table_inv_remove:
  assumes inv: "table_inv t"
  shows "table_inv (table_remove hook i t)"
proof (cases "map_of (by_id t) i")
  case None
  with inv show ?thesis by (simp add: table_remove_def)
next
  case (Some p)
  let ?t = "table_remove hook i t"
  have tun: "map_of (by_tun ?t) = (map_of (by_tun t))(ip_string (s_tun (heap t ! p)) := None)"
    and cl: "map_of (by_client ?t) = (map_of (by_client t))(udp_string (s_client (heap t ! p)) := None)"
    and dist: "distinct (map fst (by_id ?t))" "distinct (map fst (by_tun ?t))" "distinct (map fst (by_client ?t))"
    using Some inv by (simp_all add: table_remove_def Let_def table_inv_def)
  have p: "live t p" "s_id (heap t ! p) = i"
    using by_id_inv[OF inv Some] by simp_all
  have only: "s_id (heap t ! q) = i \<Longrightarrow> live t q \<Longrightarrow> q = p" for q
    using live_inj p by metis
  have "live ?t q \<and> ip_string (s_tun (heap t ! q)) = a" if "map_of (by_tun ?t) a = Some q" for a q
    using that find_tun_sound[OF inv, of a q] only[of q]
    by (auto simp: tun remove_live find_tun_def split: if_splits)
  moreover have "live ?t q \<and> udp_string (s_client (heap t ! q)) = a" if "map_of (by_client ?t) a = Some q" for a q
    using that find_client_sound[OF inv, of a q] only[of q]
    by (auto simp: cl remove_live find_client_def split: if_splits)
  moreover have "q < length (heap t) \<and> s_id (heap t ! q) = j" if "map_of (by_id ?t) j = Some q" for j q
    using that by_id_inv[OF inv, of j q] by (auto simp: remove_by_id live_def split: if_splits)
  ultimately show ?thesis
    using dist unfolding table_inv_def remove_heap by blast
qed

lemma table_inv_reap: "table_inv t \<Longrightarrow> table_inv (reap hook now ps t)"
  by (induction hook now ps t rule: reap.induct) (simp_all add: table_inv_remove)

section \<open>What the operations promise\<close>

text \<open>A pointer that a lookup returns is a live session with the key asked for.\<close>

lemma live_in_all:
  assumes "table_inv t"
  shows "live t p \<longleftrightarrow> p \<in> set (table_all t)"
proof
  assume "live t p"
  then show "p \<in> set (table_all t)"
    unfolding live_def table_all_def by (metis list.set_map map_of_SomeD rev_image_eqI snd_conv)
next
  assume "p \<in> set (table_all t)"
  then obtain i where "(i, p) \<in> set (by_id t)"
    by (auto simp: table_all_def)
  then have "map_of (by_id t) i = Some p"
    using assms by (simp add: table_inv_def)
  then show "live t p"
    using by_id_inv[OF assms] by blast
qed

lemma distinct_table_all:
  assumes "table_inv t"
  shows "distinct (table_all t)"
proof -
  have "inj_on snd (set (by_id t))"
  proof (rule inj_onI)
    fix x y assume "x \<in> set (by_id t)" "y \<in> set (by_id t)" "snd x = snd y"
    with assms show "x = y"
      unfolding table_inv_def by (metis Some_eq_map_of_iff prod.collapse)
  qed
  moreover have "distinct (by_id t)"
    using assms by (simp add: table_inv_def distinct_map)
  ultimately show ?thesis
    by (simp add: table_all_def distinct_map)
qed

text \<open>PROP remove_forgets: after \<open>Remove\<close>, no lookup returns the session.\<close>

lemma removed_not_found:
  assumes "table_inv t" and "live t p"
  shows "find_client a (table_remove hook (s_id (heap t ! p)) t) \<noteq> Some p"
    and "find_tun a (table_remove hook (s_id (heap t ! p)) t) \<noteq> Some p"
  using find_client_sound[OF table_inv_remove[OF assms(1)]] find_tun_sound[OF table_inv_remove[OF assms(1)]]
    remove_live by metis+

lemma reap_live:
  assumes "table_inv t"
  shows "live (reap hook now ps t) q \<longleftrightarrow>
    live t q \<and> \<not> (\<exists>p \<in> set ps. expired now (heap t ! p) \<and> s_id (heap t ! p) = s_id (heap t ! q))"
  using assms
proof (induction ps arbitrary: t)
  case (Cons p ps)
  show ?case
  proof (cases "expired now (heap t ! p)")
    case True
    with Cons.IH[OF table_inv_remove[OF Cons.prems]] show ?thesis
      by (auto simp: remove_live)
  next
    case False
    with Cons show ?thesis by auto
  qed
qed simp

text \<open>PROP a tick removes exactly the sessions idle for more than three minutes.\<close>

lemma reap_exact:
  assumes "table_inv t" and "is_all ps t"
  shows "live (reap hook now ps t) q \<longleftrightarrow> live t q \<and> \<not> expired now (heap t ! q)"
proof -
  have ps: "p \<in> set ps \<longleftrightarrow> live t p" for p
    using assms(2) live_in_all[OF assms(1)] unfolding is_all_def by (metis set_mset_mset)
  show ?thesis
    unfolding reap_live[OF assms(1)] using ps live_inj by metis
qed

text \<open>
  The hook runs once for each session removed, on what it held: for any part \<open>g\<close> of the state
  that the hook changes by a function \<open>h\<close> of the session.
\<close>

lemma reap_world:
  assumes g: "\<And>s t. g (hook s t) = h s (g (world t))"
    and "table_inv t" and "distinct ps" and "\<forall>p \<in> set ps. live t p"
  shows "g (world (reap hook now ps t)) =
    fold (\<lambda>p. h (heap t ! p)) (filter (\<lambda>p. expired now (heap t ! p)) ps) (g (world t))"
  using assms(2-)
proof (induction ps arbitrary: t)
  case (Cons p ps)
  show ?case
  proof (cases "expired now (heap t ! p)")
    case True
    have "q \<in> set ps \<Longrightarrow> s_id (heap t ! q) \<noteq> s_id (heap t ! p)" for q
      using Cons.prems(2,3) live_inj[of t q p] by auto
    then have "\<forall>q \<in> set ps. live (table_remove hook (s_id (heap t ! p)) t) q"
      using Cons.prems by (simp add: remove_live)
    moreover have "g (world (table_remove hook (s_id (heap t ! p)) t)) = h (heap t ! p) (g (world t))"
      using Cons.prems by (simp add: table_remove_def live_def Let_def g)
    ultimately show ?thesis
      using Cons.IH[OF table_inv_remove[OF Cons.prems(1)]] Cons.prems(2) True by simp
  next
    case False
    with Cons show ?thesis by simp
  qed
qed simp

section \<open>Counting by slave\<close>

definition count_of :: "(string \<times> nat) list \<Rightarrow> string \<Rightarrow> nat" where
  "count_of m i = (case map_of m i of Some n \<Rightarrow> n | None \<Rightarrow> 0)"

lemma count_slaves_of:
  "count_of (count_slaves t ps m) i = count_of m i + length (filter (\<lambda>p. slave_of p t = i) ps)"
  by (induction t ps m rule: count_slaves.induct)
     (auto simp: count_of_def Let_def split: option.splits)

lemma sum_filter_length:
  "finite A \<Longrightarrow> f ` set xs \<subseteq> A \<Longrightarrow> (\<Sum>i\<in>A. length (filter (\<lambda>x. f x = i) xs)) = length xs"
proof (induction xs)
  case (Cons x xs)
  have "(\<Sum>i\<in>A. length (filter (\<lambda>y. f y = i) (x # xs)))
      = (\<Sum>i\<in>A. (if f x = i then 1 else 0) + length (filter (\<lambda>y. f y = i) xs))"
    by (intro sum.cong) auto
  also have "\<dots> = Suc (length xs)"
    using Cons by (simp add: sum.distrib)
  finally show ?case by simp
qed simp

lemma count_by_slave_of:
  "count_of (count_by_slave t) i = length (filter (\<lambda>p. slave_of p t = i) (table_all t))"
  by (simp add: count_by_slave_def count_slaves_of) (simp add: count_of_def)

lemma count_by_slave_total:
  "finite A \<Longrightarrow> (\<lambda>p. slave_of p t) ` set (table_all t) \<subseteq> A \<Longrightarrow>
    (\<Sum>i\<in>A. count_of (count_by_slave t) i) = table_len t"
  using sum_filter_length[of A "\<lambda>p. slave_of p t" "table_all t"]
  by (simp add: count_by_slave_of table_len_def table_all_def)

section \<open>Properties\<close>

definition sample_session :: "time \<Rightarrow> session" where
  "sample_session t = \<lparr>s_id = replicate 16 1, s_client = \<lparr>uip = [192, 0, 2, 1], uport = 5000\<rparr>,
     s_tun = [10, 8, 0, 2], s_key = [], s_last = t, s_slave = ''a'', s_conn = None\<rparr>"

definition sample_table :: "time \<Rightarrow> unit sessions" where
  "sample_table t = table_add 0 (snd (alloc_session (sample_session t) (new_table ())))"

lemma sample_table_inv: "table_inv (sample_table t)"
  unfolding sample_table_def
  by (rule table_inv_add[OF table_inv_alloc[OF table_inv_new]])
     (simp_all add: alloc_session_def new_table_def)

lemma sample_table_live: "live (sample_table t) p \<longleftrightarrow> p = 0"
  by (cases p) (auto simp: sample_table_def live_def table_add_def alloc_session_def new_table_def Let_def sample_session_def)

lemma sample_table_heap: "heap (sample_table t) = [sample_session t]"
  by (simp add: sample_table_def table_add_def alloc_session_def new_table_def Let_def)

text \<open>C24. The reaper removes exactly the sessions idle for more than three minutes: after a tick over
  any iteration order of the table, the sessions left are the ones that were live and have been
  seen within the timeout, and the table's maps are consistent.\<close>

theorem reaper_exact:
  assumes "table_inv t" and "is_all ps t"
  shows "(live (reap hook now ps t) q \<longleftrightarrow> live t q \<and> now - s_last (heap t ! q) \<le> session_timeout)
    \<and> table_inv (reap hook now ps t)"
  using reap_exact[OF assms] table_inv_reap[OF assms(1)] by (auto simp: expired_def)

theorem reaper_exact_witness:
  "live (reap (\<lambda>_ _. ()) (181 * second) [0] (sample_table second)) 0
   \<and> \<not> live (reap (\<lambda>_ _. ()) (181 * second) [0] (sample_table 0)) 0"
proof -
  have all: "is_all [0] (sample_table t)" for t
    by (simp add: is_all_def table_all_def sample_table_def table_add_def alloc_session_def new_table_def Let_def)
  show ?thesis
    using reaper_exact[OF sample_table_inv all, of _ "181 * second" "second" 0]
      reaper_exact[OF sample_table_inv all, of _ "181 * second" 0 0]
    by (simp add: sample_table_live sample_table_heap sample_session_def session_timeout_def second_def)
qed

text \<open>A removed session is gone: after \<open>Remove\<close> no lookup by client address or by tunnel address
  returns it, every other live session stays live, and whatever a lookup does return is a live
  session with the address asked for.\<close>

theorem removed_session_unreachable:
  assumes "table_inv t" and "live t p" and "t' = table_remove hook (s_id (heap t ! p)) t"
  shows "find_client a t' \<noteq> Some p \<and> find_tun a t' \<noteq> Some p
    \<and> (live t' q \<longleftrightarrow> live t q \<and> q \<noteq> p)
    \<and> (find_tun a t' = Some q \<longrightarrow> live t' q \<and> ip_string (s_tun (heap t' ! q)) = a)"
proof -
  have "live t' q \<longleftrightarrow> live t q \<and> q \<noteq> p"
    unfolding assms(3) remove_live using live_inj[OF assms(2), of q] by metis
  moreover have "find_tun a t' = Some q \<longrightarrow> live t' q \<and> ip_string (s_tun (heap t' ! q)) = a"
    unfolding assms(3) using find_tun_sound[OF table_inv_remove[OF assms(1)]] by blast
  ultimately show ?thesis
    using removed_not_found[OF assms(1,2)] unfolding assms(3) by blast
qed

theorem removed_session_unreachable_witness:
  "find_tun ''10.8.0.2'' (table_remove (\<lambda>_ _. ()) (replicate 16 1) (sample_table 0)) \<noteq> Some 0"
  using removed_session_unreachable[OF sample_table_inv _ refl, of 0 0 "''10.8.0.2''" "\<lambda>_ _. ()"]
  by (simp add: sample_table_live sample_table_heap sample_session_def)

text \<open>Counting by slave: the number \<open>CountBySlave\<close> gives a slave is the number of sessions pinned to
  it, and the counts over the slaves in use add up to \<open>Len\<close>.\<close>

theorem sessions_counted_by_slave:
  assumes "finite A" and "\<forall>p \<in> set (table_all t). slave_of p t \<in> A"
  shows "count_of (count_by_slave t) i = length (filter (\<lambda>p. slave_of p t = i) (table_all t))
    \<and> (\<Sum>i\<in>A. count_of (count_by_slave t) i) = table_len t"
  using count_by_slave_total[of A t] assms by (auto simp: count_by_slave_of)

theorem sessions_counted_by_slave_witness:
  "count_of (count_by_slave (sample_table 0)) ''a'' = 1"
  using sessions_counted_by_slave[of "{''a''}" "sample_table 0" "''a''"]
  by (simp add: sample_table_def table_all_def table_add_def alloc_session_def new_table_def Let_def
      slave_of_def sample_session_def)

end
