(* ===== verification/Replay.thy ===== *)
theory Replay
  imports Prelude
begin

text \<open>
  The freshness checks of \<open>master/main.go\<close> on a hello: the clock-skew window on 64-bit
  integers and the cache of nonces already seen. The \<open>freshness_guard\<close> locale states what
  the handshake needs from the cache; its lemma is that a run over a clock that does not go
  back accepts a nonce at most once per retention period.
\<close>

section \<open>The clock-skew window\<close>

definition hello_window :: u64 where "hello_window = 60"

definition hello_in_window :: "u64 \<Rightarrow> u64 \<Rightarrow> bool" where
  "hello_in_window now ts =
     (let skew = now - ts; skew' = (if skew <s 0 then - skew else skew)
      in \<not> (hello_window <s skew'))"

lemma unat64_less: "unat (w :: u64) < 2 ^ 64"
  using unsigned_less[of w] by simp

lemma sint64: "sint (w :: u64) = (if unat w < 2 ^ 63 then int (unat w) else int (unat w) - 2 ^ 64)"
proof -
  have "int (unat w) < 2 ^ 64"
    using unat64_less[of w] by (simp del: of_nat_unat)
  then have b: "0 \<le> uint w" "uint w < 2 ^ 64"
    by simp_all
  have "bit (uint w) 63 \<longleftrightarrow> 2 ^ 63 \<le> uint w"
  proof (cases "2 ^ 63 \<le> uint w")
    case True
    with b have "uint w div 2 ^ 63 = 1" by simp
    with True show ?thesis by (simp add: bit_iff_odd)
  next
    case False
    with b show ?thesis by (simp add: bit_iff_odd)
  qed
  moreover have "sint w = signed_take_bit 63 (uint w)"
    by (simp add: sint_uint)
  moreover have "unat w < 2 ^ 63 \<longleftrightarrow> int (unat w) < int (2 ^ 63)"
    by (simp only: of_nat_less_iff)
  ultimately show ?thesis
    using b by (auto simp: signed_take_bit_eq_take_bit_minus take_bit_eq_mod)
qed

lemma unat_uminus64: "unat (- w :: u64) = (if w = 0 then 0 else 2 ^ 64 - unat w)"
  using unat_sub_if'[of 0 w] by (auto simp: unat_eq_0)

lemma skew_small:
  "(let d' = (if d <s 0 then - d else d) in \<not> ((60 :: u64) <s d'))
     \<longleftrightarrow> unat d \<le> 60 \<or> unat (- d) \<le> 60 \<or> unat d = 2 ^ 63"
proof (cases "d = 0")
  case False
  then have "0 < unat d" by (simp add: unat_gt_0)
  with False unat64_less[of d] show ?thesis
    by (auto simp: Let_def word_sless_alt sint64 unat_uminus64 simp del: of_nat_unat split: if_splits)
qed (simp add: word_sless_alt)

text \<open>
  The window is the sixty seconds on either side, and, since \<open>-skew\<close> overflows there, the one
  timestamp \<open>2^63\<close> seconds away.
\<close>

lemma hello_in_window_iff:
  "hello_in_window now ts \<longleftrightarrow>
     unat (now - ts) \<le> 60 \<or> unat (ts - now) \<le> 60 \<or> ts = now + 2 ^ 63"
proof -
  have "unat (now - ts) = 2 ^ 63 \<longleftrightarrow> ts = now + 2 ^ 63"
  proof -
    have "unat (now - ts) = 2 ^ 63 \<longleftrightarrow> now - ts = 2 ^ 63"
      by (simp add: word_unat_eq_iff)
    also have "\<dots> \<longleftrightarrow> ts = now - 2 ^ 63"
      by (auto simp: algebra_simps)
    also have "now - 2 ^ 63 = now + 2 ^ 63"
    proof -
      have "(2 ^ 63 :: u64) + 2 ^ 63 = 0" by simp
      then have "now + 2 ^ 63 + 2 ^ 63 = now"
        by (simp only: add.assoc add_0_right)
      then show ?thesis
        by (simp only: diff_eq_eq)
    qed
    finally show ?thesis .
  qed
  then show ?thesis
    using skew_small[of "now - ts"] by (simp add: hello_in_window_def hello_window_def Let_def)
qed

section \<open>The nonce cache\<close>

type_synonym replay_cache = "(bytes \<times> int) list"

definition retention :: int where "retention = 2 * 60"

definition check_and_add :: "bytes \<Rightarrow> int \<Rightarrow> replay_cache \<Rightarrow> bool \<times> replay_cache" where
  "check_and_add nonce now seen =
     (let cutoff = now - retention;
          swept = filter (\<lambda>(_, ts). \<not> ts < cutoff) seen
      in if map_of swept nonce \<noteq> None then (False, swept) else (True, aput nonce now swept))"

definition cache_inv :: "replay_cache \<Rightarrow> bool" where
  "cache_inv seen \<longleftrightarrow> distinct (map fst seen)"

definition remembers :: "replay_cache \<Rightarrow> bytes \<Rightarrow> int \<Rightarrow> bool" where
  "remembers seen n t \<longleftrightarrow> cache_inv seen \<and> map_of seen n = Some t"

lemma map_of_filter_snd:
  "distinct (map fst m) \<Longrightarrow> map_of (filter (\<lambda>(_, v). P v) m) k =
     (case map_of m k of Some v \<Rightarrow> if P v then Some v else None | None \<Rightarrow> None)"
proof (induction m)
  case (Cons x m)
  have "k = fst x \<Longrightarrow> map_of (filter (\<lambda>(_, v). P v) m) k = None"
    using Cons.prems by (auto simp: map_of_eq_None_iff)
  moreover from Cons have "k = fst x \<Longrightarrow> map_of m k = None"
    by (auto simp: map_of_eq_None_iff)
  ultimately show ?case using Cons by (cases x) auto
qed simp

lemma distinct_sweep: "distinct (map fst m) \<Longrightarrow> distinct (map fst (filter P m))"
  by (simp add: distinct_map_filter)

lemma check_and_add_inv: "cache_inv seen \<Longrightarrow> cache_inv (snd (check_and_add n now seen))"
  by (auto simp: check_and_add_def cache_inv_def Let_def distinct_sweep)

lemma check_and_add_accepts:
  "cache_inv seen \<Longrightarrow>
    fst (check_and_add n now seen) \<longleftrightarrow> (\<forall>t. map_of seen n = Some t \<longrightarrow> t < now - retention)"
  by (auto simp: check_and_add_def cache_inv_def Let_def map_of_filter_snd
      simp del: map_of_eq_Some_iff split: option.splits)

lemma check_and_add_bounded:
  "(m, t) \<in> set (snd (check_and_add n now seen)) \<Longrightarrow> now - retention \<le> t"
proof -
  have "set (aput k v xs) \<subseteq> insert (k, v) (set xs)" for k :: bytes and v :: int and xs
    by (induction k v xs rule: aput.induct) auto
  then show "(m, t) \<in> set (snd (check_and_add n now seen)) \<Longrightarrow> now - retention \<le> t"
    by (fastforce simp: check_and_add_def Let_def retention_def split: if_splits)
qed

section \<open>The interface\<close>

locale freshness_guard =
  fixes check :: "'n \<Rightarrow> int \<Rightarrow> 's \<Rightarrow> bool \<times> 's"
    and recalls :: "'s \<Rightarrow> 'n \<Rightarrow> int \<Rightarrow> bool"
    and ok :: "'s \<Rightarrow> bool"
    and period :: int
  assumes check_ok: "ok s \<Longrightarrow> ok (snd (check n now s))"
    and accepted_recalled: "ok s \<Longrightarrow> fst (check n now s) \<Longrightarrow> recalls (snd (check n now s)) n now"
    and still_recalled: "recalls s n t \<Longrightarrow> now \<le> t + period \<Longrightarrow> recalls (snd (check m now s)) n t"
    and recalled_refused: "recalls s n t \<Longrightarrow> now \<le> t + period \<Longrightarrow> \<not> fst (check n now s)"
begin

fun run :: "('n \<times> int) list \<Rightarrow> 's \<Rightarrow> bool list \<times> 's" where
  "run [] s = ([], s)"
| "run ((n, now) # es) s =
     (let (b, s') = check n now s; (bs, s'') = run es s' in (b # bs, s''))"

lemma length_run [simp]: "length (fst (run es s)) = length es"
  by (induction es s rule: run.induct) (auto simp: Let_def split: prod.splits)

lemma run_take: "fst (run (take p es) s) = take p (fst (run es s))"
proof (induction es arbitrary: p s)
  case (Cons e es)
  then show ?case
    by (cases p; cases e) (auto simp: Let_def split: prod.splits dest: arg_cong[where f = fst])
qed simp

lemma run_recalled:
  assumes "recalls s n t" and "\<forall>e \<in> set es. snd e \<le> t + period" and "j < length es" and "fst (es ! j) = n"
  shows "\<not> fst (run es s) ! j"
  using assms
proof (induction es arbitrary: s j)
  case (Cons e es)
  obtain m now where e: "e = (m, now)" by (cases e)
  obtain b s' where c: "check m now s = (b, s')" by (cases "check m now s")
  have keep: "recalls s' n t"
    using still_recalled[OF Cons.prems(1), of now m] Cons.prems(2) e c by simp
  have refuse: "m = n \<Longrightarrow> \<not> b"
    using recalled_refused[OF Cons.prems(1), of now] Cons.prems(2) e c by auto
  show ?case
  proof (cases j)
    case 0
    with Cons.prems(4) e c refuse show ?thesis by (auto split: prod.splits)
  next
    case (Suc k)
    then have "\<not> fst (run es s') ! k"
      using Cons.IH[OF keep] Cons.prems by simp
    with Suc e c show ?thesis by (auto split: prod.splits)
  qed
qed simp

lemma no_replay:
  assumes "ok s" and "sorted (map snd es)" and "i < j" and "j < length es"
    and "fst (es ! i) = fst (es ! j)" and "snd (es ! j) \<le> snd (es ! i) + period" and "fst (run es s) ! i"
  shows "\<not> fst (run es s) ! j"
  using assms
proof (induction es arbitrary: s i j)
  case (Cons e es)
  obtain m now where e: "e = (m, now)" by (cases e)
  obtain b s' where c: "check m now s = (b, s')" by (cases "check m now s")
  have ok': "ok s'"
    using check_ok[OF Cons.prems(1), of m now] c by simp
  obtain k where j: "j = Suc k" "k < length es"
    using Cons.prems(3,4) by (cases j) auto
  show ?case
  proof (cases i)
    case 0
    have b: b
      using Cons.prems(7) 0 e c by (auto split: prod.splits)
    have rec: "recalls s' m now"
      using accepted_recalled[OF Cons.prems(1), of m now] b c by simp
    let ?es = "take (Suc k) es"
    have "\<forall>x \<in> set ?es. snd x \<le> now + period"
    proof
      fix x assume "x \<in> set ?es"
      then obtain l where l: "l \<le> k" "x = es ! l"
        by (auto simp: in_set_conv_nth less_Suc_eq_le)
      have "snd (es ! l) \<le> snd (es ! k)"
        using Cons.prems(2) l(1) j(2) sorted_nth_mono[of "map snd es" l k] by simp
      then show "snd x \<le> now + period"
        using Cons.prems(6) 0 j e l(2) by simp
    qed
    moreover have "fst (?es ! k) = m" "k < length ?es"
      using Cons.prems(5) 0 j e by simp_all
    ultimately have "\<not> fst (run ?es s') ! k"
      by (intro run_recalled[OF rec]) simp_all
    then have "\<not> fst (run es s') ! k"
      by (simp add: run_take)
    with j e c show ?thesis by (auto split: prod.splits)
  next
    case (Suc l)
    have "\<not> fst (run es s') ! k"
      using Cons.IH[OF ok', of l k] Cons.prems Suc j e c by (auto split: prod.splits)
    with j e c show ?thesis by (auto split: prod.splits)
  qed
qed simp

end

interpretation nonces: freshness_guard check_and_add remembers cache_inv retention
proof unfold_locales
  fix s n now
  assume "cache_inv s"
  then show "cache_inv (snd (check_and_add n now s))"
    by (rule check_and_add_inv)
  assume "fst (check_and_add n now s)"
  with \<open>cache_inv s\<close> show "remembers (snd (check_and_add n now s)) n now"
    using check_and_add_inv[of s n now]
    by (auto simp: remembers_def check_and_add_def Let_def split: if_splits)
next
  fix s n t now m
  assume r: "remembers s n t" "now \<le> t + retention"
  then have "map_of (filter (\<lambda>(_, ts). \<not> ts < now - retention) s) n = Some t"
    by (simp add: remembers_def cache_inv_def map_of_filter_snd)
  moreover have "cache_inv (snd (check_and_add m now s))"
    using r(1) by (simp add: remembers_def check_and_add_inv)
  ultimately show "remembers (snd (check_and_add m now s)) n t"
    by (auto simp: remembers_def check_and_add_def Let_def)
  show "\<not> fst (check_and_add n now s)"
    using r by (subst check_and_add_accepts) (auto simp: remembers_def)
qed

section \<open>Properties\<close>

text \<open>The clock-skew window, exactly: on 64-bit integers the check accepts the timestamps at most
  sixty seconds before or after the clock and, because \<open>-skew\<close> overflows at the least integer,
  the one timestamp 2^63 seconds away.\<close>

theorem skew_window_exact:
  "hello_in_window now ts \<longleftrightarrow>
     unat (now - ts) \<le> 60 \<or> unat (ts - now) \<le> 60 \<or> ts = now + 2 ^ 63"
  by (rule hello_in_window_iff)

text \<open>The nonce cache, exactly: a nonce is accepted if and only if it was not recorded within the
  last 120 seconds, an accepted nonce is recorded, and no entry older than that survives a call.\<close>

theorem nonce_cache_exact:
  assumes "cache_inv seen"
  shows "(fst (check_and_add n now seen) \<longleftrightarrow> (\<forall>t. map_of seen n = Some t \<longrightarrow> t < now - retention))
    \<and> (fst (check_and_add n now seen) \<longrightarrow> map_of (snd (check_and_add n now seen)) n = Some now)
    \<and> (\<forall>(m, t) \<in> set (snd (check_and_add n now seen)). now - retention \<le> t)
    \<and> cache_inv (snd (check_and_add n now seen))"
  using check_and_add_accepts[OF assms] check_and_add_bounded[of _ _ n now seen] check_and_add_inv[OF assms]
    nonces.accepted_recalled[OF assms, of n now]
  by (auto simp: remembers_def)

theorem nonce_cache_exact_witness:
  "fst (check_and_add [1] 130 [([1], 9)]) \<and> \<not> fst (check_and_add [1] 130 [([1], 10)])"
  using nonce_cache_exact[of "[([1], 9)]" "[1]" 130] nonce_cache_exact[of "[([1], 10)]" "[1]" 130]
  by (simp add: cache_inv_def retention_def)

end
