(* ===== verification/Control.thy ===== *)
theory Control
  imports Session
begin

text \<open>
  The control plane of \<open>master/control\<close>: length-prefixed frames on a TCP byte stream, the
  registry of connected slaves and the life of one slave connection. A \<open>SlaveConn\<close> is a
  shared object, so the registry maps an id to the address of one. JSON is a parameter:
  the decoder of the registration message is the argument \<open>decode\<close>.
\<close>

section \<open>Frames\<close>

definition MsgKeepalive :: byte where "MsgKeepalive = 1"
definition MsgSession :: byte where "MsgSession = 2"
definition MsgSessionEnd :: byte where "MsgSessionEnd = 3"
definition MsgSlaveInfo :: byte where "MsgSlaveInfo = 4"

lemmas msg_types = MsgKeepalive_def MsgSession_def MsgSessionEnd_def MsgSlaveInfo_def

definition send_frame :: "byte \<Rightarrow> bytes \<Rightarrow> bytes" where
  "send_frame t payload = t # put16 (of_nat (length payload)) @ payload"

text \<open>\<open>readFrame\<close> on what is left of the stream; \<open>None\<close> is the error of \<open>io.ReadFull\<close>.\<close>

definition read_frame :: "bytes \<Rightarrow> ((byte \<times> bytes) \<times> bytes) option" where
  "read_frame b =
     (if length b < 3 then None
      else let n = unat (get16 (slice 1 3 b)) in
        if length b < 3 + n then None
        else Some ((b ! 0, slice 3 (3 + n) b), drop (3 + n) b))"

lemma read_frame_exact:
  "read_frame (send_frame t p @ r) =
     (let n = length p mod 65536 in Some ((t, take n p), drop n p @ r))"
proof -
  let ?n = "length p mod 65536"
  let ?b = "t # put16 (of_nat (length p)) @ p @ r"
  have n: "unat (get16 (slice 1 3 ?b)) = ?n"
    by (simp add: slice_def unat_of_nat)
  have le: "?n \<le> length p"
    by simp
  then have "take ?n (p @ r) = take ?n p" "drop ?n (p @ r) = drop ?n p @ r"
    by simp_all
  moreover have "drop 3 ?b = p @ r"
    by (simp add: put16_def numeral_3_eq_3)
  moreover from this have "drop (3 + ?n) ?b = drop ?n (p @ r)"
    using drop_drop[of ?n 3 ?b] by (simp only: add.commute)
  ultimately have s: "slice 3 (3 + ?n) ?b = take ?n p" and d: "drop (3 + ?n) ?b = drop ?n p @ r"
    by (simp_all only: slice_def diff_add_inverse)
  have "length ?b = 3 + length p + length r"
    by simp
  with le have "\<not> length ?b < 3" "\<not> length ?b < 3 + ?n" "?b ! 0 = t"
    by (linarith, linarith, simp)
  then have "read_frame ?b = Some ((t, take ?n p), drop ?n p @ r)"
    unfolding read_frame_def Let_def n s d by (simp only: if_False)
  then show ?thesis
    by (simp add: send_frame_def Let_def)
qed

lemma read_frame_send: "length p < 65536 \<Longrightarrow> read_frame (send_frame t p @ r) = Some ((t, p), r)"
  by (simp add: read_frame_exact)

lemma read_frame_shorter: "read_frame b = Some (m, r) \<Longrightarrow> length r < length b"
  by (auto simp: read_frame_def Let_def split: if_splits)

text \<open>A length-prefixed framing, and the messages a reader makes of a stream.\<close>

locale framing =
  fixes enc :: "'m \<Rightarrow> bytes"
    and dec1 :: "bytes \<Rightarrow> ('m \<times> bytes) option"
    and fits :: "'m \<Rightarrow> bool"
  assumes dec_enc: "fits m \<Longrightarrow> dec1 (enc m @ r) = Some (m, r)"
    and dec_shorter: "dec1 b = Some (m, r) \<Longrightarrow> length r < length b"
    and dec_empty: "dec1 [] = None"
begin

function read_all :: "bytes \<Rightarrow> 'm list" where
  "read_all b = (case dec1 b of None \<Rightarrow> [] | Some (m, r) \<Rightarrow> m # read_all r)"
  by pat_completeness auto
termination
  by (relation "measure length") (auto dest: dec_shorter)

declare read_all.simps [simp del]

lemma read_all_concat: "list_all fits ms \<Longrightarrow> read_all (concat (map enc ms)) = ms"
  by (induction ms) (simp_all add: read_all.simps dec_enc dec_empty)

text \<open>A reader that is cut off has seen a prefix of what was sent.\<close>

lemma read_all_split:
  "list_all fits ms \<Longrightarrow> read_all (concat (map enc ms) @ r) = ms @ read_all r"
proof (induction ms)
  case (Cons m ms)
  then show ?case
    by (simp add: read_all.simps[of "enc m @ concat (map enc ms) @ r"] dec_enc)
qed simp

lemma enc_inj: "fits m \<Longrightarrow> fits m' \<Longrightarrow> enc m @ r = enc m' @ r' \<Longrightarrow> m = m' \<and> r = r'"
  by (metis dec_enc option.inject prod.inject)

end

interpretation control_frames: framing "\<lambda>(t, p). send_frame t p" read_frame "\<lambda>(t, p). length p < 65536"
proof unfold_locales
  show "read_frame [] = None"
    by (simp add: read_frame_def)
qed (auto simp: read_frame_send dest: read_frame_shorter)

section \<open>The registry\<close>

record slave_conn =
  c_conn :: nat
  sl_id :: string
  sl_udp :: string
  sl_seen :: time

type_synonym cptr = nat

record registry =
  conns :: "slave_conn list"
  slaves :: "(string \<times> cptr) list"
  robin :: nat

definition new_registry :: registry where
  "new_registry = \<lparr>conns = [], slaves = [], robin = 0\<rparr>"

definition register :: "cptr \<Rightarrow> registry \<Rightarrow> registry" where
  "register p r = r\<lparr>slaves := aput (sl_id (conns r ! p)) p (slaves r)\<rparr>"

definition unregister :: "string \<Rightarrow> registry \<Rightarrow> registry" where
  "unregister i r = r\<lparr>slaves := adel i (slaves r)\<rparr>"

text \<open>
  \<open>All\<close> and \<open>Pick\<close> list the map's values in the order of one iteration over a Go map, which
  is the argument \<open>order\<close>; \<open>is_snapshot\<close> says which lists that can be.
\<close>

definition registry_all :: "registry \<Rightarrow> cptr list" where
  "registry_all r = map snd (slaves r)"

definition is_snapshot :: "cptr list \<Rightarrow> registry \<Rightarrow> bool" where
  "is_snapshot order r \<longleftrightarrow> mset order = mset (registry_all r)"

definition pick :: "cptr list \<Rightarrow> registry \<Rightarrow> cptr option \<times> registry" where
  "pick order r =
     (if length (slaves r) = 0 then (None, r)
      else (Some (order ! (robin r mod length order)), r\<lparr>robin := robin r + 1\<rparr>))"

definition registry_count :: "registry \<Rightarrow> nat" where
  "registry_count r = length (slaves r)"

definition registry_by_id :: "string \<Rightarrow> registry \<Rightarrow> cptr option" where
  "registry_by_id i r = map_of (slaves r) i"

record slave_health =
  hl_id :: string
  hl_seen :: time
  hl_up :: bool

definition registry_health :: "registry \<Rightarrow> slave_health list" where
  "registry_health r = map (\<lambda>p. let c = conns r ! p in
     \<lparr>hl_id = sl_id c, hl_seen = sl_seen c, hl_up = (sl_udp c \<noteq> [])\<rparr>) (registry_all r)"

definition ids_match :: "slave_conn list \<Rightarrow> (string \<rightharpoonup> cptr) \<Rightarrow> bool" where
  "ids_match cs m \<longleftrightarrow> (\<forall>i p. m i = Some p \<longrightarrow> p < length cs \<and> sl_id (cs ! p) = i)"

definition registry_inv :: "registry \<Rightarrow> bool" where
  "registry_inv r \<longleftrightarrow> distinct (map fst (slaves r)) \<and> ids_match (conns r) (map_of (slaves r))"

lemma ids_match_upd: "ids_match cs m \<Longrightarrow> p < length cs \<Longrightarrow> ids_match cs (m(sl_id (cs ! p) \<mapsto> p))"
  by (simp add: ids_match_def)

lemma ids_match_del: "ids_match cs m \<Longrightarrow> ids_match cs (m(i := None))"
  by (simp add: ids_match_def)

lemma ids_match_append: "ids_match cs m \<Longrightarrow> ids_match (cs @ [c]) m"
  unfolding ids_match_def by (metis length_append_singleton less_SucI nth_append)

lemma ids_match_seen: "ids_match cs m \<Longrightarrow> ids_match (cs[p := (cs ! p)\<lparr>sl_seen := now\<rparr>]) m"
proof -
  have "q < length cs \<Longrightarrow> sl_id (cs[p := (cs ! p)\<lparr>sl_seen := now\<rparr>] ! q) = sl_id (cs ! q)" for q
    by (cases "p = q") simp_all
  then show "ids_match cs m \<Longrightarrow> ?thesis"
    by (simp add: ids_match_def)
qed

lemma registry_inv_new: "registry_inv new_registry"
  by (simp add: registry_inv_def new_registry_def ids_match_def)

lemma registry_inv_register:
  "registry_inv r \<Longrightarrow> p < length (conns r) \<Longrightarrow> registry_inv (register p r)"
  by (simp add: registry_inv_def register_def ids_match_upd)

lemma registry_inv_unregister: "registry_inv r \<Longrightarrow> registry_inv (unregister i r)"
  by (simp add: registry_inv_def unregister_def ids_match_del)

lemma registry_inv_pick: "registry_inv r \<Longrightarrow> registry_inv (snd (pick order r))"
  by (cases "slaves r = []") (simp_all add: registry_inv_def pick_def)

lemma pick_registered:
  assumes "is_snapshot order r" and "pick order r = (Some p, r')"
  shows "p \<in> set (registry_all r)" "slaves r' = slaves r" "conns r' = conns r"
proof -
  have len: "length order = length (slaves r)"
    using assms(1) mset_eq_length[of order "registry_all r"] by (simp add: is_snapshot_def registry_all_def)
  with assms(2) have "order ! (robin r mod length order) = p" "length order \<noteq> 0"
    and r': "r' = r\<lparr>robin := robin r + 1\<rparr>"
    by (auto simp: pick_def split: if_splits)
  then have "p \<in> set order"
    by (metis bot_nat_0.not_eq_extremum mod_less_divisor nth_mem)
  then show "p \<in> set (registry_all r)"
    using assms(1) by (metis is_snapshot_def set_mset_mset)
  show "slaves r' = slaves r" "conns r' = conns r"
    by (simp_all add: r')
qed

lemma pick_none: "fst (pick order r) = None \<longleftrightarrow> registry_count r = 0"
  by (auto simp: pick_def registry_count_def)

lemma by_id_registered:
  assumes "registry_inv r" and "registry_by_id i r = Some p"
  shows "p < length (conns r) \<and> sl_id (conns r ! p) = i"
  using assms unfolding registry_inv_def registry_by_id_def ids_match_def by metis

section \<open>One slave connection\<close>

definition routable_addr :: "string \<Rightarrow> string \<Rightarrow> string" where
  "routable_addr reported remote_host =
     (if reported = [] then []
      else case split_host_port reported of
        None \<Rightarrow> reported
      | Some (host, port) \<Rightarrow>
          if (case parse_ip host of None \<Rightarrow> True | Some a \<Rightarrow> is_unspecified a) \<and> remote_host \<noteq> []
          then join_host_port remote_host port else reported)"

record slave_info =
  si_id :: string
  si_udp :: string
  si_data :: string

text \<open>
  \<open>handleSlave\<close> up to its read loop: the object created and registered, and the call of
  \<open>OnSlaveRegister\<close>. \<open>first\<close> is what \<open>readFrame\<close> returned.
\<close>

definition slave_hello ::
    "(bytes \<Rightarrow> slave_info option) \<Rightarrow> nat \<Rightarrow> string \<Rightarrow> time \<Rightarrow> (byte \<times> bytes) option \<Rightarrow> registry
      \<Rightarrow> (cptr \<times> (string \<times> string) option) option \<times> registry" where
  "slave_hello decode conn remote now first r =
     (case first of
        None \<Rightarrow> (None, r)
      | Some (t, payload) \<Rightarrow>
          if t \<noteq> MsgSlaveInfo then (None, r)
          else case decode payload of
            None \<Rightarrow> (None, r)
          | Some info \<Rightarrow>
              let remote_host = (case split_host_port remote of Some (h, _) \<Rightarrow> h | None \<Rightarrow> []);
                  udp = routable_addr (si_udp info) remote_host;
                  data = routable_addr (si_data info) remote_host;
                  p = length (conns r);
                  r' = r\<lparr>conns := conns r @ [\<lparr>c_conn = conn, sl_id = si_id info, sl_udp = udp, sl_seen = now\<rparr>]\<rparr>
              in (Some (p, if data \<noteq> [] then Some (si_id info, data) else None), register p r'))"

text \<open>One round of the read loop; the deferred \<open>Unregister\<close> runs when it returns.\<close>

definition slave_read :: "cptr \<Rightarrow> time \<Rightarrow> (byte \<times> bytes) option \<Rightarrow> registry \<Rightarrow> bool \<times> registry" where
  "slave_read p now frame r =
     (case frame of
        None \<Rightarrow> (False, unregister (sl_id (conns r ! p)) r)
      | Some (t, _) \<Rightarrow>
          (True, if t = MsgKeepalive
                 then r\<lparr>conns := (conns r)[p := (conns r ! p)\<lparr>sl_seen := now\<rparr>]\<rparr> else r))"

text \<open>A whole connection: the stream the slave sends, with the time each frame is read.\<close>

function serve_slave :: "cptr \<Rightarrow> time list \<Rightarrow> bytes \<Rightarrow> registry \<Rightarrow> registry" where
  "serve_slave p ts b r =
     (let (now, ts') = (case ts of [] \<Rightarrow> (0, []) | t # ts' \<Rightarrow> (t, ts')) in
      case read_frame b of
        None \<Rightarrow> snd (slave_read p now None r)
      | Some (m, rest) \<Rightarrow> serve_slave p ts' rest (snd (slave_read p now (Some m) r)))"
  by pat_completeness auto
termination
  by (relation "measure (\<lambda>(p, ts, b, r). length b)") (auto dest: read_frame_shorter)

declare serve_slave.simps [simp del]

definition handle_slave ::
    "(bytes \<Rightarrow> slave_info option) \<Rightarrow> nat \<Rightarrow> string \<Rightarrow> time \<Rightarrow> time list \<Rightarrow> bytes \<Rightarrow> registry
      \<Rightarrow> (string \<times> string) option \<times> registry" where
  "handle_slave decode conn remote now ts stream r =
     (case read_frame stream of
        None \<Rightarrow> (None, snd (slave_hello decode conn remote now None r))
      | Some (m, rest) \<Rightarrow>
          (case slave_hello decode conn remote now (Some m) r of
             (None, r') \<Rightarrow> (None, r')
           | (Some (p, call), r') \<Rightarrow> (call, serve_slave p ts rest r')))"

lemma slave_hello_registers:
  assumes "slave_hello decode conn remote now first r = (Some (p, call), r')" and "registry_inv r"
  shows "registry_inv r'" "registry_by_id (sl_id (conns r' ! p)) r' = Some p" "c_conn (conns r' ! p) = conn"
proof -
  obtain c where r': "r' = register p (r\<lparr>conns := conns r @ [c]\<rparr>)" and p: "p = length (conns r)"
    and c: "c_conn c = conn"
    using assms(1) unfolding slave_hello_def Let_def
    by (fastforce split: option.splits prod.splits if_splits)
  have "registry_inv (r\<lparr>conns := conns r @ [c]\<rparr>)"
    using assms(2) by (simp add: registry_inv_def ids_match_append)
  then show "registry_inv r'"
    unfolding r' by (rule registry_inv_register) (simp add: p)
  show "registry_by_id (sl_id (conns r' ! p)) r' = Some p"
    by (simp add: r' registry_by_id_def register_def)
  show "c_conn (conns r' ! p) = conn"
    by (simp add: r' register_def p c)
qed

lemma slave_read_inv: "registry_inv r \<Longrightarrow> registry_inv (snd (slave_read p now f r))"
  by (cases f; simp add: slave_read_def registry_inv_unregister split: prod.splits)
     (simp add: registry_inv_def ids_match_seen)

lemma serve_slave_inv: "registry_inv r \<Longrightarrow> registry_inv (serve_slave p ts b r)"
proof (induction p ts b r rule: serve_slave.induct)
  case (1 p ts b r)
  then show ?case
    by (subst serve_slave.simps) (auto simp: slave_read_inv Let_def split: option.splits prod.splits)
qed

text \<open>However the connection ends, its id is not registered afterwards.\<close>

lemma serve_slave_unregisters:
  assumes "p < length (conns r)" and "sl_id (conns r ! p) = i"
  shows "registry_by_id i (serve_slave p ts b r) = None"
  using assms
proof (induction p ts b r rule: serve_slave.induct)
  case (1 p ts b r)
  show ?case
  proof (cases "read_frame b")
    case None
    with "1.prems" show ?thesis
      by (subst serve_slave.simps)
         (simp add: slave_read_def unregister_def registry_by_id_def Let_def split: list.splits prod.splits)
  next
    case (Some x)
    obtain m rest where x: "x = (m, rest)" by (cases x)
    obtain now ts' where t: "(case ts of [] \<Rightarrow> (0, []) | t # ts' \<Rightarrow> (t, ts')) = (now, ts')"
      by (metis surj_pair)
    let ?r = "snd (slave_read p now (Some m) r)"
    have "p < length (conns ?r)" "sl_id (conns ?r ! p) = i"
      using "1.prems" by (auto simp: slave_read_def split: prod.splits)
    then have "registry_by_id i (serve_slave p ts' rest ?r) = None"
      using "1.IH"[OF t[symmetric]] Some x by auto
    then show ?thesis
      by (subst serve_slave.simps) (simp add: Some x t)
  qed
qed

text \<open>
  A second connection that registers the same id while the first is still open is removed
  from the registry when the first one closes.
\<close>

lemma stale_close_unregisters:
  assumes "sl_id (conns r ! p) = sl_id (conns r ! q)" and "registry_by_id (sl_id (conns r ! q)) r = Some q"
  shows "registry_by_id (sl_id (conns r ! q)) (snd (slave_read p now None r)) = None"
  using assms by (simp add: slave_read_def unregister_def registry_by_id_def)

section \<open>Routable addresses\<close>

lemma routable_wildcard:
  assumes "plain_host port" and "remote \<noteq> []"
  shows "routable_addr (''0.0.0.0:'' @ port) remote = join_host_port remote port"
proof -
  have "''0.0.0.0:'' @ port = join_host_port ''0.0.0.0'' port"
    by (simp add: join_host_port_def)
  moreover have "split_host_port (join_host_port ''0.0.0.0'' port) = Some (''0.0.0.0'', port)"
    using assms(1) by (intro split_join_host_port) (simp add: plain_host_def)
  moreover have "parse_ip ''0.0.0.0'' = Some (to16 [0, 0, 0, 0])"
  proof -
    have "ip_string [0, 0, 0, 0] = ''0.0.0.0''"
      by (simp add: ip_string_v4[of _ "[0, 0, 0, 0]"] ip4_string_def dec.simps[of 0] digit_def char_of_def bit_iff_odd)
    then show ?thesis
      using parse_ip_string[of "[0, 0, 0, 0]" "[0, 0, 0, 0]"] by simp
  qed
  ultimately show ?thesis
    using assms(2)
    by (simp add: routable_addr_def is_unspecified_def ip_equal_def to16_def v4_prefix_def)
       (simp add: join_host_port_def split: if_splits)
qed

lemma routable_fixed:
  assumes "to4 a = Some b" and "b \<noteq> [0, 0, 0, 0]" and "plain_host port"
  shows "routable_addr (join_host_port (ip_string a) port) remote = join_host_port (ip_string a) port"
proof -
  have dots: "plain_host (ip_string a)"
    using assms(1) ip4_string_plain[of b] by (simp add: ip_string_v4 to4_length)
  have "\<not> is_unspecified (to16 b)"
    using assms(2) to4_length[OF assms(1)]
    by (auto simp: is_unspecified_def ip_equal_def to16_def v4_prefix_def numeral_eq_Suc)
  then show ?thesis
    using dots assms(3) parse_ip_string[OF assms(1)]
    by (simp add: routable_addr_def split_join_host_port)
qed

section \<open>Properties\<close>

text \<open>Framing of the control connection: a frame followed by any bytes reads back as its type and the
  first \<open>length mod 65536\<close> bytes of its payload, the rest staying in the stream; so a stream of
  messages under 64 KiB reads back as exactly those messages.\<close>

theorem control_frames_roundtrip:
  assumes "\<forall>(t, p) \<in> set ms. length p < 65536"
  shows "control_frames.read_all (concat (map (\<lambda>(t, p). send_frame t p) ms)) = ms
    \<and> read_frame (send_frame t q @ r) = Some ((t, take (length q mod 65536) q), drop (length q mod 65536) q @ r)"
  using control_frames.read_all_concat[of ms] assms read_frame_exact[of t q r]
  by (simp add: list_all_iff Let_def)

theorem control_frames_roundtrip_witness:
  "control_frames.read_all (send_frame 1 [] @ send_frame 2 [7, 8]) = [(1, []), (2, [7, 8])]"
  using control_frames_roundtrip[of "[(1, []), (2, [7, 8])]"] by simp

text \<open>C25. A slave connection cleans up: whatever stream of bytes the slave sends and however it ends, once
  the connection's handler has returned its slave id is not registered, and the registry keeps
  its invariant, that each id leads to a connection that registered it.\<close>

theorem slave_connection_cleanup:
  assumes "registry_inv r" and "p < length (conns r)"
  shows "registry_by_id (sl_id (conns r ! p)) (serve_slave p ts b r) = None
    \<and> registry_inv (serve_slave p ts b r)"
  using serve_slave_unregisters[OF assms(2) refl] serve_slave_inv[OF assms(1)] by blast

definition sample_registry :: registry where
  "sample_registry = register 0 (new_registry\<lparr>conns :=
     [\<lparr>c_conn = 7, sl_id = ''a'', sl_udp = ''203.0.113.9:7002'', sl_seen = 0\<rparr>]\<rparr>)"

lemma sample_registry_inv: "registry_inv sample_registry"
  by (simp add: sample_registry_def registry_inv_def register_def new_registry_def ids_match_def)

theorem slave_connection_cleanup_witness:
  "registry_by_id ''a'' sample_registry = Some 0
   \<and> registry_by_id ''a'' (serve_slave 0 [5] (send_frame 1 []) sample_registry) = None"
  using slave_connection_cleanup[OF sample_registry_inv, of 0 "[5]" "send_frame 1 []"]
  by (simp add: sample_registry_def register_def new_registry_def registry_by_id_def)

text \<open>A stale connection evicts its successor: when a slave has registered again under the same id on a
  new connection, the end of the old connection removes the new registration.\<close>

theorem stale_connection_evicts:
  assumes "sl_id (conns r ! p) = sl_id (conns r ! q)" and "registry_by_id (sl_id (conns r ! q)) r = Some q"
  shows "registry_by_id (sl_id (conns r ! q)) (snd (slave_read p now None r)) = None"
  by (rule stale_close_unregisters[OF assms])

theorem stale_connection_evicts_witness:
  "registry_by_id ''a'' (snd (slave_read 0 9 None
     \<lparr>conns = [\<lparr>c_conn = 7, sl_id = ''a'', sl_udp = [], sl_seen = 0\<rparr>, \<lparr>c_conn = 8, sl_id = ''a'', sl_udp = [], sl_seen = 5\<rparr>],
      slaves = [(''a'', 1)], robin = 0\<rparr>)) = None"
  using stale_connection_evicts[of "\<lparr>conns = [\<lparr>c_conn = 7, sl_id = ''a'', sl_udp = [], sl_seen = 0\<rparr>,
      \<lparr>c_conn = 8, sl_id = ''a'', sl_udp = [], sl_seen = 5\<rparr>], slaves = [(''a'', 1)], robin = 0\<rparr>" 0 1 9]
  by (simp add: registry_by_id_def)

text \<open>Routable addresses: a slave that reports the IPv4 wildcard is recorded under the host its
  connection comes from with the reported port, and one that reports an IPv4 address of its own
  keeps it.\<close>

theorem reported_address_made_routable:
  assumes "plain_host port" and "remote \<noteq> []" and "to4 a = Some b" and "b \<noteq> [0, 0, 0, 0]"
  shows "routable_addr (''0.0.0.0:'' @ port) remote = join_host_port remote port
    \<and> routable_addr (join_host_port (ip_string a) port) remote = join_host_port (ip_string a) port"
  using routable_wildcard[OF assms(1,2)] routable_fixed[OF assms(3,4,1)] by blast

theorem reported_address_made_routable_witness:
  "routable_addr ''0.0.0.0:7002'' ''203.0.113.9'' = ''203.0.113.9:7002''"
  using reported_address_made_routable[of "''7002''" "''203.0.113.9''" "[10, 0, 0, 1]" "[10, 0, 0, 1]"]
  by (simp add: plain_host_def) (simp add: join_host_port_def)

end
