(* ===== verification/Sha256.thy ===== *)
theory Sha256
  imports Prelude
begin

text \<open>
  SHA-256 (FIPS 180-4) and HMAC (RFC 2104), the standard-library functions \<open>common/crypto\<close>
  derives keys and authenticates the handshake with. They are defined outright, so the key
  derivation of the model is the one of the code, bit for bit.
\<close>

text \<open>The constants of the standard, in decimal.\<close>

definition sha_K :: "u32 list" where
  "sha_K = [
    1116352408, 1899447441, 3049323471, 3921009573, 961987163, 1508970993, 2453635748, 2870763221,
    3624381080, 310598401, 607225278, 1426881987, 1925078388, 2162078206, 2614888103, 3248222580,
    3835390401, 4022224774, 264347078, 604807628, 770255983, 1249150122, 1555081692, 1996064986,
    2554220882, 2821834349, 2952996808, 3210313671, 3336571891, 3584528711, 113926993, 338241895,
    666307205, 773529912, 1294757372, 1396182291, 1695183700, 1986661051, 2177026350, 2456956037,
    2730485921, 2820302411, 3259730800, 3345764771, 3516065817, 3600352804, 4094571909, 275423344,
    430227734, 506948616, 659060556, 883997877, 958139571, 1322822218, 1537002063, 1747873779,
    1955562222, 2024104815, 2227730452, 2361852424, 2428436474, 2756734187, 3204031479, 3329325298]"

definition sha_H0 :: "u32 list" where
  "sha_H0 = [1779033703, 3144134277, 1013904242, 2773480762, 1359893119, 2600822924, 528734635, 1541459225]"

definition rotr :: "nat \<Rightarrow> u32 \<Rightarrow> u32" where
  "rotr n x = drop_bit n x OR push_bit (32 - n) x"

definition sha_pad :: "bytes \<Rightarrow> bytes" where
  "sha_pad m = m @ [0x80] @ replicate ((119 - length m mod 64) mod 64) 0 @ put64 (of_nat (8 * length m))"

fun words32 :: "bytes \<Rightarrow> u32 list" where
  "words32 (a # b # c # d # r) = get32 [a, b, c, d] # words32 r"
| "words32 _ = []"

text \<open>One step of the message schedule; the window holds the last sixteen words, oldest first.\<close>

definition sched_step :: "u32 list \<Rightarrow> u32" where
  "sched_step w =
     (let w15 = w ! 1; w2 = w ! 14;
          s0 = rotr 7 w15 XOR rotr 18 w15 XOR drop_bit 3 w15;
          s1 = rotr 17 w2 XOR rotr 19 w2 XOR drop_bit 10 w2
      in w ! 0 + s0 + w ! 9 + s1)"

fun schedule :: "nat \<Rightarrow> u32 list \<Rightarrow> u32 list" where
  "schedule 0 w = w"
| "schedule (Suc n) w = hd w # schedule n (tl w @ [sched_step w])"

fun sha_round :: "u32 list \<Rightarrow> u32 \<times> u32 \<Rightarrow> u32 list" where
  "sha_round [a, b, c, d, e, f, g, h] (k, w) =
     (let s1 = rotr 6 e XOR rotr 11 e XOR rotr 25 e;
          ch = (e AND f) XOR (NOT e AND g);
          t1 = h + s1 + ch + k + w;
          s0 = rotr 2 a XOR rotr 13 a XOR rotr 22 a;
          maj = (a AND b) XOR (a AND c) XOR (b AND c);
          t2 = s0 + maj
      in [t1 + t2, a, b, c, d + t1, e, f, g])"
| "sha_round st _ = st"

definition sha_block :: "u32 list \<Rightarrow> u32 list \<Rightarrow> u32 list" where
  "sha_block h block = map2 (+) h (foldl sha_round h (zip sha_K (schedule 48 block)))"

function sha_blocks :: "u32 list \<Rightarrow> u32 list \<Rightarrow> u32 list" where
  "sha_blocks h ws = (if length ws < 16 then h else sha_blocks (sha_block h (take 16 ws)) (drop 16 ws))"
  by pat_completeness auto
termination
  by (relation "measure (\<lambda>(h, ws). length ws)") auto

declare sha_blocks.simps [simp del]

definition sha256 :: "bytes \<Rightarrow> bytes" where
  "sha256 m = concat (map put32 (sha_blocks sha_H0 (words32 (sha_pad m))))"

section \<open>HMAC-SHA256\<close>

definition hmac_key :: "bytes \<Rightarrow> bytes" where
  "hmac_key k = (let k' = (if length k > 64 then sha256 k else k) in k' @ replicate (64 - length k') 0)"

definition hmac_sha256 :: "bytes \<Rightarrow> bytes \<Rightarrow> bytes" where
  "hmac_sha256 k m =
     (let k0 = hmac_key k
      in sha256 (map (\<lambda>b. b XOR 0x5c) k0 @ sha256 (map (\<lambda>b. b XOR 0x36) k0 @ m)))"

section \<open>Digest length\<close>

lemma length_sha_round [simp]: "length h = 8 \<Longrightarrow> length (sha_round h kw) = 8"
  by (induction h kw rule: sha_round.induct) (simp_all add: Let_def)

lemma length_sha_rounds [simp]: "length h = 8 \<Longrightarrow> length (foldl sha_round h kws) = 8"
  by (induction kws arbitrary: h) simp_all

lemma length_sha_blocks: "length h = 8 \<Longrightarrow> length (sha_blocks h ws) = 8"
proof (induction h ws rule: sha_blocks.induct)
  case (1 h ws)
  then show ?case
    by (cases "length ws < 16") (simp_all add: sha_blocks.simps[of h ws] sha_block_def)
qed

lemma length_concat_put32: "length (concat (map put32 ws)) = 4 * length ws"
  by (induction ws) simp_all

lemma length_sha256 [simp]: "length (sha256 m) = 32"
  by (simp add: sha256_def length_concat_put32 length_sha_blocks sha_H0_def)

lemma length_hmac_sha256 [simp]: "length (hmac_sha256 k m) = 32"
  by (simp add: hmac_sha256_def Let_def)

end
