(* ===== verification/Crypto.thy ===== *)
theory Crypto
  imports NetAddr Sha256
begin

text \<open>
  \<open>common/crypto\<close>: key derivation, the handshake MAC and the AEAD wrapper with its nonce
  counter. ChaCha20-Poly1305 is a third-party package: it is the argument \<open>C\<close> of the
  definitions that call it, and \<open>cipher_ok\<close> is the part of its documented behaviour the
  program relies on. Randomness is an argument of the constructors.
\<close>

section \<open>Keys\<close>

definition derive_key :: "bytes \<Rightarrow> bytes \<Rightarrow> bytes" where
  "derive_key token salt = sha256 (token @ [0x42, 0x61, 0x64, 0x52] @ salt)"

definition session_key :: "bytes \<Rightarrow> ip \<Rightarrow> bytes" where
  "session_key token tunnel_ip =
     derive_key token (token @ (case to4 tunnel_ip of Some a \<Rightarrow> a | None \<Rightarrow> []))"

definition hello_mac :: "bytes \<Rightarrow> bytes \<Rightarrow> bytes" where
  "hello_mac token msg = hmac_sha256 token msg"

definition verify_hello_mac :: "bytes \<Rightarrow> bytes \<Rightarrow> bytes \<Rightarrow> bool" where
  "verify_hello_mac token msg tag \<longleftrightarrow> hello_mac token msg = tag"

lemma length_session_key [simp]: "length (session_key token a) = 32"
  by (simp add: session_key_def derive_key_def)

lemma length_hello_mac [simp]: "length (hello_mac token m) = 32"
  by (simp add: hello_mac_def)

lemma session_key_cong: "to4 a = to4 b \<Longrightarrow> session_key token a = session_key token b"
  by (simp add: session_key_def)

section \<open>The AEAD wrapper\<close>

record cipher =
  c_seal :: "bytes \<Rightarrow> bytes \<Rightarrow> bytes \<Rightarrow> bytes"
  c_open :: "bytes \<Rightarrow> bytes \<Rightarrow> bytes \<Rightarrow> bytes option"

definition cipher_ok :: "cipher \<Rightarrow> bool" where
  "cipher_ok C \<longleftrightarrow>
     (\<forall>k n p. c_open C k n (c_seal C k n p) = Some p \<and> length (c_seal C k n p) = length p + 16)"

datatype cerr = ErrDecrypt | ErrNonceExhausted

record aead =
  a_key :: bytes
  a_prefix :: bytes
  a_counter :: u64

definition wf_aead :: "aead \<Rightarrow> bool" where
  "wf_aead a \<longleftrightarrow> length (a_prefix a) = 8"

text \<open>\<open>prefix\<close> is what \<open>rand.Read\<close> returned, \<open>None\<close> when it failed.\<close>

definition new_aead :: "bytes \<Rightarrow> bytes option \<Rightarrow> aead option" where
  "new_aead key prefix =
     (case prefix of None \<Rightarrow> None
      | Some p \<Rightarrow> Some \<lparr>a_key = key, a_prefix = p, a_counter = 0\<rparr>)"

definition aead_nonce :: "aead \<Rightarrow> bytes option \<times> aead" where
  "aead_nonce a =
     (let v = a_counter a; a' = a\<lparr>a_counter := v + 1\<rparr>
      in if v > 0xFFFFFFFF then (None, a') else (Some (a_prefix a @ put32 (ucast v)), a'))"

definition aead_seal :: "cipher \<Rightarrow> aead \<Rightarrow> bytes \<Rightarrow> (cerr + bytes) \<times> aead" where
  "aead_seal C a plaintext =
     (case aead_nonce a of
        (None, a') \<Rightarrow> (Inl ErrNonceExhausted, a')
      | (Some n, a') \<Rightarrow> (Inr (n @ c_seal C (a_key a) n plaintext), a'))"

definition aead_open :: "cipher \<Rightarrow> aead \<Rightarrow> bytes \<Rightarrow> cerr + bytes" where
  "aead_open C a data =
     (if length data < 28 then Inl ErrDecrypt
      else case c_open C (a_key a) (take 12 data) (drop 12 data) of
             None \<Rightarrow> Inl ErrDecrypt | Some pt \<Rightarrow> Inr pt)"

lemma new_aead_wf: "new_aead k (Some p) = Some a \<Longrightarrow> length p = 8 \<Longrightarrow> wf_aead a \<and> a_key a = k"
  by (auto simp: new_aead_def wf_aead_def)

lemma aead_seal_key [simp]:
  "a_key (snd (aead_seal C a p)) = a_key a" "a_prefix (snd (aead_seal C a p)) = a_prefix a"
  "a_counter (snd (aead_seal C a p)) = a_counter a + 1"
  by (auto simp: aead_seal_def aead_nonce_def Let_def)

lemma aead_open_key: "a_key a = a_key b \<Longrightarrow> aead_open C a d = aead_open C b d"
  by (simp add: aead_open_def)

lemma aead_open_seal:
  assumes "cipher_ok C" and "wf_aead a" and "a_key b = a_key a"
    and "aead_seal C a p = (Inr c, a')"
  shows "aead_open C b c = Inr p" "length c = length p + 28"
proof -
  from assms(4) obtain n where n: "aead_nonce a = (Some n, a')"
      and c: "c = n @ c_seal C (a_key a) n p"
    by (auto simp: aead_seal_def split: prod.splits option.splits)
  have len: "length n = 12"
    using n assms(2) by (auto simp: aead_nonce_def Let_def wf_aead_def split: if_splits)
  then show "length c = length p + 28"
    using c assms(1) by (simp add: cipher_ok_def)
  then show "aead_open C b c = Inr p"
    using c len assms(1,3) by (simp add: aead_open_def cipher_ok_def)
qed

section \<open>A run of seals from one AEAD\<close>

fun seal_run :: "cipher \<Rightarrow> aead \<Rightarrow> bytes list \<Rightarrow> (cerr + bytes) list" where
  "seal_run C a [] = []"
| "seal_run C a (p # ps) = (case aead_seal C a p of (r, a') \<Rightarrow> r # seal_run C a' ps)"

definition nonce_at :: "aead \<Rightarrow> u64 \<Rightarrow> bytes" where
  "nonce_at a v = a_prefix a @ put32 (ucast v)"

definition seal_at :: "cipher \<Rightarrow> aead \<Rightarrow> u64 \<Rightarrow> bytes \<Rightarrow> cerr + bytes" where
  "seal_at C a v p =
     (if v > 0xFFFFFFFF then Inl ErrNonceExhausted
      else Inr (nonce_at a v @ c_seal C (a_key a) (nonce_at a v) p))"

lemma aead_seal_at: "fst (aead_seal C a p) = seal_at C a (a_counter a) p"
  by (simp add: aead_seal_def aead_nonce_def seal_at_def nonce_at_def Let_def)

lemma length_seal_run [simp]: "length (seal_run C a ps) = length ps"
  by (induction C a ps rule: seal_run.induct) (simp_all split: prod.splits)

lemma seal_run_nth:
  "i < length ps \<Longrightarrow> seal_run C a ps ! i = seal_at C a (a_counter a + of_nat i) (ps ! i)"
proof (induction C a ps arbitrary: i rule: seal_run.induct)
  case (2 C a p ps)
  obtain r a' where s: "aead_seal C a p = (r, a')" by (cases "aead_seal C a p")
  then have a': "a_key a' = a_key a" "a_prefix a' = a_prefix a" "a_counter a' = a_counter a + 1"
    using aead_seal_key[of C a p] by simp_all
  show ?case
  proof (cases i)
    case 0
    then show ?thesis using s aead_seal_at[of C a p] by simp
  next
    case (Suc j)
    then have "seal_run C a' ps ! j = seal_at C a' (a_counter a' + of_nat j) (ps ! j)"
      using "2.IH"[OF s[symmetric]] "2.prems" by simp
    then show ?thesis
      using Suc s a' by (simp add: seal_at_def nonce_at_def add.assoc)
  qed
qed simp

lemma of_nat64_le:
  assumes "i < 2 ^ 64"
  shows "(of_nat i :: u64) > 0xFFFFFFFF \<longleftrightarrow> 2 ^ 32 \<le> i"
  using assms by (simp add: word_less_nat_alt unat_of_nat, linarith)

lemma nonce_at_inj:
  assumes "i < 2 ^ 32" and "j < 2 ^ 32" and "nonce_at a (of_nat i) = nonce_at a (of_nat j)"
  shows "i = j"
proof -
  have "put32 (ucast (of_nat i :: u64)) = put32 (ucast (of_nat j :: u64))"
    using assms(3) by (simp add: nonce_at_def)
  then have "(ucast (of_nat i :: u64) :: u32) = ucast (of_nat j :: u64)"
    by (metis get32_put32)
  then have "unat (ucast (of_nat i :: u64) :: u32) = unat (ucast (of_nat j :: u64) :: u32)"
    by simp
  then show "i = j"
    using assms(1,2) by (simp add: unsigned_ucast_eq take_bit_eq_mod unat_of_nat)
qed

section \<open>An instance of the cipher hypothesis\<close>

text \<open>A cipher without secrecy that satisfies \<open>cipher_ok\<close>: it appends sixteen zero bytes.\<close>

definition null_cipher :: cipher where
  "null_cipher = \<lparr>c_seal = (\<lambda>k n p. p @ replicate 16 0),
     c_open = (\<lambda>k n c. if 16 \<le> length c \<and> drop (length c - 16) c = replicate 16 0
                        then Some (take (length c - 16) c) else None)\<rparr>"

lemma null_seal [simp]: "c_seal null_cipher k n p = p @ replicate 16 0"
  by (simp add: null_cipher_def)

lemma null_cipher_ok: "cipher_ok null_cipher"
  by (simp add: cipher_ok_def null_cipher_def)

section \<open>Properties\<close>

lemma new_aead_fields: "new_aead k (Some p) = Some a \<longleftrightarrow> a = \<lparr>a_key = k, a_prefix = p, a_counter = 0\<rparr>"
  by (auto simp: new_aead_def)

text \<open>C21. Nonces: of the messages sealed with one cipher, the first 2^32 get pairwise distinct
  nonces (the random prefix and a counter), and every later one is refused with
  \<open>ErrNonceExhausted\<close> instead of reusing a nonce, as far as the 64-bit counter goes.\<close>

theorem nonces_never_reused:
  assumes "new_aead k (Some pre) = Some a" and "length ps \<le> 2 ^ 64"
  shows "(\<forall>i < length ps. seal_run C a ps ! i =
      (if i < 2 ^ 32 then Inr (nonce_at a (of_nat i) @ c_seal C k (nonce_at a (of_nat i)) (ps ! i))
       else Inl ErrNonceExhausted))
    \<and> (\<forall>i j. i < 2 ^ 32 \<longrightarrow> j < 2 ^ 32 \<longrightarrow> nonce_at a (of_nat i) = nonce_at a (of_nat j) \<longrightarrow> i = j)"
proof (intro conjI allI impI)
  fix i assume i: "i < length ps"
  have a: "a_counter a = 0" "a_key a = k"
    using assms(1) by (simp_all add: new_aead_fields)
  have "(of_nat i :: u64) > 0xFFFFFFFF \<longleftrightarrow> 2 ^ 32 \<le> i"
    using i assms(2) by (intro of_nat64_le) linarith
  then show "seal_run C a ps ! i =
      (if i < 2 ^ 32 then Inr (nonce_at a (of_nat i) @ c_seal C k (nonce_at a (of_nat i)) (ps ! i))
       else Inl ErrNonceExhausted)"
    using seal_run_nth[OF i, of C a] a by (simp add: seal_at_def not_le)
qed (rule nonce_at_inj)

theorem nonces_never_reused_witness:
  "seal_run null_cipher \<lparr>a_key = [1], a_prefix = replicate 8 0, a_counter = 0\<rparr> [[5], [6]] ! 1 =
     Inr (nonce_at \<lparr>a_key = [1], a_prefix = replicate 8 0, a_counter = 0\<rparr> 1 @ 6 # replicate 16 0)"
  using nonces_never_reused[of "[1]" "replicate 8 0" "\<lparr>a_key = [1], a_prefix = replicate 8 0, a_counter = 0\<rparr>" "[[5], [6]]" null_cipher]
  by (simp add: new_aead_fields)

text \<open>Opening inverts sealing: with a cipher that inverts, the holder of the same key reads what
  was sealed, and the sealed form is 28 bytes longer.\<close>

theorem open_inverts_seal:
  assumes "cipher_ok C" and "wf_aead a" and "a_key b = a_key a" and "aead_seal C a p = (Inr c, a')"
  shows "aead_open C b c = Inr p \<and> length c = length p + 28 \<and> wf_aead a' \<and> a_key a' = a_key a"
  using aead_open_seal[OF assms] aead_seal_key[of C a p] assms(2,4) by (simp add: wf_aead_def)

theorem open_inverts_seal_witness:
  "aead_open null_cipher \<lparr>a_key = [1], a_prefix = [], a_counter = 9\<rparr>
     ((replicate 8 3 @ [0, 0, 0, 0]) @ [7, 7] @ replicate 16 0) = Inr [7, 7]"
  using open_inverts_seal[of null_cipher "\<lparr>a_key = [1], a_prefix = replicate 8 3, a_counter = 0\<rparr>"
      "\<lparr>a_key = [1], a_prefix = [], a_counter = 9\<rparr>" "[7, 7]"
      "(replicate 8 3 @ [0, 0, 0, 0]) @ [7, 7] @ replicate 16 0" "\<lparr>a_key = [1], a_prefix = replicate 8 3, a_counter = 1\<rparr>"]
  by (simp add: null_cipher_ok wf_aead_def aead_seal_def aead_nonce_def put32_def)

text \<open>Key agreement: the session key depends on the tunnel address only through its IPv4 value, so
  client, slave and master derive one key whether they hold the address in 4 or 16 bytes.\<close>

theorem session_key_agreement:
  assumes "length a = 4"
  shows "session_key token (to16 a) = session_key token a \<and> length (session_key token a) = 32"
  using session_key_cong[of "to16 a" a token] assms by simp

theorem session_key_agreement_witness:
  "session_key [1, 2] ([0, 0, 0, 0, 0, 0, 0, 0, 0, 0, 255, 255, 10, 8, 0, 2]) = session_key [1, 2] [10, 8, 0, 2]"
  using session_key_agreement[of "[10, 8, 0, 2]" "[1, 2]"] by (simp add: to16_def v4_prefix_def)

end
