(* ===== verification/Protocol.thy ===== *)
theory Protocol
  imports NetAddr
begin

text \<open>
  The wire format of \<open>common/protocol\<close>: the nine-byte header of \<open>packet.go\<close> and the control
  messages of \<open>control.go\<close>, each with its marshaller and parser. Fixed-size Go arrays are
  byte lists whose length the \<open>wf_\<close> predicates state; reads past a length check are slices.
\<close>

section \<open>Constants\<close>

definition PktTypeData :: byte where "PktTypeData = 1"
definition PktTypeControl :: byte where "PktTypeControl = 2"
definition PktTypeKeepalive :: byte where "PktTypeKeepalive = 3"
definition PktTypeHandshake :: byte where "PktTypeHandshake = 4"
definition PktTypePunch :: byte where "PktTypePunch = 5"
definition PktTypePing :: byte where "PktTypePing = 6"
definition PktTypePong :: byte where "PktTypePong = 7"

definition CtrlHello :: byte where "CtrlHello = 1"
definition CtrlWelcome :: byte where "CtrlWelcome = 2"
definition CtrlSlaveChoice :: byte where "CtrlSlaveChoice = 5"

definition HelloVersion :: byte where "HelloVersion = 2"
definition HelloVersion3 :: byte where "HelloVersion3 = 3"
definition WelcomeVersion :: byte where "WelcomeVersion = 2"
definition WelcomeVersion3 :: byte where "WelcomeVersion3 = 3"

lemmas pkt_types = PktTypeData_def PktTypeControl_def PktTypeKeepalive_def PktTypeHandshake_def
  PktTypePunch_def PktTypePing_def PktTypePong_def

lemmas proto_consts = CtrlHello_def CtrlWelcome_def CtrlSlaveChoice_def HelloVersion_def
  HelloVersion3_def WelcomeVersion_def WelcomeVersion3_def

datatype perr = ErrShortPacket | ErrBadObfsHeader | ErrBadVersion

section \<open>The wire header\<close>

definition build_header :: "byte \<Rightarrow> u16 \<Rightarrow> bytes" where
  "build_header pkt_type seq = [0xFF, 0xFF, 0xFF, 0xFF, 0x41, pkt_type] @ put16 seq @ [0]"

definition parse_header :: "bytes \<Rightarrow> perr + bytes" where
  "parse_header b =
     (if length b < 9 then Inl ErrShortPacket
      else if b ! 0 \<noteq> 0xFF \<or> b ! 1 \<noteq> 0xFF \<or> b ! 2 \<noteq> 0xFF \<or> b ! 3 \<noteq> 0xFF then Inl ErrBadObfsHeader
      else Inr (take 9 b))"

definition header_pkt_type :: "bytes \<Rightarrow> byte" where
  "header_pkt_type h = h ! 5"

definition header_seq :: "bytes \<Rightarrow> u16" where
  "header_seq h = get16 (slice 6 8 h)"

lemma length_build_header [simp, codec]: "length (build_header t s) = 9"
  by (simp add: build_header_def)

lemma parse_build_header [codec]: "parse_header (build_header t s @ r) = Inr (build_header t s)"
  by (simp add: parse_header_def build_header_def put16_def)

lemma header_fields [codec]:
  "header_pkt_type (build_header t s) = t" "header_seq (build_header t s) = s"
  by (simp_all add: header_pkt_type_def header_seq_def build_header_def slice_def put16_def
        get16_put16[unfolded put16_def])

section \<open>Hello\<close>

record hello =
  h_version :: byte
  h_timestamp :: u64
  h_nonce :: bytes
  h_mac :: bytes

definition wf_hello :: "hello \<Rightarrow> bool" where
  "wf_hello m \<longleftrightarrow> length (h_nonce m) = 16 \<and> length (h_mac m) = 32"

definition hello_unsigned :: "hello \<Rightarrow> bytes" where
  "hello_unsigned m = [CtrlHello, h_version m] @ put64 (h_timestamp m) @ h_nonce m"

definition hello_marshal :: "hello \<Rightarrow> bytes" where
  "hello_marshal m = hello_unsigned m @ h_mac m"

definition parse_hello :: "bytes \<Rightarrow> perr + hello" where
  "parse_hello b =
     (if length b < 58 then Inl ErrShortPacket
      else if b ! 1 \<noteq> HelloVersion \<and> b ! 1 \<noteq> HelloVersion3 then Inl ErrBadVersion
      else Inr \<lparr>h_version = b ! 1, h_timestamp = get64 (slice 2 10 b),
                h_nonce = slice 10 26 b, h_mac = slice 26 58 b\<rparr>)"

lemma length_hello_unsigned [codec]: "wf_hello m \<Longrightarrow> length (hello_unsigned m) = 26"
  by (simp add: wf_hello_def hello_unsigned_def)

lemma length_hello_marshal [codec]: "wf_hello m \<Longrightarrow> length (hello_marshal m) = 58"
  by (simp add: hello_marshal_def length_hello_unsigned wf_hello_def)

lemma hello_roundtrip_ext:
  assumes "wf_hello m"
  shows "parse_hello (hello_marshal m @ r) =
    (if h_version m = HelloVersion \<or> h_version m = HelloVersion3 then Inr m else Inl ErrBadVersion)"
proof -
  let ?b = "hello_marshal m @ r"
  have lens: "length (h_nonce m) = 16" "length (h_mac m) = 32"
    using assms by (simp_all add: wf_hello_def)
  have split: "?b = [CtrlHello, h_version m] @ put64 (h_timestamp m) @ h_nonce m @ h_mac m @ r"
    by (simp add: hello_marshal_def hello_unsigned_def)
  have "\<not> length ?b < 58" "?b ! 1 = h_version m"
    using lens unfolding split by simp_all
  moreover have "slice 2 10 ?b = put64 (h_timestamp m)" "slice 10 26 ?b = h_nonce m"
      "slice 26 58 ?b = h_mac m"
    using lens unfolding split by (simp_all add: slice_def)
  ultimately show ?thesis
    by (simp add: parse_hello_def)
qed

text \<open>
  What the parser returns re-serialises to the bytes it read, the first byte apart, which it
  does not look at: the handshake handler checks that byte itself.
\<close>

lemma parse_hello_inv:
  assumes "parse_hello b = Inr m"
  shows "wf_hello m" "hello_unsigned m = CtrlHello # slice 1 26 b" "h_mac m = slice 26 58 b"
    "h_version m = HelloVersion \<or> h_version m = HelloVersion3"
proof -
  have len: "58 \<le> length b"
    and m: "m = \<lparr>h_version = b ! 1, h_timestamp = get64 (slice 2 10 b),
                h_nonce = slice 10 26 b, h_mac = slice 26 58 b\<rparr>"
    and v: "b ! 1 = HelloVersion \<or> b ! 1 = HelloVersion3"
    using assms by (auto simp: parse_hello_def split: if_splits)
  show "wf_hello m" "h_mac m = slice 26 58 b"
    using len by (simp_all add: m wf_hello_def)
  show "h_version m = HelloVersion \<or> h_version m = HelloVersion3"
    using v by (simp add: m)
  have "put64 (get64 (slice 2 10 b)) = slice 2 10 b"
    using len by (simp add: put64_get64)
  moreover have "slice 1 26 b = b ! 1 # slice 2 10 b @ slice 10 26 b"
  proof -
    have "drop 1 b = b ! 1 # drop 2 b"
      using len Cons_nth_drop_Suc[of 1 b] by (simp add: numeral_2_eq_2)
    moreover have "take 24 (drop 2 b) = take 8 (drop 2 b) @ take 16 (drop 10 b)"
      using take_add[of 8 16 "drop 2 b"] by simp
    ultimately show ?thesis
      by (simp add: slice_def)
  qed
  ultimately show "hello_unsigned m = CtrlHello # slice 1 26 b"
    by (simp add: m hello_unsigned_def)
qed

section \<open>Welcome\<close>

record endpoint =
  ep_ip :: ip
  ep_port :: u16

record welcome_msg =
  w_assigned :: ip
  w_slave_ip :: ip
  w_slave_port :: u16
  w_data_port :: u16
  w_server_id :: bytes
  w_slaves :: "endpoint list"

text \<open>\<open>copy(b[i:i+4], ip.To4())\<close> into a zeroed buffer.\<close>

definition put_ip4 :: "ip \<Rightarrow> bytes" where
  "put_ip4 a = (case to4 a of Some v \<Rightarrow> v | None \<Rightarrow> [0, 0, 0, 0])"

lemma length_put_ip4 [simp, codec]: "length (put_ip4 a) = 4"
  by (auto simp: put_ip4_def to4_length split: option.splits)

lemma put_ip4_v4 [codec]: "to4 a = Some v \<Longrightarrow> put_ip4 a = v"
  by (simp add: put_ip4_def)

definition welcome_head :: "byte \<Rightarrow> welcome_msg \<Rightarrow> bytes" where
  "welcome_head ver m = [CtrlWelcome, ver] @ put_ip4 (w_assigned m) @ put_ip4 (w_slave_ip m)
     @ put16 (w_slave_port m) @ put16 (w_data_port m) @ w_server_id m"

definition marshal_endpoint :: "endpoint \<Rightarrow> bytes" where
  "marshal_endpoint e = put_ip4 (ep_ip e) @ put16 (ep_port e)"

definition welcome_marshal_v3 :: "welcome_msg \<Rightarrow> bytes" where
  "welcome_marshal_v3 m =
     (let n = (if length (w_slaves m) > 255 then 255 else length (w_slaves m))
      in welcome_head WelcomeVersion3 m @ [of_nat n]
         @ concat (map marshal_endpoint (take n (w_slaves m))))"

definition welcome_marshal :: "welcome_msg \<Rightarrow> bytes" where
  "welcome_marshal m =
     (if length (w_slaves m) > 0 then welcome_marshal_v3 m else welcome_head WelcomeVersion m)"

fun parse_slaves :: "bytes \<Rightarrow> nat \<Rightarrow> nat \<Rightarrow> endpoint list" where
  "parse_slaves b off 0 = []"
| "parse_slaves b off (Suc n) =
     (if off + 6 > length b then []
      else \<lparr>ep_ip = slice off (off + 4) b, ep_port = get16 (slice (off + 4) (off + 6) b)\<rparr>
           # parse_slaves b (off + 6) n)"

definition parse_welcome :: "bytes \<Rightarrow> perr + welcome_msg" where
  "parse_welcome b =
     (if length b < 22 then Inl ErrShortPacket
      else if b ! 1 \<noteq> WelcomeVersion \<and> b ! 1 \<noteq> WelcomeVersion3 then Inl ErrBadVersion
      else if b ! 1 = WelcomeVersion3 \<and> length b < 23 then Inl ErrShortPacket
      else Inr \<lparr>w_assigned = slice 2 6 b, w_slave_ip = slice 6 10 b,
                w_slave_port = get16 (slice 10 12 b), w_data_port = get16 (slice 12 14 b),
                w_server_id = slice 14 22 b,
                w_slaves = (if b ! 1 = WelcomeVersion3 then parse_slaves b 23 (unat (b ! 22)) else [])\<rparr>)"

definition wf_welcome :: "welcome_msg \<Rightarrow> bool" where
  "wf_welcome m \<longleftrightarrow> length (w_server_id m) = 8"

text \<open>What a receiver sees of a message: addresses in four-byte form, at most 255 candidates.\<close>

definition canon_endpoint :: "endpoint \<Rightarrow> endpoint" where
  "canon_endpoint e = \<lparr>ep_ip = put_ip4 (ep_ip e), ep_port = ep_port e\<rparr>"

definition canon_welcome :: "welcome_msg \<Rightarrow> welcome_msg" where
  "canon_welcome m = m\<lparr>w_assigned := put_ip4 (w_assigned m), w_slave_ip := put_ip4 (w_slave_ip m),
     w_slaves := map canon_endpoint (take 255 (w_slaves m))\<rparr>"

lemma length_welcome_head [codec]: "wf_welcome m \<Longrightarrow> length (welcome_head v m) = 22"
  by (simp add: welcome_head_def wf_welcome_def)

lemma length_marshal_endpoint [simp, codec]: "length (marshal_endpoint e) = 6"
  by (simp add: marshal_endpoint_def)

lemma length_endpoints [simp, codec]: "length (concat (map marshal_endpoint es)) = 6 * length es"
  by (induction es) simp_all

lemma welcome_head_slices:
  assumes "wf_welcome m" and b: "b = welcome_head v m @ r"
  shows "b ! 1 = v" "slice 2 6 b = put_ip4 (w_assigned m)" "slice 6 10 b = put_ip4 (w_slave_ip m)"
    "slice 10 12 b = put16 (w_slave_port m)" "slice 12 14 b = put16 (w_data_port m)"
    "slice 14 22 b = w_server_id m"
  using assms(1) unfolding b wf_welcome_def
  by (simp_all add: welcome_head_def slice_def)

text \<open>Parsing a list of endpoints cut anywhere returns the whole endpoints before the cut.\<close>

lemma parse_slaves_prefix:
  assumes "length pre = off"
  shows "parse_slaves (pre @ take k (concat (map marshal_endpoint es))) off n =
    map canon_endpoint (take (min n (k div 6)) es)"
  using assms
proof (induction n arbitrary: pre off k es)
  case 0
  then show ?case by simp
next
  case (Suc n)
  show ?case
  proof (cases es)
    case Nil
    then show ?thesis using Suc.prems by simp
  next
    case (Cons e es')
    let ?rest = "concat (map marshal_endpoint es')"
    show ?thesis
    proof (cases "k < 6")
      case True
      then show ?thesis using Suc.prems Cons by simp
    next
      case False
      then have take: "take k (concat (map marshal_endpoint es)) =
          marshal_endpoint e @ take (k - 6) ?rest"
        using Cons by simp
      let ?b = "pre @ marshal_endpoint e @ take (k - 6) ?rest"
      have "parse_slaves ?b (off + 6) n = map canon_endpoint (take (min n ((k - 6) div 6)) es')"
        using Suc.IH[of "pre @ marshal_endpoint e" "off + 6" "k - 6" es'] Suc.prems by simp
      moreover have "slice off (off + 4) ?b = put_ip4 (ep_ip e)"
          "slice (off + 4) (off + 6) ?b = put16 (ep_port e)"
        using Suc.prems by (simp_all add: slice_def marshal_endpoint_def)
      moreover have "min (Suc n) (k div 6) = Suc (min n ((k - 6) div 6))"
        using False by (simp add: le_div_geq)
      ultimately show ?thesis
        using False Suc.prems Cons by (simp add: take canon_endpoint_def)
    qed
  qed
qed

lemma welcome_marshal_v3_eq:
  assumes "w_slaves m \<noteq> []"
  shows "welcome_marshal m = welcome_head WelcomeVersion3 m @
    of_nat (min 255 (length (w_slaves m))) # concat (map marshal_endpoint (take 255 (w_slaves m)))"
proof -
  have "(if 255 < length (w_slaves m) then 255 else length (w_slaves m)) = min 255 (length (w_slaves m))"
    by simp
  moreover have "take (min 255 (length (w_slaves m))) (w_slaves m) = take 255 (w_slaves m)"
    by (simp add: min_def)
  ultimately show ?thesis
    using assms by (simp add: welcome_marshal_def welcome_marshal_v3_def Let_def)
qed

lemma parse_welcome_cut:
  assumes "wf_welcome m" and "w_slaves m \<noteq> []" and "23 \<le> k"
  shows "parse_welcome (take k (welcome_marshal m)) =
    Inr ((canon_welcome m)\<lparr>w_slaves := map canon_endpoint (take ((k - 23) div 6) (take 255 (w_slaves m)))\<rparr>)"
proof -
  let ?n = "min 255 (length (w_slaves m))"
  let ?es = "take 255 (w_slaves m)"
  let ?tail = "take (k - 23) (concat (map marshal_endpoint ?es))"
  let ?pre = "welcome_head WelcomeVersion3 m @ [of_nat ?n]"
  let ?b = "?pre @ ?tail"
  have hd: "length (welcome_head WelcomeVersion3 m) = 22"
    using assms(1) by (rule length_welcome_head)
  have cut: "take k (welcome_marshal m) = ?b"
    using assms(2,3) hd by (simp add: welcome_marshal_v3_eq take_Cons' numeral_eq_Suc)
  have n: "unat (of_nat ?n :: byte) = ?n"
    by (simp add: unat_of_nat)
  have "?b ! 22 = of_nat ?n"
    using hd by (simp add: nth_append)
  moreover have "parse_slaves ?b 23 ?n = map canon_endpoint (take (min ?n ((k - 23) div 6)) ?es)"
    using hd by (intro parse_slaves_prefix) simp
  moreover have "take (min ?n ((k - 23) div 6)) ?es = take ((k - 23) div 6) ?es"
    by (simp add: min_def)
  ultimately show ?thesis
    using welcome_head_slices[OF assms(1), of ?b WelcomeVersion3 "of_nat ?n # ?tail"] hd n
    by (simp add: cut parse_welcome_def canon_welcome_def WelcomeVersion_def WelcomeVersion3_def)
qed

lemma parse_welcome_v2:
  assumes "wf_welcome m" and "w_slaves m = []"
  shows "parse_welcome (welcome_marshal m @ r) = Inr (canon_welcome m)"
  using welcome_head_slices[OF assms(1), OF refl, of WelcomeVersion r] assms length_welcome_head[OF assms(1)]
  by (simp add: parse_welcome_def welcome_marshal_def canon_welcome_def WelcomeVersion_def WelcomeVersion3_def)

lemma parse_welcome_full:
  assumes "wf_welcome m"
  shows "parse_welcome (welcome_marshal m) = Inr (canon_welcome m)"
proof (cases "w_slaves m = []")
  case True
  then show ?thesis
    using parse_welcome_v2[OF assms True, of "[]"] by simp
next
  case False
  let ?k = "length (welcome_marshal m)" and ?n = "min 255 (length (w_slaves m))"
  have k: "?k = 23 + 6 * ?n"
    using assms False by (simp add: welcome_marshal_v3_eq length_welcome_head min.commute)
  moreover have "take ?n (take 255 (w_slaves m)) = take 255 (w_slaves m)"
    by (simp add: min_def)
  ultimately show ?thesis
    using parse_welcome_cut[OF assms False, of ?k] by (simp add: canon_welcome_def)
qed

section \<open>SlaveChoice\<close>

record slave_choice =
  sc_tunnel_ip :: ip
  sc_slave_ip :: ip
  sc_slave_port :: u16

definition choice_marshal :: "slave_choice \<Rightarrow> bytes" where
  "choice_marshal m = [CtrlSlaveChoice, 1] @ put_ip4 (sc_tunnel_ip m) @ put_ip4 (sc_slave_ip m)
     @ put16 (sc_slave_port m)"

definition parse_slave_choice :: "bytes \<Rightarrow> perr + slave_choice" where
  "parse_slave_choice b =
     (if length b < 12 then Inl ErrShortPacket
      else if b ! 0 \<noteq> CtrlSlaveChoice then Inl ErrBadVersion
      else Inr \<lparr>sc_tunnel_ip = slice 2 6 b, sc_slave_ip = slice 6 10 b,
                sc_slave_port = get16 (slice 10 12 b)\<rparr>)"

lemma choice_roundtrip_ext:
  "parse_slave_choice (choice_marshal m @ r) =
     Inr \<lparr>sc_tunnel_ip = put_ip4 (sc_tunnel_ip m), sc_slave_ip = put_ip4 (sc_slave_ip m),
          sc_slave_port = sc_slave_port m\<rparr>"
  by (simp add: parse_slave_choice_def choice_marshal_def slice_def)

section \<open>SlaveSession\<close>

record slave_session =
  ss_id :: bytes
  ss_client_ip :: ip
  ss_client_port :: u16
  ss_tunnel_ip :: ip

definition wf_slave_session :: "slave_session \<Rightarrow> bool" where
  "wf_slave_session m \<longleftrightarrow> length (ss_id m) = 16"

definition session_marshal :: "slave_session \<Rightarrow> bytes" where
  "session_marshal m = ss_id m @ put_ip4 (ss_client_ip m) @ put16 (ss_client_port m)
     @ put_ip4 (ss_tunnel_ip m)"

definition parse_slave_session :: "bytes \<Rightarrow> perr + slave_session" where
  "parse_slave_session b =
     (if length b < 26 then Inl ErrShortPacket
      else Inr \<lparr>ss_id = slice 0 16 b, ss_client_ip = slice 16 20 b,
                ss_client_port = get16 (slice 20 22 b), ss_tunnel_ip = slice 22 26 b\<rparr>)"

lemma session_roundtrip_ext:
  "wf_slave_session m \<Longrightarrow> parse_slave_session (session_marshal m @ r) =
     Inr (m\<lparr>ss_client_ip := put_ip4 (ss_client_ip m), ss_tunnel_ip := put_ip4 (ss_tunnel_ip m)\<rparr>)"
  by (simp add: parse_slave_session_def session_marshal_def wf_slave_session_def slice_def)

section \<open>Properties\<close>

text \<open>Welcome round trip: a client parses what the master marshals into the same message, up to
  the four-byte form of the addresses and the limit of 255 candidates; a version-3 welcome cut
  anywhere behind its count byte still parses, with the candidates that arrived whole.\<close>

theorem welcome_roundtrip:
  assumes "wf_welcome m"
  shows "parse_welcome (welcome_marshal m) = Inr (canon_welcome m)
    \<and> (w_slaves m \<noteq> [] \<longrightarrow> 23 \<le> k \<longrightarrow> parse_welcome (take k (welcome_marshal m)) =
        Inr ((canon_welcome m)\<lparr>w_slaves := map canon_endpoint (take ((k - 23) div 6) (take 255 (w_slaves m)))\<rparr>))"
  using parse_welcome_full[OF assms] parse_welcome_cut[OF assms] by blast

definition sample_welcome :: welcome_msg where
  "sample_welcome = \<lparr>w_assigned = [10, 8, 0, 2], w_slave_ip = [203, 0, 113, 9], w_slave_port = 7002,
     w_data_port = 40000, w_server_id = [1, 2, 3, 4, 5, 6, 7, 8],
     w_slaves = [\<lparr>ep_ip = [203, 0, 113, 9], ep_port = 7002\<rparr>, \<lparr>ep_ip = [198, 51, 100, 7], ep_port = 7002\<rparr>]\<rparr>"

theorem welcome_roundtrip_witness:
  "parse_welcome (welcome_marshal sample_welcome) = Inr sample_welcome
   \<and> parse_welcome (take 34 (welcome_marshal sample_welcome)) =
       Inr (sample_welcome\<lparr>w_slaves := [\<lparr>ep_ip = [203, 0, 113, 9], ep_port = 7002\<rparr>]\<rparr>)"
  using welcome_roundtrip[of sample_welcome 34]
  by (simp add: sample_welcome_def wf_welcome_def canon_welcome_def canon_endpoint_def put_ip4_def to4_def)

text \<open>Hello round trip: a marshalled hello, whatever follows it in the datagram, parses back to
  itself when its version is known and is refused otherwise, and what is parsed re-serialises
  to the 26 signed bytes that were received.\<close>

theorem hello_roundtrip:
  assumes "wf_hello m"
  shows "parse_hello (hello_marshal m @ r) =
      (if h_version m = HelloVersion \<or> h_version m = HelloVersion3 then Inr m else Inl ErrBadVersion)
    \<and> (\<forall>b h. parse_hello b = Inr h \<longrightarrow> hello_unsigned h = CtrlHello # slice 1 26 b \<and> h_mac h = slice 26 58 b)"
  using hello_roundtrip_ext[OF assms] parse_hello_inv(2,3) by blast

theorem hello_roundtrip_witness:
  "parse_hello (hello_marshal \<lparr>h_version = 3, h_timestamp = 1700000000, h_nonce = replicate 16 7, h_mac = replicate 32 9\<rparr> @ [1])
   = Inr \<lparr>h_version = 3, h_timestamp = 1700000000, h_nonce = replicate 16 7, h_mac = replicate 32 9\<rparr>"
  using hello_roundtrip[of "\<lparr>h_version = 3, h_timestamp = 1700000000, h_nonce = replicate 16 7, h_mac = replicate 32 9\<rparr>" "[1]"]
  by (simp add: wf_hello_def HelloVersion3_def)

text \<open>The other control messages round trip: the slave choice and the binary session message,
  with addresses in four-byte form, whatever follows them.\<close>

theorem control_messages_roundtrip:
  assumes "wf_slave_session s"
  shows "parse_slave_choice (choice_marshal c @ r) =
      Inr \<lparr>sc_tunnel_ip = put_ip4 (sc_tunnel_ip c), sc_slave_ip = put_ip4 (sc_slave_ip c), sc_slave_port = sc_slave_port c\<rparr>
    \<and> parse_slave_session (session_marshal s @ r) =
      Inr (s\<lparr>ss_client_ip := put_ip4 (ss_client_ip s), ss_tunnel_ip := put_ip4 (ss_tunnel_ip s)\<rparr>)"
  using choice_roundtrip_ext session_roundtrip_ext[OF assms] by blast

theorem control_messages_roundtrip_witness:
  "parse_slave_session (session_marshal \<lparr>ss_id = replicate 16 5, ss_client_ip = [192, 0, 2, 1], ss_client_port = 5000, ss_tunnel_ip = [10, 8, 0, 2]\<rparr>)
   = Inr \<lparr>ss_id = replicate 16 5, ss_client_ip = [192, 0, 2, 1], ss_client_port = 5000, ss_tunnel_ip = [10, 8, 0, 2]\<rparr>"
  using control_messages_roundtrip[of "\<lparr>ss_id = replicate 16 5, ss_client_ip = [192, 0, 2, 1], ss_client_port = 5000, ss_tunnel_ip = [10, 8, 0, 2]\<rparr>" undefined "[]"]
  by (simp add: wf_slave_session_def put_ip4_def)

lemma put_ip4_4: "length a = 4 \<Longrightarrow> put_ip4 a = a"
  by (simp add: put_ip4_def to4_def)

lemma parse_slaves_canon:
  "length (parse_slaves b off n) \<le> n \<and> map canon_endpoint (parse_slaves b off n) = parse_slaves b off n"
  by (induction b off n rule: parse_slaves.induct) (auto simp: canon_endpoint_def put_ip4_4)

lemma unat_bound: "unat (x :: byte) \<le> 255"
  using unsigned_less[of x, where ?'a = nat] by simp

lemma parse_welcome_canon:
  assumes "parse_welcome b = Inr w"
  shows "wf_welcome w" "canon_welcome w = w"
proof -
  let ?n = "unat (b ! 22)"
  have n: "?n \<le> 255" using unat_bound[of "b ! 22"] by simp
  have s: "length (w_slaves w) \<le> 255 \<and> map canon_endpoint (w_slaves w) = w_slaves w"
    using assms n parse_slaves_canon[of b 23 ?n] by (auto simp: parse_welcome_def split: if_splits)
  show "wf_welcome w" using assms by (auto simp: parse_welcome_def wf_welcome_def split: if_splits)
  show "canon_welcome w = w"
    using assms s by (auto simp: parse_welcome_def canon_welcome_def put_ip4_4 split: if_splits)
qed

lemma parse_choice_canon:
  "parse_slave_choice b = Inr c \<Longrightarrow> put_ip4 (sc_tunnel_ip c) = sc_tunnel_ip c \<and> put_ip4 (sc_slave_ip c) = sc_slave_ip c"
  by (auto simp: parse_slave_choice_def put_ip4_4 split: if_splits)

text \<open>C18. Parsed messages are well-formed: whatever bytes a hello, welcome or slave choice was parsed from, the
  fixed-size fields have their size, every address has four bytes, there are at most 255
  candidates, and marshalling the message gives bytes that parse to the same message.\<close>

theorem parsed_messages_wellformed:
  assumes "parse_hello bh = Inr h" and "parse_welcome bw = Inr w" and "parse_slave_choice bc = Inr c"
  shows "length (h_nonce h) = 16 \<and> length (h_mac h) = 32 \<and> parse_hello (hello_marshal h) = Inr h
    \<and> length (w_server_id w) = 8 \<and> length (w_slaves w) \<le> 255
    \<and> (\<forall>a \<in> {w_assigned w, w_slave_ip w, sc_tunnel_ip c, sc_slave_ip c} \<union> ep_ip ` set (w_slaves w). length a = 4)
    \<and> parse_welcome (welcome_marshal w) = Inr w \<and> parse_slave_choice (choice_marshal c) = Inr c"
proof -
  have w: "w_assigned w = put_ip4 (w_assigned w)" "w_slave_ip w = put_ip4 (w_slave_ip w)"
    "w_slaves w = map canon_endpoint (take 255 (w_slaves w))"
    using arg_cong[OF parse_welcome_canon(2)[OF assms(2)], of w_assigned] arg_cong[OF parse_welcome_canon(2)[OF assms(2)], of w_slave_ip]
      arg_cong[OF parse_welcome_canon(2)[OF assms(2)], of w_slaves] by (simp_all add: canon_welcome_def)
  have "length a = 4" if "a \<in> {w_assigned w, w_slave_ip w, sc_tunnel_ip c, sc_slave_ip c} \<union> ep_ip ` set (w_slaves w)" for a
  proof -
    have "length (put_ip4 a) = 4 \<and> a = put_ip4 a"
    proof (cases "a \<in> ep_ip ` set (w_slaves w)")
      case True
      then obtain e where "e \<in> set (w_slaves w)" "a = ep_ip e" by blast
      then have "e \<in> canon_endpoint ` set (take 255 (w_slaves w))" using arg_cong[OF w(3), of set] by simp
      then show ?thesis using \<open>a = ep_ip e\<close> by (auto simp: canon_endpoint_def put_ip4_4)
    next
      case False
      then show ?thesis using that w(1,2) parse_choice_canon[OF assms(3)] by auto
    qed
    then show ?thesis by metis
  qed
  moreover have "length (w_slaves w) \<le> 255" by (subst w(3)) simp
  ultimately show ?thesis
    using parse_hello_inv(1,4)[OF assms(1)] hello_roundtrip_ext[of h "[]"] parse_welcome_full[OF parse_welcome_canon(1)[OF assms(2)]]
      parse_welcome_canon[OF assms(2)] choice_roundtrip_ext[of c "[]"] parse_choice_canon[OF assms(3)]
    by (auto simp: wf_hello_def wf_welcome_def)
qed

theorem parsed_messages_wellformed_witness:
  "parse_welcome (welcome_marshal sample_welcome) = Inr sample_welcome
   \<and> parse_slave_choice (choice_marshal \<lparr>sc_tunnel_ip = [10, 8, 0, 2], sc_slave_ip = [203, 0, 113, 9], sc_slave_port = 7002\<rparr>)
      = Inr \<lparr>sc_tunnel_ip = [10, 8, 0, 2], sc_slave_ip = [203, 0, 113, 9], sc_slave_port = 7002\<rparr>"
proof -
  have h: "parse_hello ([1, 3] @ replicate 56 0) = Inr \<lparr>h_version = 3, h_timestamp = get64 (replicate 8 0), h_nonce = replicate 16 0, h_mac = replicate 32 0\<rparr>"
    by (simp add: parse_hello_def proto_consts slice_def)
  have w: "parse_welcome (welcome_marshal sample_welcome) = Inr sample_welcome"
    using parse_welcome_full[of sample_welcome]
    by (simp add: sample_welcome_def wf_welcome_def canon_welcome_def canon_endpoint_def put_ip4_def to4_def)
  have c: "parse_slave_choice [5, 1, 10, 8, 0, 2, 203, 0, 113, 9, 0x1B, 0x5A]
      = Inr \<lparr>sc_tunnel_ip = [10, 8, 0, 2], sc_slave_ip = [203, 0, 113, 9], sc_slave_port = 7002\<rparr>"
    by (simp add: parse_slave_choice_def proto_consts slice_def get16_def)
  show ?thesis using parsed_messages_wellformed[OF h w c] by simp
qed

end
