(* ===== verification/DataPlane.thy ===== *)
theory DataPlane
  imports Crypto Protocol
begin

text \<open>
  The encrypted UDP channel between master and slaves, \<open>master/dataplane\<close>: the master's
  registry of slave endpoints, the frames in both directions and the bodies of the two read
  loops. The endpoint objects are shared by two maps, so they live in a heap. The
  \<open>datagram_channel\<close> locale is the contract of a framed, sealed channel over datagrams.
\<close>

section \<open>Framing\<close>

definition MsgTypeData :: byte where "MsgTypeData = 0xDA"
definition MsgTypeUplink :: byte where "MsgTypeUplink = 0xDB"

definition dp_frame :: "byte \<Rightarrow> bytes \<Rightarrow> bytes" where
  "dp_frame t ct = t # put16 (of_nat (length ct)) @ ct"

text \<open>
  The check both read loops make before they slice \<open>buf[3:3+length]\<close>. The upper index is
  computed on \<open>uint16\<close>; \<open>Inl ()\<close> is the panic of a slice whose bounds are out of order.
\<close>

definition dp_unframe :: "byte \<Rightarrow> bytes \<Rightarrow> (unit + bytes) option" where
  "dp_unframe t buf =
     (let n = length buf in
      if n < 3 \<or> buf ! 0 \<noteq> t then None
      else let len = get16 (slice 1 3 buf) in
        if unat len > n - 3 then None
        else let hi = unat (3 + len) in
          if hi < 3 then Some (Inl ()) else Some (Inr (slice 3 hi buf)))"

text \<open>A datagram of at most 65535 bytes, the size of the buffer, cannot make the index wrap.\<close>

lemma dp_unframe_no_panic:
  assumes "length buf \<le> 65535"
  shows "dp_unframe t buf \<noteq> Some (Inl ())"
proof -
  have "3 \<le> unat (3 + len)" if "unat len \<le> length buf - 3" "3 \<le> length buf" for len :: u16
    using that assms by (simp add: unat_word_ariths)
  from this[of "get16 (slice 1 3 buf)"] show ?thesis
    by (auto simp: dp_unframe_def Let_def not_less split: if_splits)
qed

lemma dp_unframe_exact:
  assumes "length buf \<le> 65535"
  shows "dp_unframe t buf =
    (if length buf < 3 \<or> buf ! 0 \<noteq> t \<or> length buf < 3 + unat (get16 (slice 1 3 buf)) then None
     else Some (Inr (slice 3 (3 + unat (get16 (slice 1 3 buf))) buf)))"
proof -
  have "unat (3 + len) = 3 + unat len" if "unat len \<le> length buf - 3" "3 \<le> length buf" for len :: u16
    using that assms by (simp add: unat_word_ariths)
  from this[of "get16 (slice 1 3 buf)"] show ?thesis
    by (auto simp: dp_unframe_def Let_def not_less)
qed

lemma dp_unframe_frame:
  assumes "3 + length ct \<le> 65535"
  shows "dp_unframe t (dp_frame t ct) = Some (Inr ct)"
proof -
  have len: "unat (of_nat (length ct) :: u16) = length ct" "unat (3 + of_nat (length ct) :: u16) = 3 + length ct"
    using assms by (simp_all add: unat_of_nat unat_word_ariths)
  have "slice 1 3 (dp_frame t ct) = put16 (of_nat (length ct))" "slice 3 (3 + length ct) (dp_frame t ct) = ct"
    by (simp_all add: dp_frame_def slice_def put16_def)
  then show ?thesis
    by (simp add: dp_unframe_def Let_def len) (simp add: dp_frame_def)
qed

section \<open>The master's side\<close>

record slave_data =
  sd_addr :: udpaddr
  sd_aead :: "aead option"
  sd_id :: string

record dataplane =
  dconns :: "slave_data list"
  dslaves :: "string \<rightharpoonup> nat"
  dby_addr :: "string \<rightharpoonup> nat"
  dkey :: bytes

definition new_dataplane :: "bytes \<Rightarrow> dataplane" where
  "new_dataplane key = \<lparr>dconns = [], dslaves = Map.empty, dby_addr = Map.empty, dkey = key\<rparr>"

definition slave_key :: "bytes \<Rightarrow> string \<Rightarrow> bytes" where
  "slave_key master_key i = derive_key master_key (str_bytes i)"

text \<open>\<open>rnd\<close> is what \<open>NewAEAD\<close> drew; its error is dropped and leaves a nil cipher.\<close>

definition register_slave :: "bytes option \<Rightarrow> string \<Rightarrow> udpaddr \<Rightarrow> dataplane \<Rightarrow> dataplane" where
  "register_slave rnd i addr dp =
     (let a = new_aead (slave_key (dkey dp) i) rnd; p = length (dconns dp)
      in dp\<lparr>dconns := dconns dp @ [\<lparr>sd_addr = addr, sd_aead = a, sd_id = i\<rparr>],
            dslaves := (dslaves dp)(i \<mapsto> p), dby_addr := (dby_addr dp)(udp_string addr \<mapsto> p)\<rparr>)"

datatype dp_send = NoSuchSlave | NilCipher | SealError cerr | SentTo udpaddr bytes

definition send_to_slave :: "cipher \<Rightarrow> string \<Rightarrow> bytes \<Rightarrow> dataplane \<Rightarrow> dp_send \<times> dataplane" where
  "send_to_slave C i pkt dp =
     (case dslaves dp i of
        None \<Rightarrow> (NoSuchSlave, dp)
      | Some p \<Rightarrow> (let sc = dconns dp ! p in
          case sd_aead sc of
            None \<Rightarrow> (NilCipher, dp)
          | Some a \<Rightarrow> (case aead_seal C a pkt of (r, a') \<Rightarrow>
              (case r of Inl e \<Rightarrow> SealError e | Inr ct \<Rightarrow> SentTo (sd_addr sc) (dp_frame MsgTypeData ct),
               dp\<lparr>dconns := (dconns dp)[p := sc\<lparr>sd_aead := Some a'\<rparr>]\<rparr>))))"

datatype dp_recv = Ignored | Panicked | Relayed ip bytes

definition master_dp_read :: "cipher \<Rightarrow> udpaddr \<Rightarrow> bytes \<Rightarrow> dataplane \<Rightarrow> dp_recv" where
  "master_dp_read C src buf dp =
     (case dp_unframe MsgTypeUplink buf of
        None \<Rightarrow> Ignored
      | Some slc \<Rightarrow>
          (case dby_addr dp (udp_string src) of
             None \<Rightarrow> Ignored
           | Some p \<Rightarrow>
               (case slc of
                  Inl _ \<Rightarrow> Panicked
                | Inr ct \<Rightarrow>
                    (case sd_aead (dconns dp ! p) of
                       None \<Rightarrow> Panicked
                     | Some a \<Rightarrow>
                         (case aead_open C a ct of
                            Inl _ \<Rightarrow> Ignored
                          | Inr plain \<Rightarrow>
                              if length plain < 4 then Ignored
                              else Relayed (take 4 plain) (drop 4 plain))))))"

section \<open>The slave's side\<close>

definition build_uplink_frame :: "cipher \<Rightarrow> aead \<Rightarrow> ip \<Rightarrow> bytes \<Rightarrow> (cerr + bytes) \<times> aead" where
  "build_uplink_frame C a tunnel_ip ct =
     (case aead_seal C a (put_ip4 tunnel_ip @ ct) of
        (Inl e, a') \<Rightarrow> (Inl e, a')
      | (Inr s, a') \<Rightarrow> (Inr (dp_frame MsgTypeUplink s), a'))"

datatype slave_recv = SIgnored | SPanicked | SPacket bytes

definition slave_dp_read :: "cipher \<Rightarrow> aead \<Rightarrow> bytes \<Rightarrow> slave_recv" where
  "slave_dp_read C a buf =
     (case dp_unframe MsgTypeData buf of
        None \<Rightarrow> SIgnored
      | Some (Inl _) \<Rightarrow> SPanicked
      | Some (Inr ct) \<Rightarrow> (case aead_open C a ct of Inl _ \<Rightarrow> SIgnored | Inr pt \<Rightarrow> SPacket pt))"

section \<open>Registration\<close>

text \<open>What registration keeps: every endpoint's cipher has the key the slave derives itself.\<close>

definition conn_ok :: "bytes \<Rightarrow> slave_data \<Rightarrow> bool" where
  "conn_ok k c \<longleftrightarrow> (case sd_aead c of None \<Rightarrow> True
     | Some a \<Rightarrow> wf_aead a \<and> a_key a = slave_key k (sd_id c))"

definition dp_inv :: "dataplane \<Rightarrow> bool" where
  "dp_inv dp \<longleftrightarrow> list_all (conn_ok (dkey dp)) (dconns dp)
   \<and> (\<forall>i p. dslaves dp i = Some p \<longrightarrow> p < length (dconns dp) \<and> sd_id (dconns dp ! p) = i)
   \<and> (\<forall>s p. dby_addr dp s = Some p \<longrightarrow> p < length (dconns dp) \<and> udp_string (sd_addr (dconns dp ! p)) = s)"

lemma dp_inv_new: "dp_inv (new_dataplane key)"
  by (simp add: dp_inv_def new_dataplane_def)

lemma dp_inv_register:
  assumes "dp_inv dp" and "\<forall>r. rnd = Some r \<longrightarrow> length r = 8"
  shows "dp_inv (register_slave rnd i addr dp)"
proof -
  have "conn_ok (dkey dp) \<lparr>sd_addr = addr, sd_aead = new_aead (slave_key (dkey dp) i) rnd, sd_id = i\<rparr>"
    using assms(2) by (cases rnd) (auto simp: conn_ok_def new_aead_def wf_aead_def)
  with assms(1) show ?thesis
    by (auto simp: dp_inv_def register_slave_def Let_def nth_append intro: less_SucI)
qed

lemma aead_seal_wf: "wf_aead a \<Longrightarrow> wf_aead (snd (aead_seal C a p))"
  by (simp add: wf_aead_def)

lemma dp_inv_send:
  assumes "dp_inv dp"
  shows "dp_inv (snd (send_to_slave C i pkt dp))"
proof (cases "\<exists>p a. dslaves dp i = Some p \<and> sd_aead (dconns dp ! p) = Some a")
  case False
  with assms show ?thesis
    by (auto simp: send_to_slave_def Let_def split: option.splits)
next
  case True
  then obtain p a where p: "dslaves dp i = Some p" and a: "sd_aead (dconns dp ! p) = Some a"
    by blast
  have len: "p < length (dconns dp)"
    using assms p unfolding dp_inv_def by blast
  let ?sc = "(dconns dp ! p)\<lparr>sd_aead := Some (snd (aead_seal C a pkt))\<rparr>"
  have snd: "snd (send_to_slave C i pkt dp) = dp\<lparr>dconns := (dconns dp)[p := ?sc]\<rparr>"
    using p a by (simp add: send_to_slave_def Let_def split: prod.splits)
  have all: "\<forall>c \<in> set (dconns dp). conn_ok (dkey dp) c"
    using assms by (simp add: dp_inv_def list_all_iff)
  then have "conn_ok (dkey dp) ?sc"
    using a len nth_mem[OF len] by (fastforce simp: conn_ok_def aead_seal_wf)
  with all have "list_all (conn_ok (dkey dp)) ((dconns dp)[p := ?sc])"
    unfolding list_all_iff using set_update_subset_insert by fastforce
  moreover have same: "sd_id ((dconns dp)[p := ?sc] ! q) = sd_id (dconns dp ! q)"
    "sd_addr ((dconns dp)[p := ?sc] ! q) = sd_addr (dconns dp ! q)" if "q < length (dconns dp)" for q
    using that by (cases "p = q"; simp)+
  ultimately show ?thesis
    using assms
    unfolding snd by (simp add: dp_inv_def)
qed

lemma register_lookup:
  "dslaves (register_slave rnd i addr dp) i = Some (length (dconns dp))"
  "dby_addr (register_slave rnd i addr dp) (udp_string addr) = Some (length (dconns dp))"
  "dconns (register_slave rnd i addr dp) ! length (dconns dp) =
     \<lparr>sd_addr = addr, sd_aead = new_aead (slave_key (dkey dp) i) rnd, sd_id = i\<rparr>"
  by (simp_all add: register_slave_def Let_def)

text \<open>A datagram from an address that no slave registered is ignored.\<close>

lemma unknown_source_ignored: "dby_addr dp (udp_string src) = None \<Longrightarrow> master_dp_read C src buf dp = Ignored"
  by (simp add: master_dp_read_def split: option.splits)

section \<open>The channel contract\<close>

locale datagram_channel =
  fixes send :: "'s \<Rightarrow> 'm \<Rightarrow> bytes option \<times> 's"
    and recv :: "'r \<Rightarrow> bytes \<Rightarrow> 'm option"
    and paired :: "'s \<Rightarrow> 'r \<Rightarrow> bool"
    and fits :: "'m \<Rightarrow> bool"
  assumes delivered: "paired s r \<Longrightarrow> fits m \<Longrightarrow> send s m = (Some f, s') \<Longrightarrow> recv r f = Some m"
    and paired_send: "paired s r \<Longrightarrow> paired (snd (send s m)) r"
begin

fun send_many :: "'s \<Rightarrow> 'm list \<Rightarrow> bytes option list" where
  "send_many s [] = []"
| "send_many s (m # ms) = (case send s m of (f, s') \<Rightarrow> f # send_many s' ms)"

text \<open>
  Whatever frames were produced are each received as the message they carry, so loss,
  duplication and reordering of datagrams lose, duplicate and reorder messages, no more.
\<close>

lemma all_delivered:
  "paired s r \<Longrightarrow> list_all fits ms \<Longrightarrow> i < length ms \<Longrightarrow> send_many s ms ! i = Some f \<Longrightarrow>
     recv r f = Some (ms ! i)"
proof (induction s ms arbitrary: i rule: send_many.induct)
  case (2 s m ms)
  obtain g s' where g: "send s m = (g, s')" by (cases "send s m")
  have "paired s' r"
    using paired_send[OF "2.prems"(1), of m] g by simp
  with 2 g show ?case
    by (cases i) (auto intro: delivered)
qed simp

lemma length_send_many [simp]: "length (send_many s ms) = length ms"
  by (induction s ms rule: send_many.induct) (simp_all split: prod.splits)

end

text \<open>Both directions of the data plane are such channels, for any cipher that inverts.\<close>

definition up_send :: "cipher \<times> aead \<Rightarrow> ip \<times> bytes \<Rightarrow> bytes option \<times> cipher \<times> aead" where
  "up_send s m = (case build_uplink_frame (fst s) (snd s) (fst m) (snd m) of
     (r, a') \<Rightarrow> (case r of Inl _ \<Rightarrow> None | Inr f \<Rightarrow> Some f, fst s, a'))"

definition up_recv :: "cipher \<times> udpaddr \<times> dataplane \<Rightarrow> bytes \<Rightarrow> (ip \<times> bytes) option" where
  "up_recv r f = (case master_dp_read (fst r) (fst (snd r)) f (snd (snd r)) of
     Relayed a ct \<Rightarrow> Some (a, ct) | _ \<Rightarrow> None)"

definition up_paired :: "cipher \<times> aead \<Rightarrow> cipher \<times> udpaddr \<times> dataplane \<Rightarrow> bool" where
  "up_paired s r \<longleftrightarrow> fst s = fst r \<and> cipher_ok (fst s) \<and> wf_aead (snd s)
     \<and> (\<exists>p b. dby_addr (snd (snd r)) (udp_string (fst (snd r))) = Some p
          \<and> sd_aead (dconns (snd (snd r)) ! p) = Some b \<and> a_key b = a_key (snd s))"

definition up_fits :: "ip \<times> bytes \<Rightarrow> bool" where
  "up_fits m \<longleftrightarrow> length (fst m) = 4 \<and> length (snd m) \<le> 65500"

lemma snd_build_uplink: "snd (build_uplink_frame C a t c) = snd (aead_seal C a (put_ip4 t @ c))"
  by (simp add: build_uplink_frame_def split: prod.splits sum.splits)

lemma build_uplink_relayed:
  assumes "cipher_ok C" and "wf_aead a" and "build_uplink_frame C a tip ct = (Inr f, a')"
    and "length ct \<le> 65500" and "dby_addr dp (udp_string src) = Some p"
    and "sd_aead (dconns dp ! p) = Some b" and "a_key b = a_key a"
  shows "master_dp_read C src f dp = Relayed (put_ip4 tip) ct"
proof -
  obtain s where seal: "aead_seal C a (put_ip4 tip @ ct) = (Inr s, a')" and f: "f = dp_frame MsgTypeUplink s"
    using assms(3) by (auto simp: build_uplink_frame_def split: prod.splits sum.splits)
  have opened: "aead_open C b s = Inr (put_ip4 tip @ ct)" "length s = length ct + 32"
    using aead_open_seal[OF assms(1,2,7) seal] by simp_all
  with assms(4) have "dp_unframe MsgTypeUplink f = Some (Inr s)"
    unfolding f by (intro dp_unframe_frame) simp
  then show ?thesis
    using opened assms(5,6) by (simp add: master_dp_read_def)
qed

lemma send_to_slave_received:
  assumes "cipher_ok C" and "dslaves dp i = Some p" and "sd_aead (dconns dp ! p) = Some a" and "wf_aead a"
    and "send_to_slave C i pkt dp = (SentTo dst f, dp')" and "length pkt \<le> 65500" and "a_key b = a_key a"
  shows "slave_dp_read C b f = SPacket pkt" "dst = sd_addr (dconns dp ! p)"
proof -
  obtain ct a' where seal: "aead_seal C a pkt = (Inr ct, a')" and f: "f = dp_frame MsgTypeData ct"
    and dst: "dst = sd_addr (dconns dp ! p)"
    using assms(2,3,5) by (auto simp: send_to_slave_def Let_def split: prod.splits sum.splits)
  have opened: "aead_open C b ct = Inr pkt" "length ct = length pkt + 28"
    using aead_open_seal[OF assms(1,4,7) seal] by simp_all
  with assms(6) have "dp_unframe MsgTypeData f = Some (Inr ct)"
    unfolding f by (intro dp_unframe_frame) simp
  then show "slave_dp_read C b f = SPacket pkt"
    using opened by (simp add: slave_dp_read_def)
  show "dst = sd_addr (dconns dp ! p)" by (rule dst)
qed

interpretation uplink: datagram_channel up_send up_recv up_paired up_fits
proof unfold_locales
  fix s r m f s'
  assume p: "up_paired s r" and m: "up_fits m" and snd: "up_send s m = (Some f, s')"
  obtain a' where "build_uplink_frame (fst s) (snd s) (fst m) (snd m) = (Inr f, a')"
    using snd by (auto simp: up_send_def split: prod.splits sum.splits)
  then show "up_recv r f = Some m"
    using p m build_uplink_relayed[of "fst s" "snd s" "fst m" "snd m" f a' "snd (snd r)" "fst (snd r)"]
    by (auto simp: up_paired_def up_fits_def up_recv_def put_ip4_v4)
next
  fix s r m
  assume "up_paired s r"
  moreover have "fst (snd (up_send s m)) = fst s"
    "snd (snd (up_send s m)) = snd (aead_seal (fst s) (snd s) (put_ip4 (fst m) @ snd m))"
    using snd_build_uplink[of "fst s" "snd s" "fst m" "snd m"]
    by (cases "build_uplink_frame (fst s) (snd s) (fst m) (snd m)"; simp add: up_send_def)+
  ultimately show "up_paired (snd (up_send s m)) r"
    by (auto simp: up_paired_def aead_seal_wf)
qed

text \<open>The downlink frames of one registered slave, received by that slave.\<close>

definition down_send :: "cipher \<times> string \<times> dataplane \<Rightarrow> bytes \<Rightarrow> bytes option \<times> cipher \<times> string \<times> dataplane" where
  "down_send s m = (case send_to_slave (fst s) (fst (snd s)) m (snd (snd s)) of
     (r, dp') \<Rightarrow> (case r of SentTo _ f \<Rightarrow> Some f | _ \<Rightarrow> None, fst s, fst (snd s), dp'))"

definition down_recv :: "cipher \<times> aead \<Rightarrow> bytes \<Rightarrow> bytes option" where
  "down_recv r f = (case slave_dp_read (fst r) (snd r) f of SPacket p \<Rightarrow> Some p | _ \<Rightarrow> None)"

definition down_paired :: "cipher \<times> string \<times> dataplane \<Rightarrow> cipher \<times> aead \<Rightarrow> bool" where
  "down_paired s r \<longleftrightarrow> fst s = fst r \<and> cipher_ok (fst s) \<and> dp_inv (snd (snd s))
     \<and> a_key (snd r) = slave_key (dkey (snd (snd s))) (fst (snd s))"

lemma send_to_slave_key [simp]:
  "dkey (snd (send_to_slave C i pkt dp)) = dkey dp" "dslaves (snd (send_to_slave C i pkt dp)) = dslaves dp"
  "dby_addr (snd (send_to_slave C i pkt dp)) = dby_addr dp"
  by (simp_all add: send_to_slave_def Let_def split: option.splits prod.splits)

lemma send_to_slave_inv:
  assumes "cipher_ok C" and "dp_inv dp" and "a_key b = slave_key (dkey dp) i"
    and "send_to_slave C i pkt dp = (SentTo dst f, dp')" and "length pkt \<le> 65500"
  shows "slave_dp_read C b f = SPacket pkt"
proof -
  obtain p a where p: "dslaves dp i = Some p" and a: "sd_aead (dconns dp ! p) = Some a"
    using assms(4) by (auto simp: send_to_slave_def Let_def split: option.splits)
  have len: "p < length (dconns dp)" and id: "sd_id (dconns dp ! p) = i"
    using assms(2) p unfolding dp_inv_def by blast+
  have "conn_ok (dkey dp) (dconns dp ! p)"
    using assms(2) len by (simp add: dp_inv_def list_all_length)
  then have "wf_aead a" "a_key b = a_key a"
    using a id assms(3) by (simp_all add: conn_ok_def)
  then show ?thesis
    using send_to_slave_received(1)[OF assms(1) p a _ assms(4,5)] by blast
qed

interpretation downlink: datagram_channel down_send down_recv down_paired "\<lambda>m. length m \<le> 65500"
proof unfold_locales
  fix s r m f s'
  assume p: "down_paired s r" and m: "length m \<le> 65500" and snd: "down_send s m = (Some f, s')"
  obtain dst dp' where "send_to_slave (fst s) (fst (snd s)) m (snd (snd s)) = (SentTo dst f, dp')"
    using snd by (auto simp: down_send_def split: prod.splits dp_send.splits)
  then show "down_recv r f = Some m"
    using p m send_to_slave_inv[of "fst s" "snd (snd s)" "snd r" "fst (snd s)" m dst f dp']
    by (auto simp: down_paired_def down_recv_def)
next
  fix s r m
  assume p: "down_paired s r"
  have "snd (down_send s m) = (fst s, fst (snd s), snd (send_to_slave (fst s) (fst (snd s)) m (snd (snd s))))"
    by (simp add: down_send_def split: prod.splits)
  with p show "down_paired (snd (down_send s m)) r"
    by (auto simp: down_paired_def dp_inv_send)
qed

section \<open>Properties\<close>

text \<open>The length check of both data-plane read loops is exact on any datagram that fits the 64 KiB
  buffer: the slice that follows never has its bounds out of order, although the upper index is
  computed on 16 bits, and the payload taken is the one the length field names.\<close>

theorem frame_check_exact:
  assumes "length buf \<le> 65535"
  shows "dp_unframe t buf =
    (if length buf < 3 \<or> buf ! 0 \<noteq> t \<or> length buf < 3 + unat (get16 (slice 1 3 buf)) then None
     else Some (Inr (slice 3 (3 + unat (get16 (slice 1 3 buf))) buf)))"
  by (rule dp_unframe_exact[OF assms])

theorem frame_check_exact_witness:
  "dp_unframe MsgTypeData [0xDA, 0, 1, 7] = Some (Inr [7]) \<and> dp_unframe MsgTypeData [0xDA, 0, 2, 7] = None"
  using frame_check_exact[of "[0xDA, 0, 1, 7]" MsgTypeData] frame_check_exact[of "[0xDA, 0, 2, 7]" MsgTypeData]
  by (simp add: slice_def get16_def MsgTypeData_def)

text \<open>C20. The relay channel: of a sequence of client packets that a slave frames for the master, every
  frame that was produced is read by the master as the tunnel address and the bytes it carries,
  in whatever order and as many times as it arrives; the same holds for the packets the master
  frames for a slave. So lost, repeated or reordered datagrams only lose, repeat or reorder
  packets.\<close>

theorem relayed_frames_delivered:
  assumes "up_paired s r" and "list_all up_fits ms" and "i < length ms"
    and "uplink.send_many s ms ! i = Some f"
    and "down_paired u v" and "list_all (\<lambda>m. length m \<le> 65500) ks" and "j < length ks"
    and "downlink.send_many u ks ! j = Some g"
  shows "up_recv r f = Some (ms ! i) \<and> down_recv v g = Some (ks ! j)"
  using uplink.all_delivered[OF assms(1-4)] downlink.all_delivered[OF assms(5-8)] by blast

definition sample_aead :: "bytes \<Rightarrow> aead" where
  "sample_aead k = \<lparr>a_key = k, a_prefix = replicate 8 0, a_counter = 0\<rparr>"

definition sample_dp :: dataplane where
  "sample_dp = register_slave (Some (replicate 8 0)) ''a'' \<lparr>uip = [192, 0, 2, 9], uport = 7\<rparr> (new_dataplane [])"

lemma sample_dp_inv: "dp_inv sample_dp"
  unfolding sample_dp_def by (rule dp_inv_register[OF dp_inv_new]) simp

lemma sample_dp_fields:
  "dkey sample_dp = []" "dslaves sample_dp = [''a'' \<mapsto> 0]"
  "dconns sample_dp = [\<lparr>sd_addr = \<lparr>uip = [192, 0, 2, 9], uport = 7\<rparr>,
     sd_aead = Some (sample_aead (slave_key [] ''a'')), sd_id = ''a''\<rparr>]"
  "dby_addr sample_dp (udp_string \<lparr>uip = [192, 0, 2, 9], uport = 7\<rparr>) = Some 0"
  by (simp_all add: sample_dp_def register_slave_def new_dataplane_def Let_def sample_aead_def new_aead_def)

theorem relayed_frames_delivered_witness:
  "\<exists>f g. up_recv (null_cipher, \<lparr>uip = [192, 0, 2, 9], uport = 7\<rparr>, sample_dp) f = Some ([10, 8, 0, 2], [9])
     \<and> down_recv (null_cipher, sample_aead (slave_key [] ''a'')) g = Some [5]"
proof -
  let ?a = "sample_aead (slave_key [] ''a'')"
  obtain f where f: "uplink.send_many (null_cipher, ?a) [([10, 8, 0, 2], [9])] ! 0 = Some f"
    by (simp add: up_send_def build_uplink_frame_def aead_seal_def aead_nonce_def sample_aead_def Let_def)
  obtain g where g: "downlink.send_many (null_cipher, ''a'', sample_dp) [[5]] ! 0 = Some g"
    by (simp add: down_send_def send_to_slave_def sample_dp_fields aead_seal_def aead_nonce_def
        sample_aead_def Let_def)
  have "up_paired (null_cipher, ?a) (null_cipher, \<lparr>uip = [192, 0, 2, 9], uport = 7\<rparr>, sample_dp)"
    by (simp add: up_paired_def null_cipher_ok sample_dp_fields) (simp add: sample_aead_def wf_aead_def)
  moreover have "down_paired (null_cipher, ''a'', sample_dp) (null_cipher, ?a)"
    by (simp add: down_paired_def null_cipher_ok sample_dp_inv sample_dp_fields) (simp add: sample_aead_def)
  ultimately show ?thesis
    using relayed_frames_delivered[OF _ _ _ f _ _ _ g,
        of "(null_cipher, \<lparr>uip = [192, 0, 2, 9], uport = 7\<rparr>, sample_dp)" "(null_cipher, ?a)"]
    by (auto simp: up_fits_def)
qed

end
