(* ===== verification/Transport.thy ===== *)
theory Transport
  imports Protocol
begin

text \<open>
  The pluggable carriers of \<open>common/transport\<close>. A carrier frames an encrypted payload and
  its packet type so that the datagram looks like another protocol. Sending is stateful
  (connection ids, sequence numbers); parsing is not. What the rest of the program relies on
  is the \<open>carrier\<close> locale: unwrapping a wrapped packet gives it back. It is interpreted on the
  four carriers and on the type of all transports that \<open>ByName\<close> returns.
\<close>

section \<open>The environment of a Wrap call\<close>

text \<open>The clock (\<open>time.Now().UnixNano()\<close>) and the random bytes a STUN transaction id takes.\<close>

record wenv =
  now_ns :: nat
  rnd12 :: bytes

definition wf_env :: "wenv \<Rightarrow> bool" where
  "wf_env e \<longleftrightarrow> length (rnd12 e) = 12"

section \<open>cs2\<close>

definition cs2_wrap :: "byte \<Rightarrow> bytes \<Rightarrow> bytes" where
  "cs2_wrap pkt_type payload = build_header pkt_type 0 @ payload"

definition cs2_unwrap :: "bytes \<Rightarrow> (byte \<times> bytes) option" where
  "cs2_unwrap raw =
     (case parse_header raw of Inl _ \<Rightarrow> None
      | Inr hdr \<Rightarrow> Some (header_pkt_type hdr, drop 9 raw))"

section \<open>utp\<close>

record utp =
  conn_id :: u16
  utp_seq :: u32

definition new_utp :: "bytes \<Rightarrow> utp" where
  "new_utp rnd = \<lparr>conn_id = get16 (take 2 rnd), utp_seq = 0\<rparr>"

definition utp_type :: "byte \<Rightarrow> byte" where
  "utp_type t = (if t = 0x04 then 4 else if t = 0x03 then 2 else 0)"

definition utp_wrap :: "wenv \<Rightarrow> utp \<Rightarrow> byte \<Rightarrow> bytes \<Rightarrow> bytes \<times> utp" where
  "utp_wrap e u t payload =
     (let u' = u\<lparr>utp_seq := utp_seq u + 1\<rparr> in
      ([push_bit 4 (utp_type t) OR 1, 0] @ put16 (conn_id u) @ put32 (of_nat (now_ns e div 1000))
        @ put32 0 @ put32 (push_bit 20 1) @ put16 (ucast (utp_seq u')) @ put16 0 @ [t] @ payload, u'))"

definition utp_unwrap :: "bytes \<Rightarrow> (byte \<times> bytes) option" where
  "utp_unwrap raw =
     (if length raw < 21 then None
      else if raw ! 0 AND 0x0f \<noteq> 1 then None
      else Some (raw ! 20, drop 21 raw))"

section \<open>webrtc\<close>

record webrtc =
  ssrc :: u32
  rtp_seq :: u32
  rtp_t0 :: u32

definition stun_magic_cookie :: u32 where "stun_magic_cookie = 0x2112A442"

definition new_webrtc :: "bytes \<Rightarrow> webrtc" where
  "new_webrtc rnd = \<lparr>ssrc = get32 (take 4 rnd), rtp_seq = ucast (get16 (take 2 rnd)),
     rtp_t0 = get32 (slice 4 8 rnd)\<rparr>"

definition webrtc_wrap :: "wenv \<Rightarrow> webrtc \<Rightarrow> byte \<Rightarrow> bytes \<Rightarrow> bytes \<times> webrtc" where
  "webrtc_wrap e w t payload =
     (if t = 0x04
      then (put16 1 @ put16 (of_nat (1 + length payload)) @ put32 stun_magic_cookie @ rnd12 e
             @ [t] @ payload, w)
      else (let w' = w\<lparr>rtp_seq := rtp_seq w + 1\<rparr> in
        ([0x80, 0x60] @ put16 (ucast (rtp_seq w')) @ put32 (rtp_t0 w + of_nat (now_ns e div 1000000))
          @ put32 (ssrc w) @ [t] @ payload, w')))"

definition webrtc_unwrap :: "bytes \<Rightarrow> (byte \<times> bytes) option" where
  "webrtc_unwrap raw =
     (if 13 \<le> length raw \<and> raw ! 0 = 0x80 then Some (raw ! 12, drop 13 raw)
      else if 21 \<le> length raw \<and> raw ! 0 AND 0xC0 = 0 \<and> get32 (slice 4 8 raw) = stun_magic_cookie
        then Some (raw ! 20, drop 21 raw)
      else None)"

section \<open>quic\<close>

record quic =
  dcid :: bytes
  scid :: bytes
  quic_pn :: u32

definition new_quic :: "bytes \<Rightarrow> quic" where
  "new_quic rnd = \<lparr>dcid = take 8 rnd, scid = slice 8 16 rnd, quic_pn = 0\<rparr>"

definition wf_quic :: "quic \<Rightarrow> bool" where
  "wf_quic q \<longleftrightarrow> length (dcid q) = 8 \<and> length (scid q) = 8"

definition quic_wrap :: "quic \<Rightarrow> byte \<Rightarrow> bytes \<Rightarrow> bytes \<times> quic" where
  "quic_wrap q t payload =
     (if t = 0x04
      then ([0xC0] @ put32 1 @ [8] @ dcid q @ [8] @ scid q @ [t] @ payload, q)
      else (let q' = q\<lparr>quic_pn := quic_pn q + 1\<rparr> in
        ([0x40] @ dcid q @ put32 (quic_pn q') @ [t] @ payload, q')))"

definition quic_unwrap :: "bytes \<Rightarrow> (byte \<times> bytes) option" where
  "quic_unwrap raw =
     (if length raw = 0 then None
      else if raw ! 0 = 0xC0 \<and> 24 \<le> length raw \<and> get32 (slice 1 5 raw) = 1
        then Some (raw ! 23, drop 24 raw)
      else if raw ! 0 = 0x40 \<and> 14 \<le> length raw then Some (raw ! 13, drop 14 raw)
      else None)"

section \<open>The Transport interface and ByName\<close>

datatype transport = CS2 | UTP utp | WebRTC webrtc | QUIC quic

fun wf_transport :: "transport \<Rightarrow> bool" where
  "wf_transport (QUIC q) = wf_quic q"
| "wf_transport _ = True"

fun tr_wrap :: "wenv \<Rightarrow> transport \<Rightarrow> byte \<Rightarrow> bytes \<Rightarrow> bytes \<times> transport" where
  "tr_wrap e CS2 t p = (cs2_wrap t p, CS2)"
| "tr_wrap e (UTP u) t p = (case utp_wrap e u t p of (f, u') \<Rightarrow> (f, UTP u'))"
| "tr_wrap e (WebRTC w) t p = (case webrtc_wrap e w t p of (f, w') \<Rightarrow> (f, WebRTC w'))"
| "tr_wrap e (QUIC q) t p = (case quic_wrap q t p of (f, q') \<Rightarrow> (f, QUIC q'))"

fun tr_unwrap :: "transport \<Rightarrow> bytes \<Rightarrow> (byte \<times> bytes) option" where
  "tr_unwrap CS2 raw = cs2_unwrap raw"
| "tr_unwrap (UTP _) raw = utp_unwrap raw"
| "tr_unwrap (WebRTC _) raw = webrtc_unwrap raw"
| "tr_unwrap (QUIC _) raw = quic_unwrap raw"

fun tr_name :: "transport \<Rightarrow> string" where
  "tr_name CS2 = ''cs2''"
| "tr_name (UTP _) = ''utp''"
| "tr_name (WebRTC _) = ''webrtc''"
| "tr_name (QUIC _) = ''quic''"

text \<open>\<open>rnd\<close> is what the constructor reads from \<open>crypto/rand\<close>: at least 16 bytes.\<close>

definition by_name :: "bytes \<Rightarrow> string \<Rightarrow> transport option" where
  "by_name rnd name =
     (if name = '''' \<or> name = ''cs2'' then Some CS2
      else if name = ''utp'' then Some (UTP (new_utp rnd))
      else if name = ''webrtc'' then Some (WebRTC (new_webrtc rnd))
      else if name = ''quic'' then Some (QUIC (new_quic rnd))
      else None)"

section \<open>What a carrier promises\<close>

locale carrier =
  fixes wrap :: "wenv \<Rightarrow> 's \<Rightarrow> byte \<Rightarrow> bytes \<Rightarrow> bytes \<times> 's"
    and unwrap :: "bytes \<Rightarrow> (byte \<times> bytes) option"
    and ok :: "'s \<Rightarrow> bool"
  assumes unwrap_wrap: "wf_env e \<Longrightarrow> ok s \<Longrightarrow> unwrap (fst (wrap e s t p)) = Some (t, p)"
    and ok_wrap: "wf_env e \<Longrightarrow> ok s \<Longrightarrow> ok (snd (wrap e s t p))"
begin

text \<open>A sender that wraps a sequence of packets, one clock and random source per packet.\<close>

fun send_all :: "'s \<Rightarrow> (wenv \<times> byte \<times> bytes) list \<Rightarrow> bytes list" where
  "send_all s [] = []"
| "send_all s ((e, t, p) # ms) = (case wrap e s t p of (f, s') \<Rightarrow> f # send_all s' ms)"

lemma recv_all:
  "ok s \<Longrightarrow> (\<forall>(e, t, p) \<in> set ms. wf_env e) \<Longrightarrow>
     map unwrap (send_all s ms) = map (\<lambda>(e, t, p). Some (t, p)) ms"
proof (induction s ms rule: send_all.induct)
  case (2 s e t p ms)
  then show ?case
    using unwrap_wrap[of e s t p] ok_wrap[of e s t p] by (cases "wrap e s t p") auto
qed simp

lemma frames_injective:
  assumes "wf_env e" and "wf_env e'" and "ok s" and "ok s'"
    and "fst (wrap e s t p) = fst (wrap e' s' t' p')"
  shows "t = t' \<and> p = p'"
  using assms unwrap_wrap[of e s t p] unwrap_wrap[of e' s' t' p'] by simp

end

section \<open>Every carrier keeps the promise\<close>

lemma cs2_unwrap_wrap: "cs2_unwrap (cs2_wrap t p) = Some (t, p)"
  by (simp add: cs2_unwrap_def cs2_wrap_def parse_build_header header_fields)

lemma utp_unwrap_wrap: "utp_unwrap (fst (utp_wrap e u t p)) = Some (t, p)"
  by (simp add: utp_unwrap_def utp_wrap_def utp_type_def put16_def put32_def nth_append)

lemma webrtc_unwrap_wrap:
  "wf_env e \<Longrightarrow> webrtc_unwrap (fst (webrtc_wrap e w t p)) = Some (t, p)"
  by (auto simp: webrtc_unwrap_def webrtc_wrap_def wf_env_def Let_def slice_def nth_append put16_def)

lemma quic_unwrap_wrap:
  "wf_quic q \<Longrightarrow> quic_unwrap (fst (quic_wrap q t p)) = Some (t, p)"
  by (auto simp: quic_unwrap_def quic_wrap_def wf_quic_def Let_def slice_def nth_append)

interpretation cs2: carrier "\<lambda>e s t p. (cs2_wrap t p, s)" cs2_unwrap "\<lambda>_ :: unit. True"
  by unfold_locales (simp_all add: cs2_unwrap_wrap)

interpretation utp_carrier: carrier utp_wrap utp_unwrap "\<lambda>_. True"
  by unfold_locales (simp_all add: utp_unwrap_wrap)

interpretation webrtc_carrier: carrier webrtc_wrap webrtc_unwrap "\<lambda>_. True"
  by unfold_locales (simp_all add: webrtc_unwrap_wrap)

interpretation quic_carrier: carrier "\<lambda>_. quic_wrap" quic_unwrap wf_quic
proof unfold_locales
  fix e :: wenv and q t p
  assume "wf_quic q"
  then show "quic_unwrap (fst (quic_wrap q t p)) = Some (t, p)"
    by (rule quic_unwrap_wrap)
  show "wf_quic (snd (quic_wrap q t p))"
    using \<open>wf_quic q\<close> by (simp add: quic_wrap_def wf_quic_def Let_def)
qed

definition same_kind :: "transport \<Rightarrow> transport \<Rightarrow> bool" where
  "same_kind a b \<longleftrightarrow> tr_name a = tr_name b"

lemma tr_unwrap_wrap:
  "wf_env e \<Longrightarrow> wf_transport a \<Longrightarrow> tr_unwrap a (fst (tr_wrap e a t p)) = Some (t, p)"
  by (cases a)
    (simp_all add: cs2_unwrap_wrap utp_unwrap_wrap webrtc_unwrap_wrap quic_unwrap_wrap
      split: prod.splits add: prod_eq_iff)

lemma tr_unwrap_kind: "same_kind a b \<Longrightarrow> tr_unwrap a raw = tr_unwrap b raw"
  by (cases a; cases b) (simp_all add: same_kind_def)

lemma tr_wrap_kind: "same_kind (snd (tr_wrap e a t p)) a"
  by (cases a) (simp_all add: same_kind_def split: prod.splits)

lemma tr_wrap_wf: "wf_env e \<Longrightarrow> wf_transport a \<Longrightarrow> wf_transport (snd (tr_wrap e a t p))"
  by (cases a) (auto split: prod.splits, metis quic_carrier.ok_wrap snd_conv)

lemma by_name_wf: "16 \<le> length rnd \<Longrightarrow> by_name rnd name = Some a \<Longrightarrow> wf_transport a"
  by (auto simp: by_name_def new_quic_def wf_quic_def split: if_splits)

interpretation transports: carrier tr_wrap "tr_unwrap a" "\<lambda>s. wf_transport s \<and> same_kind s a"
proof unfold_locales
  fix e s t p
  assume e: "wf_env e" and s: "wf_transport s \<and> same_kind s a"
  then show "tr_unwrap a (fst (tr_wrap e s t p)) = Some (t, p)"
    using tr_unwrap_wrap[of e s] tr_unwrap_kind[of s a] by simp
  show "wf_transport (snd (tr_wrap e s t p)) \<and> same_kind (snd (tr_wrap e s t p)) a"
    using e s tr_wrap_wf tr_wrap_kind[of e s t p] by (auto simp: same_kind_def)
qed

section \<open>Demultiplexing: frames of one carrier offered to another\<close>

text \<open>
  A server that listens for one carrier on a port receives whatever arrives there. Two
  different carriers never accept each other's frames, with one exception: a utp data frame
  whose timestamp happens to be the STUN magic cookie is a valid STUN frame for webrtc.
\<close>

fun utp_looks_stun :: "wenv \<Rightarrow> transport \<Rightarrow> transport \<Rightarrow> byte \<Rightarrow> bool" where
  "utp_looks_stun e (UTP _) (WebRTC _) t \<longleftrightarrow>
     t \<noteq> PktTypeHandshake \<and> of_nat (now_ns e div 1000) = stun_magic_cookie"
| "utp_looks_stun e _ _ t \<longleftrightarrow> False"

lemma cs2_head: "cs2_wrap t p ! 0 = 0xFF" "length (cs2_wrap t p) = 9 + length p"
  by (simp_all add: cs2_wrap_def build_header_def)

lemma utp_head:
  "fst (utp_wrap e u t p) ! 0 = (if t = 4 then 0x41 else if t = 3 then 0x21 else 0x01)"
  "length (fst (utp_wrap e u t p)) = 21 + length p"
  "slice 4 8 (fst (utp_wrap e u t p)) = put32 (of_nat (now_ns e div 1000))"
  "fst (utp_wrap e u t p) ! 20 = t"
  "drop 21 (fst (utp_wrap e u t p)) = p"
  by (simp_all add: utp_wrap_def utp_type_def Let_def slice_def nth_append)

lemma webrtc_head:
  "fst (webrtc_wrap e w t p) ! 0 = (if t = 4 then 0 else 0x80)"
  by (simp add: webrtc_wrap_def Let_def put16_def)

lemma quic_head:
  "fst (quic_wrap q t p) ! 0 = (if t = 4 then 0xC0 else 0x40)"
  by (simp add: quic_wrap_def Let_def)

lemma tr_wrap_length:
  "wf_env e \<Longrightarrow> wf_transport a \<Longrightarrow> length (fst (tr_wrap e a t p)) \<le> length p + 24"
  by (cases a) (auto simp: cs2_head utp_head webrtc_wrap_def quic_wrap_def wf_env_def wf_quic_def Let_def split: prod.splits
      dest!: arg_cong[of _ _ "length \<circ> fst"])

text \<open>A frame of a short packet fits a buffer of 2048 bytes.\<close>

lemma frame_uncut:
  assumes "wf_env e" and "wf_transport a" and "length p \<le> 2000"
  shows "take 2048 (fst (tr_wrap e a t p)) = fst (tr_wrap e a t p)"
  using tr_wrap_length[OF assms(1,2), of t p] assms(3) by simp

lemma unwrap_head:
  "cs2_unwrap raw \<noteq> None \<Longrightarrow> raw ! 0 = 0xFF"
  "utp_unwrap raw \<noteq> None \<Longrightarrow> raw ! 0 AND 0x0f = 1"
  "webrtc_unwrap raw \<noteq> None \<Longrightarrow> raw ! 0 = 0x80 \<or> raw ! 0 AND 0xC0 = 0"
  "quic_unwrap raw \<noteq> None \<Longrightarrow> raw ! 0 = 0xC0 \<or> raw ! 0 = 0x40"
  by (auto simp: cs2_unwrap_def parse_header_def utp_unwrap_def webrtc_unwrap_def quic_unwrap_def
      split: if_splits sum.splits)

lemma utp_to_webrtc:
  "webrtc_unwrap (fst (utp_wrap e u t p)) =
     (if t \<noteq> 4 \<and> of_nat (now_ns e div 1000) = stun_magic_cookie then Some (t, p) else None)"
  by (simp add: webrtc_unwrap_def utp_head)

lemmas heads = cs2_head utp_head(1) webrtc_head quic_head

lemma cross_reject:
  "utp_unwrap (cs2_wrap t p) = None" "webrtc_unwrap (cs2_wrap t p) = None"
  "quic_unwrap (cs2_wrap t p) = None"
  "cs2_unwrap (fst (utp_wrap e u t p)) = None" "quic_unwrap (fst (utp_wrap e u t p)) = None"
  "cs2_unwrap (fst (webrtc_wrap e w t p)) = None" "utp_unwrap (fst (webrtc_wrap e w t p)) = None"
  "quic_unwrap (fst (webrtc_wrap e w t p)) = None"
  "cs2_unwrap (fst (quic_wrap q t p)) = None" "utp_unwrap (fst (quic_wrap q t p)) = None"
  "webrtc_unwrap (fst (quic_wrap q t p)) = None"
  by (rule ccontr, drule unwrap_head, simp add: heads split: if_splits)+

lemma tr_demux_eq:
  assumes "wf_env e" and "wf_transport a"
  shows "tr_unwrap b (fst (tr_wrap e a t p)) =
    (if same_kind a b \<or> utp_looks_stun e a b t then Some (t, p) else None)"
proof (cases "same_kind a b")
  case True
  then show ?thesis
    using tr_unwrap_wrap[OF assms] tr_unwrap_kind[OF True] by simp
next
  case False
  have fst_eq: "fst (case x of (f, u') \<Rightarrow> (f, g u')) = fst x" for x :: "bytes \<times> 'b" and g :: "'b \<Rightarrow> transport"
    by (simp split: prod.splits)
  from False show ?thesis
    by (cases a; cases b)
      (simp_all add: same_kind_def fst_eq cross_reject utp_to_webrtc PktTypeHandshake_def)
qed

section \<open>Sequence numbers\<close>

text \<open>A utp flow's sequence numbers count up from one, modulo 2^16.\<close>

definition utp_seq_of :: "bytes \<Rightarrow> u16" where
  "utp_seq_of frame = get16 (slice 16 18 frame)"

lemma utp_wrap_seq:
  "utp_seq_of (fst (utp_wrap e u t p)) = ucast (utp_seq u + 1)"
  "utp_seq (snd (utp_wrap e u t p)) = utp_seq u + 1"
  by (simp_all add: utp_seq_of_def utp_wrap_def Let_def slice_def)

lemma utp_stream_seqs:
  "map utp_seq_of (utp_carrier.send_all u ms) =
     map (\<lambda>i. ucast (utp_seq u + of_nat (Suc i))) [0..<length ms]"
proof (induction u ms rule: utp_carrier.send_all.induct)
  case (2 u e t p ms)
  obtain f u' where w: "utp_wrap e u t p = (f, u')"
    by (cases "utp_wrap e u t p")
  then have "utp_seq_of f = ucast (utp_seq u + 1)" "utp_seq u' = utp_seq u + 1"
    using utp_wrap_seq[of e u t p] by simp_all
  moreover have "[0..<Suc (length ms)] = 0 # map Suc [0..<length ms]"
    by (simp add: upt_conv_Cons map_Suc_upt del: upt_Suc)
  ultimately show ?case
    using "2.IH"[OF w[symmetric]] w by (simp del: upt_Suc add: add.assoc comp_def)
qed simp

section \<open>Properties\<close>

definition sample_env :: wenv where
  "sample_env = \<lparr>now_ns = 1700000000000000000, rnd12 = replicate 12 7\<rparr>"

lemma wf_sample_env [simp]: "wf_env sample_env" "length r = 12 \<Longrightarrow> wf_env \<lparr>now_ns = n, rnd12 = r\<rparr>"
  by (simp_all add: wf_env_def sample_env_def)

text \<open>C22. Carrier delivery: whatever carrier \<open>ByName\<close> returns, a receiver of the same carrier
  unwraps each frame of a sender's stream to the packet type and payload it was made from.\<close>

theorem carrier_delivery:
  assumes "16 \<le> length rnd" and "by_name rnd name = Some tr" and "by_name rnd' name = Some tr'"
    and "\<forall>(e, t, p) \<in> set ms. wf_env e"
  shows "map (tr_unwrap tr') (transports.send_all tr ms) = map (\<lambda>(e, t, p). Some (t, p)) ms"
proof -
  have "same_kind tr tr'"
    using assms(2,3) by (auto simp: by_name_def same_kind_def split: if_splits)
  then show ?thesis
    using transports.recv_all[of tr tr' ms] by_name_wf[OF assms(1,2)] assms(4) by blast
qed

theorem carrier_delivery_witness:
  "map (tr_unwrap (QUIC (new_quic (replicate 16 9))))
     (transports.send_all (QUIC (new_quic (replicate 16 1))) [(sample_env, 4, [1, 2]), (sample_env, 1, [3])])
   = [Some (4, [1, 2]), Some (1, [3])]"
  using carrier_delivery[of "replicate 16 1" "''quic''" "QUIC (new_quic (replicate 16 1))" "replicate 16 9"
      "QUIC (new_quic (replicate 16 9))" "[(sample_env, 4, [1, 2]), (sample_env, 1, [3])]"]
  by (simp add: by_name_def)

text \<open>Demultiplexing: a frame of one carrier offered to the parser of another is rejected, with
  one exception, a utp frame whose timestamp is the STUN cookie offered to webrtc; the parser
  of its own carrier returns the packet.\<close>

theorem carrier_demux:
  assumes "wf_env e" and "wf_transport a"
  shows "tr_unwrap b (fst (tr_wrap e a t p)) =
    (if same_kind a b \<or> utp_looks_stun e a b t then Some (t, p) else None)"
  by (rule tr_demux_eq[OF assms])

theorem carrier_demux_witness:
  "tr_unwrap CS2 (fst (tr_wrap sample_env (UTP \<lparr>conn_id = 7, utp_seq = 0\<rparr>) 1 [5])) = None
   \<and> tr_unwrap (WebRTC \<lparr>ssrc = 0, rtp_seq = 0, rtp_t0 = 0\<rparr>)
       (fst (tr_wrap \<lparr>now_ns = 554869826000, rnd12 = replicate 12 0\<rparr> (UTP \<lparr>conn_id = 7, utp_seq = 0\<rparr>) 1 [5])) = Some (1, [5])"
  using carrier_demux[of sample_env "UTP \<lparr>conn_id = 7, utp_seq = 0\<rparr>" CS2 1 "[5]"]
    carrier_demux[of "\<lparr>now_ns = 554869826000, rnd12 = replicate 12 0\<rparr>" "UTP \<lparr>conn_id = 7, utp_seq = 0\<rparr>"
      "WebRTC \<lparr>ssrc = 0, rtp_seq = 0, rtp_t0 = 0\<rparr>" 1 "[5]"]
  by (simp add: same_kind_def stun_magic_cookie_def PktTypeHandshake_def del: tr_wrap.simps tr_unwrap.simps)

text \<open>Sequence numbers of a utp flow count up by one from the first frame, modulo 2^16.\<close>

theorem utp_sequence_numbers:
  "map utp_seq_of (utp_carrier.send_all u ms) =
     map (\<lambda>i. ucast (utp_seq u + of_nat (Suc i))) [0..<length ms]"
  by (rule utp_stream_seqs)

end
