(* ===== verification/Master.thy ===== *)
theory Master
  imports Session Replay Control DataPlane Transport
begin

text \<open>
  The master's packet server, \<open>master/main.go\<close>: the handshake, the control and data sockets,
  the slaves' uplink relay, the slave choice, the removal hook and the downlink from the
  network stack. The state is the session table whose \<open>world\<close> holds everything the hook
  touches. A step that dereferences a nil pointer or slices out of range returns \<open>None\<close>: the
  process is gone. DNS resolution, JSON encoding and map iteration orders are arguments.
\<close>

section \<open>State\<close>

record counters =
  n_created :: u64
  n_active :: int
  n_auth_failures :: u64
  n_packets :: u64
  n_bytes_up :: u64
  n_spoofed :: u64

definition no_counts :: counters where
  "no_counts = \<lparr>n_created = 0, n_active = 0, n_auth_failures = 0, n_packets = 0, n_bytes_up = 0, n_spoofed = 0\<rparr>"

datatype event = CtrlFrame nat bytes | Inject bytes | Datagram udpaddr bytes

text \<open>A per-session data socket and what its serve loop holds.\<close>

record data_sock =
  ds_port :: nat
  ds_sess :: sptr
  ds_aead :: aead
  ds_tr :: transport

record mworld =
  pool :: ippool
  ccryptos :: "string \<rightharpoonup> aead"
  uplinks :: "string \<rightharpoonup> aead"
  dyn_ports :: "nat set"
  socks :: "data_sock list"
  ctrl :: registry
  dp :: dataplane
  replays :: replay_cache
  counts :: counters
  events :: "event list"

type_synonym master = "mworld sessions"

record mcfg =
  mc_cipher :: cipher
  mc_token :: bytes
  mc_server_id :: bytes
  mc_resolve :: "string \<Rightarrow> udpaddr option"
  mc_json :: "slave_session \<Rightarrow> bytes"

definition new_master :: "bytes \<Rightarrow> ippool \<Rightarrow> master" where
  "new_master token p = new_table \<lparr>pool = p, ccryptos = Map.empty, uplinks = Map.empty, dyn_ports = {},
     socks = [], ctrl = new_registry, dp = new_dataplane (derive_key token (str_bytes ''master-data-plane'')),
     replays = [], counts = no_counts, events = []\<rparr>"

abbreviation on_world :: "(mworld \<Rightarrow> mworld) \<Rightarrow> master \<Rightarrow> master" where
  "on_world f m \<equiv> m\<lparr>world := f (world m)\<rparr>"

definition emit :: "event list \<Rightarrow> mworld \<Rightarrow> mworld" where
  "emit es w = w\<lparr>events := events w @ es\<rparr>"

definition bump :: "(counters \<Rightarrow> counters) \<Rightarrow> mworld \<Rightarrow> mworld" where
  "bump f w = w\<lparr>counts := f (counts w)\<rparr>"

section \<open>The reverse-path filter and injection\<close>

definition src_matches_tunnel :: "bytes \<Rightarrow> ip \<Rightarrow> bool" where
  "src_matches_tunnel pkt tunnel_ip =
     (if length pkt < 20 \<or> drop_bit 4 (pkt ! 0) \<noteq> 4 then False
      else case to4 tunnel_ip of None \<Rightarrow> False | Some want \<Rightarrow> slice 12 16 pkt = want)"

definition deliver :: "bytes \<Rightarrow> ip \<Rightarrow> mworld \<Rightarrow> mworld" where
  "deliver pkt tunnel_ip w =
     (if \<not> src_matches_tunnel pkt tunnel_ip then bump (\<lambda>c. c\<lparr>n_spoofed := n_spoofed c + 1\<rparr>) w
      else emit [Inject pkt]
        (bump (\<lambda>c. c\<lparr>n_packets := n_packets c + 1, n_bytes_up := n_bytes_up c + of_nat (length pkt)\<rparr>) w))"

section \<open>Uplink\<close>

definition handle_uplink :: "mcfg \<Rightarrow> bytes option \<Rightarrow> time \<Rightarrow> ip \<Rightarrow> bytes \<Rightarrow> master \<Rightarrow> master" where
  "handle_uplink cfg rnd now tunnel_ip ct m =
     (case find_tun (ip_string tunnel_ip) m of
        None \<Rightarrow> m
      | Some p \<Rightarrow>
          (let m1 = touch now p m; k = ip_string tunnel_ip in
           case (case uplinks (world m1) k of
                   Some a \<Rightarrow> Some a | None \<Rightarrow> new_aead (s_key (heap m1 ! p)) rnd) of
             None \<Rightarrow> m1
           | Some a \<Rightarrow>
               (let m2 = on_world (\<lambda>w. w\<lparr>uplinks := (uplinks w)(k \<mapsto> a)\<rparr>) m1 in
                case aead_open (mc_cipher cfg) a ct of
                  Inl _ \<Rightarrow> m2
                | Inr pkt \<Rightarrow> on_world (deliver pkt tunnel_ip) m2)))"

text \<open>\<open>readLoop\<close> of the master's data plane with \<open>OnUplink\<close> wired.\<close>

definition dp_read_step :: "mcfg \<Rightarrow> bytes option \<Rightarrow> time \<Rightarrow> udpaddr \<Rightarrow> bytes \<Rightarrow> master \<Rightarrow> master option" where
  "dp_read_step cfg rnd now src buf m =
     (case master_dp_read (mc_cipher cfg) src buf (dp (world m)) of
        Panicked \<Rightarrow> None
      | Ignored \<Rightarrow> Some m
      | Relayed tunnel_ip ct \<Rightarrow> Some (handle_uplink cfg rnd now tunnel_ip ct m))"

definition serve_data :: "mcfg \<Rightarrow> time \<Rightarrow> data_sock \<Rightarrow> bytes \<Rightarrow> master \<Rightarrow> master" where
  "serve_data cfg now d buf m =
     (case tr_unwrap (ds_tr d) buf of
        None \<Rightarrow> m
      | Some (t, payload) \<Rightarrow>
          if t = PktTypeData then
            (let m1 = touch now (ds_sess d) m in
             case aead_open (mc_cipher cfg) (ds_aead d) payload of
               Inl _ \<Rightarrow> m1
             | Inr pkt \<Rightarrow> on_world (deliver pkt (s_tun (heap m1 ! ds_sess d))) m1)
          else if t = PktTypeKeepalive then touch now (ds_sess d) m
          else m)"

section \<open>The slave choice\<close>

fun choose_slave :: "mcfg \<Rightarrow> registry \<Rightarrow> ip \<Rightarrow> u16 \<Rightarrow> cptr list \<Rightarrow> cptr option" where
  "choose_slave cfg r a port [] = None"
| "choose_slave cfg r a port (c # cs) =
     (case mc_resolve cfg (sl_udp (conns r ! c)) of
        None \<Rightarrow> choose_slave cfg r a port cs
      | Some ua \<Rightarrow>
          if ip_equal (uip ua) a \<and> of_nat (uport ua) = port then Some c
          else choose_slave cfg r a port cs)"

definition handle_slave_choice :: "mcfg \<Rightarrow> cptr list \<Rightarrow> bytes \<Rightarrow> master \<Rightarrow> master" where
  "handle_slave_choice cfg order payload m =
     (if length payload = 0 \<or> payload ! 0 \<noteq> CtrlSlaveChoice then m
      else case parse_slave_choice payload of
        Inl _ \<Rightarrow> m
      | Inr msg \<Rightarrow>
          (case find_tun (ip_string (sc_tunnel_ip msg)) m of
             None \<Rightarrow> m
           | Some p \<Rightarrow>
               (case choose_slave cfg (ctrl (world m)) (sc_slave_ip msg) (sc_slave_port msg) order of
                  None \<Rightarrow> m
                | Some c \<Rightarrow>
                    (let i = sl_id (conns (ctrl (world m)) ! c)
                     in if slave_of p m \<noteq> i then set_slave i p m else m))))"

section \<open>The handshake\<close>

datatype reject = NotHello | BadHello perr | OutOfWindow | BadMac | Replayed

definition hello_guard :: "bytes \<Rightarrow> u64 \<Rightarrow> bytes \<Rightarrow> replay_cache \<Rightarrow> (reject + hello) \<times> replay_cache" where
  "hello_guard token now payload r =
     (if length payload < 1 \<or> payload ! 0 \<noteq> CtrlHello then (Inl NotHello, r)
      else case parse_hello payload of
        Inl e \<Rightarrow> (Inl (BadHello e), r)
      | Inr h \<Rightarrow>
          if \<not> hello_in_window now (h_timestamp h) then (Inl OutOfWindow, r)
          else if \<not> verify_hello_mac token (hello_unsigned h) (h_mac h) then (Inl BadMac, r)
          else (case check_and_add (h_nonce h) (sint now) r of
                  (fresh, r') \<Rightarrow> (if fresh then Inr h else Inl Replayed, r')))"

definition is_auth_failure :: "reject \<Rightarrow> bool" where
  "is_auth_failure e \<longleftrightarrow> e = OutOfWindow \<or> e = BadMac \<or> e = Replayed"

text \<open>
  What one handshake meets: the clocks, the orders of three iterations over the slave map,
  the session id and cipher randomness, the data port (\<open>None\<close> when listening failed), and the
  environment of the reply's Wrap.
\<close>

record henv =
  he_unix :: u64
  he_now :: time
  he_pick :: "cptr list"
  he_notify :: "cptr list"
  he_list :: "cptr list"
  he_id :: "bytes option"
  he_rnd :: "bytes option"
  he_port :: "nat option"
  he_wrap :: wenv

definition four :: "ip \<Rightarrow> ip" where
  "four a = (case to4 a of Some b \<Rightarrow> b | None \<Rightarrow> [])"

definition slave_endpoints :: "mcfg \<Rightarrow> registry \<Rightarrow> cptr list \<Rightarrow> endpoint list" where
  "slave_endpoints cfg r cs = concat (map (\<lambda>c. case mc_resolve cfg (sl_udp (conns r ! c)) of
     None \<Rightarrow> [] | Some ua \<Rightarrow> [\<lparr>ep_ip = four (uip ua), ep_port = of_nat (uport ua)\<rparr>]) cs)"

definition send_session :: "registry \<Rightarrow> bytes \<Rightarrow> cptr \<Rightarrow> event" where
  "send_session r json c = CtrlFrame (c_conn (conns r ! c)) (send_frame MsgSession json)"

text \<open>From the session id on: the session's cipher, data port and table entry.\<close>

definition open_session ::
    "mcfg \<Rightarrow> henv \<Rightarrow> udpaddr \<Rightarrow> transport \<Rightarrow> cptr \<Rightarrow> ip \<Rightarrow> bytes \<Rightarrow> aead \<Rightarrow> master \<Rightarrow> master" where
  "open_session cfg e addr tr c tun_ip sid a m =
     (let ports = (case he_port e of None \<Rightarrow> {} | Some q \<Rightarrow> {unat (of_nat q :: u16)});
          m1 = on_world (\<lambda>w. w\<lparr>ccryptos := (ccryptos w)(udp_string addr \<mapsto> a),
                              dyn_ports := dyn_ports w \<union> ports\<rparr>) m;
          sess = \<lparr>s_id = sid, s_client = addr, s_tun = tun_ip,
                  s_key = session_key (mc_token cfg) tun_ip, s_last = he_now e,
                  s_slave = sl_id (conns (ctrl (world m)) ! c), s_conn = he_port e\<rparr>;
          (p, m2) = alloc_session sess m1;
          m3 = table_add p m2;
          m4 = on_world (bump (\<lambda>k. k\<lparr>n_created := n_created k + 1, n_active := int (table_len m3)\<rparr>)) m3;
          new = (case he_port e of None \<Rightarrow> []
                 | Some q \<Rightarrow> [\<lparr>ds_port = q, ds_sess = p, ds_aead = a, ds_tr = tr\<rparr>])
      in on_world (\<lambda>w. w\<lparr>socks := socks w @ new\<rparr>) m4)"

text \<open>The slaves told and the welcome sent; a slave address that does not resolve is a nil pointer.\<close>

definition notify_slaves :: "mcfg \<Rightarrow> henv \<Rightarrow> udpaddr \<Rightarrow> bool \<Rightarrow> cptr \<Rightarrow> ip \<Rightarrow> bytes \<Rightarrow> registry \<Rightarrow> event list" where
  "notify_slaves cfg e addr v3 c tun_ip sid r =
     (let json = mc_json cfg \<lparr>ss_id = sid, ss_client_ip = four (uip addr),
                   ss_client_port = of_nat (uport addr), ss_tunnel_ip = four tun_ip\<rparr>
      in if v3 then map (send_session r json) (he_notify e) else [send_session r json c])"

definition welcome_for :: "mcfg \<Rightarrow> henv \<Rightarrow> bool \<Rightarrow> udpaddr \<Rightarrow> ip \<Rightarrow> registry \<Rightarrow> welcome_msg" where
  "welcome_for cfg e v3 su tun_ip r =
     \<lparr>w_assigned = tun_ip, w_slave_ip = four (uip su), w_slave_port = of_nat (uport su),
      w_data_port = (case he_port e of None \<Rightarrow> 0 | Some q \<Rightarrow> of_nat q), w_server_id = mc_server_id cfg,
      w_slaves = (if v3 then slave_endpoints cfg r (he_list e) else [])\<rparr>"

definition establish ::
    "mcfg \<Rightarrow> henv \<Rightarrow> udpaddr \<Rightarrow> hello \<Rightarrow> transport \<Rightarrow> cptr \<Rightarrow> ip \<Rightarrow> bytes \<Rightarrow> aead \<Rightarrow> master
      \<Rightarrow> (transport \<times> master) option" where
  "establish cfg e addr h tr c tun_ip sid a m =
     (let r = ctrl (world m); v3 = (h_version h = HelloVersion3);
          m1 = open_session cfg e addr tr c tun_ip sid a m;
          m2 = on_world (emit (notify_slaves cfg e addr v3 c tun_ip sid r)) m1
      in case mc_resolve cfg (sl_udp (conns r ! c)) of
           None \<Rightarrow> None
         | Some su \<Rightarrow>
             (case tr_wrap (he_wrap e) tr PktTypeControl (welcome_marshal (welcome_for cfg e v3 su tun_ip r)) of
                (resp, tr') \<Rightarrow> Some (tr', on_world (emit [Datagram addr resp]) m2)))"

definition handle_handshake ::
    "mcfg \<Rightarrow> henv \<Rightarrow> udpaddr \<Rightarrow> bytes \<Rightarrow> transport \<Rightarrow> master \<Rightarrow> (transport \<times> master) option" where
  "handle_handshake cfg e addr payload tr m =
     (case hello_guard (mc_token cfg) (he_unix e) payload (replays (world m)) of
        (Inl rej, r') \<Rightarrow>
          Some (tr, on_world (\<lambda>w. bump (\<lambda>k. if is_auth_failure rej
            then k\<lparr>n_auth_failures := n_auth_failures k + 1\<rparr> else k) (w\<lparr>replays := r'\<rparr>)) m)
      | (Inr h, r') \<Rightarrow>
          (let m1 = on_world (\<lambda>w. w\<lparr>replays := r'\<rparr>) m in
           case pick (he_pick e) (ctrl (world m1)) of
             (None, _) \<Rightarrow> Some (tr, m1)
           | (Some c, reg') \<Rightarrow>
               (let m2 = on_world (\<lambda>w. w\<lparr>ctrl := reg'\<rparr>) m1 in
                case pool_allocate (pool (world m2)) of
                  (None, _) \<Rightarrow> Some (tr, m2)
                | (Some tun_ip, p') \<Rightarrow>
                    (let m3 = on_world (\<lambda>w. w\<lparr>pool := p'\<rparr>) m2;
                         give_back = on_world (\<lambda>w. w\<lparr>pool := pool_release tun_ip (pool w)\<rparr>) m3 in
                     case he_id e of
                       None \<Rightarrow> Some (tr, give_back)
                     | Some sid \<Rightarrow>
                         (case new_aead (session_key (mc_token cfg) tun_ip) (he_rnd e) of
                            None \<Rightarrow> Some (tr, give_back)
                          | Some a \<Rightarrow> establish cfg e addr h tr c tun_ip sid a m3)))))"

section \<open>The control sockets\<close>

definition serve ::
    "mcfg \<Rightarrow> henv \<Rightarrow> bool \<Rightarrow> udpaddr \<Rightarrow> bytes \<Rightarrow> transport \<Rightarrow> master \<Rightarrow> (transport \<times> master) option" where
  "serve cfg e accept addr buf tr m =
     (case tr_unwrap tr buf of
        None \<Rightarrow> Some (tr, m)
      | Some (t, payload) \<Rightarrow>
          if t = PktTypeHandshake then
            (if accept then handle_handshake cfg e addr payload tr m else Some (tr, m))
          else if t = PktTypeData then
            Some (tr, case find_client (udp_string addr) m of
               None \<Rightarrow> m
             | Some p \<Rightarrow>
                 (let m1 = touch (he_now e) p m in
                  case ccryptos (world m1) (udp_string addr) of
                    None \<Rightarrow> m1
                  | Some a \<Rightarrow>
                      (case aead_open (mc_cipher cfg) a payload of
                         Inl _ \<Rightarrow> m1
                       | Inr pkt \<Rightarrow> on_world (deliver pkt (s_tun (heap m1 ! p))) m1)))
          else if t = PktTypeKeepalive then
            Some (tr, case find_client (udp_string addr) m of
               None \<Rightarrow> m | Some p \<Rightarrow> touch (he_now e) p m)
          else if t = PktTypeControl then
            Some (tr, handle_slave_choice cfg (he_list e) payload m)
          else Some (tr, m))"

section \<open>Removal and reaping\<close>

definition on_remove :: "(registry \<Rightarrow> cptr list) \<Rightarrow> session \<Rightarrow> master \<Rightarrow> mworld" where
  "on_remove order s t =
     (let w = world t;
          w1 = w\<lparr>pool := pool_release (s_tun s) (pool w)\<rparr>;
          w2 = (case s_conn s of
                  None \<Rightarrow> w1
                | Some port \<Rightarrow> w1\<lparr>dyn_ports := (if port \<noteq> 0 then dyn_ports w1 - {port} else dyn_ports w1),
                     socks := filter (\<lambda>d. ds_port d \<noteq> port) (socks w1)\<rparr>);
          w3 = w2\<lparr>uplinks := (uplinks w2)(ip_string (s_tun s) := None),
                  ccryptos := (ccryptos w2)(udp_string (s_client s) := None)\<rparr>;
          w4 = bump (\<lambda>k. k\<lparr>n_active := int (table_len t)\<rparr>) w3
      in emit (map (\<lambda>c. CtrlFrame (c_conn (conns (ctrl w4) ! c)) (send_frame MsgSessionEnd (s_id s)))
           (order (ctrl w4))) w4)"

definition master_reap :: "(registry \<Rightarrow> cptr list) \<Rightarrow> time \<Rightarrow> sptr list \<Rightarrow> master \<Rightarrow> master" where
  "master_reap order now ps m = reap (on_remove order) now ps m"

section \<open>Downlink\<close>

text \<open>The output function given to the network stack; the index errors of Go are \<open>None\<close>.\<close>

definition ns_output :: "mcfg \<Rightarrow> bytes \<Rightarrow> master \<Rightarrow> (dp_send option \<times> master) option" where
  "ns_output cfg pkt m =
     (if length pkt = 0 then None
      else let version = drop_bit 4 (pkt ! 0) in
        if length pkt < 20 \<or> version \<noteq> 4 \<and> version \<noteq> 6 then Some (None, m)
        else if version = 6 \<and> length pkt < 40 then None
        else case find_tun (ip_string (if version = 4 then slice 16 20 pkt else slice 24 40 pkt)) m of
          None \<Rightarrow> Some (None, m)
        | Some p \<Rightarrow>
            (case send_to_slave (mc_cipher cfg) (slave_of p m) pkt (dp (world m)) of
               (r, dp') \<Rightarrow> Some (Some r, on_world (\<lambda>w. w\<lparr>dp := dp'\<rparr>) m)))"

section \<open>Slaves coming and going\<close>

definition on_slave_register :: "mcfg \<Rightarrow> bytes option \<Rightarrow> string \<times> string \<Rightarrow> mworld \<Rightarrow> mworld" where
  "on_slave_register cfg rnd call w =
     (case mc_resolve cfg (snd call) of
        None \<Rightarrow> w
      | Some ua \<Rightarrow> w\<lparr>dp := register_slave rnd (fst call) ua (dp w)\<rparr>)"

definition master_slave_hello ::
    "mcfg \<Rightarrow> (bytes \<Rightarrow> slave_info option) \<Rightarrow> bytes option \<Rightarrow> nat \<Rightarrow> string \<Rightarrow> time \<Rightarrow> (byte \<times> bytes) option
      \<Rightarrow> master \<Rightarrow> cptr option \<times> master" where
  "master_slave_hello cfg decode rnd conn remote now first m =
     (case slave_hello decode conn remote now first (ctrl (world m)) of
        (None, r) \<Rightarrow> (None, on_world (\<lambda>w. w\<lparr>ctrl := r\<rparr>) m)
      | (Some (p, call), r) \<Rightarrow>
          (Some p, on_world (\<lambda>w. (case call of None \<Rightarrow> id | Some k \<Rightarrow> on_slave_register cfg rnd k)
             (w\<lparr>ctrl := r\<rparr>)) m))"

definition master_slave_read :: "cptr \<Rightarrow> time \<Rightarrow> (byte \<times> bytes) option \<Rightarrow> master \<Rightarrow> master" where
  "master_slave_read c now frame m =
     on_world (\<lambda>w. w\<lparr>ctrl := snd (slave_read c now frame (ctrl w))\<rparr>) m"

end
