(* ===== verification/MasterInv.thy ===== *)
theory MasterInv
  imports Master
begin

text \<open>
  What the master keeps true: every step is a run of the address pool's \<open>lease\<close> relation, so
  tunnel addresses are conserved and never held twice; every live session is found under its
  tunnel address; every cipher a socket decrypts with is keyed for the session it serves.
\<close>

section \<open>The abstraction to the address pool\<close>

definition held_addrs :: "'w sessions \<Rightarrow> ip multiset" where
  "held_addrs m = image_mset (\<lambda>p. s_tun (heap m ! p)) (mset (table_all m))"

definition lease_state :: "master \<Rightarrow> ippool \<times> ip multiset" where
  "lease_state m = (pool (world m), held_addrs m)"

definition valid_ptrs :: "'w sessions \<Rightarrow> bool" where
  "valid_ptrs m \<longleftrightarrow> (\<forall>p \<in> set (table_all m). p < length (heap m))"

lemma table_inv_ptrs: "table_inv m \<Longrightarrow> valid_ptrs m"
  using live_in_all[of m] by (auto simp: valid_ptrs_def live_def)

lemma held_cong:
  assumes "by_id m' = by_id m" and "valid_ptrs m" and "same_identity (heap m) (heap m')"
  shows "held_addrs m' = held_addrs m"
  unfolding held_addrs_def table_all_def assms(1)
  by (rule image_mset_cong) (use assms(2,3) in \<open>auto simp: same_identity_def valid_ptrs_def table_all_def\<close>)

lemma held_alloc:
  assumes "table_inv m"
  shows "held_addrs (m\<lparr>heap := heap m @ [s]\<rparr>) = held_addrs m"
  using table_inv_ptrs[OF assms]
  by (auto simp: held_addrs_def valid_ptrs_def table_all_def nth_append intro!: image_mset_cong)

lemma held_add:
  assumes "map_of (by_id m) (s_id (heap m ! p)) = None"
  shows "held_addrs (table_add p m) = add_mset (s_tun (heap m ! p)) (held_addrs m)"
  using aput_fresh[of "s_id (heap m ! p)" "by_id m" p] assms
  by (simp add: held_addrs_def table_all_def table_add_def Let_def map_of_eq_None_iff)

lemma held_remove:
  assumes "table_inv m" and "live m p"
  shows "held_addrs (table_remove hook (s_id (heap m ! p)) m) = held_addrs m - {#s_tun (heap m ! p)#}"
    and "s_tun (heap m ! p) \<in># held_addrs m"
proof -
  have some: "map_of (by_id m) (s_id (heap m ! p)) = Some p"
    using assms(2) by (simp add: live_def)
  obtain xs ys where "by_id m = xs @ (s_id (heap m ! p), p) # ys" "adel (s_id (heap m ! p)) (by_id m) = xs @ ys"
    using adel_split[OF _ some] assms(1) by (auto simp: table_inv_def)
  then show "held_addrs (table_remove hook (s_id (heap m ! p)) m) = held_addrs m - {#s_tun (heap m ! p)#}"
    using some by (simp add: held_addrs_def table_all_def table_remove_def Let_def)
  show "s_tun (heap m ! p) \<in># held_addrs m"
    using live_in_all[OF assms(1)] assms(2) by (auto simp: held_addrs_def)
qed

lemma held_remove_none: "map_of (by_id m) i = None \<Longrightarrow> table_remove hook i m = m"
  by (simp add: table_remove_def)

section \<open>Steps that leave sessions and pool alone\<close>

text \<open>At most \<open>LastSeen\<close>, \<open>SlaveID\<close>, the relay ciphers, counters, registry and outputs change.\<close>

definition quiet :: "master \<Rightarrow> master \<Rightarrow> bool" where
  "quiet m m' \<longleftrightarrow> same_identity (heap m) (heap m') \<and> by_id m' = by_id m \<and> by_tun m' = by_tun m
     \<and> by_client m' = by_client m \<and> pool (world m') = pool (world m)
     \<and> ccryptos (world m') = ccryptos (world m) \<and> socks (world m') = socks (world m)"

lemma same_identity_refl [simp]: "same_identity h h"
  by (simp add: same_identity_def)

lemma same_identity_trans: "same_identity h h' \<Longrightarrow> same_identity h' h'' \<Longrightarrow> same_identity h h''"
  by (simp add: same_identity_def)

lemma quiet_refl [simp]: "quiet m m"
  by (simp add: quiet_def)

lemma quiet_trans: "quiet m m' \<Longrightarrow> quiet m' m'' \<Longrightarrow> quiet m m''"
  by (auto simp: quiet_def intro: same_identity_trans)

lemma quiet_touch [simp]: "quiet m (touch now p m)"
  using same_identity_touch[of m now p] by (simp add: quiet_def) (simp add: touch_def)

lemma quiet_set_slave [simp]: "quiet m (set_slave i p m)"
  using same_identity_set_slave[of m i p] by (simp add: quiet_def) (simp add: set_slave_def)

lemma quiet_world:
  "pool (f (world m)) = pool (world m) \<Longrightarrow> ccryptos (f (world m)) = ccryptos (world m) \<Longrightarrow>
   socks (f (world m)) = socks (world m) \<Longrightarrow> quiet m (on_world f m)"
  by (simp add: quiet_def)

lemma world_parts [simp]:
  "pool (deliver pkt t w) = pool w" "ccryptos (deliver pkt t w) = ccryptos w" "socks (deliver pkt t w) = socks w"
  "uplinks (deliver pkt t w) = uplinks w" "ctrl (deliver pkt t w) = ctrl w" "dp (deliver pkt t w) = dp w"
  "replays (deliver pkt t w) = replays w"
  "pool (bump f w) = pool w" "ccryptos (bump f w) = ccryptos w" "socks (bump f w) = socks w"
  "uplinks (bump f w) = uplinks w" "ctrl (bump f w) = ctrl w" "dp (bump f w) = dp w" "replays (bump f w) = replays w"
  "events (bump f w) = events w"
  "pool (emit es w) = pool w" "ccryptos (emit es w) = ccryptos w" "socks (emit es w) = socks w"
  "uplinks (emit es w) = uplinks w" "ctrl (emit es w) = ctrl w" "dp (emit es w) = dp w" "replays (emit es w) = replays w"
  by (simp_all add: deliver_def bump_def emit_def)

lemma quiet_deliver [simp]: "quiet m (on_world (deliver pkt t) m)"
  by (rule quiet_world) simp_all

lemma quiet_uplink: "quiet m (handle_uplink cfg rnd now tip ct m)"
proof -
  let ?touched = "\<lambda>p. touch now p m"
  let ?cached = "\<lambda>p a. on_world (\<lambda>w. w\<lparr>uplinks := (uplinks w)(ip_string tip \<mapsto> a)\<rparr>) (?touched p)"
  have 1: "quiet m (?cached p a)" for p a
    by (rule quiet_trans[OF quiet_touch[of m now p]]) (rule quiet_world, simp_all)
  have 2: "quiet m (on_world (deliver pkt tip) (?cached p a))" for pkt p a
    by (rule quiet_trans[OF 1 quiet_deliver])
  show ?thesis
    unfolding handle_uplink_def Let_def
    by (split option.split, intro conjI impI allI quiet_refl, split option.split,
        intro conjI impI allI quiet_touch, split sum.split, intro conjI impI allI 1 2)
qed

lemma quiet_dp_read: "dp_read_step cfg rnd now src buf m = Some m' \<Longrightarrow> quiet m m'"
  by (auto simp: dp_read_step_def quiet_uplink split: dp_recv.splits)

lemma quiet_serve_data: "quiet m (serve_data cfg now d buf m)"
  by (auto simp: serve_data_def Let_def split: option.splits sum.splits
      intro: quiet_trans[OF quiet_touch quiet_deliver])

lemma quiet_slave_choice: "quiet m (handle_slave_choice cfg order payload m)"
  by (auto simp: handle_slave_choice_def Let_def split: option.splits sum.splits)

lemma quiet_output: "ns_output cfg pkt m = Some (r, m') \<Longrightarrow> quiet m m'"
  by (auto simp: ns_output_def Let_def intro!: quiet_world split: if_splits option.splits prod.splits)

lemma quiet_slave_hello: "quiet m (snd (master_slave_hello cfg decode rnd conn remote now first m))"
  by (auto simp: master_slave_hello_def on_slave_register_def intro!: quiet_world
      split: option.splits prod.splits)

lemma quiet_slave_read: "quiet m (master_slave_read c now frame m)"
  by (auto simp: master_slave_read_def intro!: quiet_world)

lemma quiet_serve:
  assumes "serve cfg e acc addr buf tr m = Some (tr', m')" and "\<not> (acc \<and> (\<exists>p. tr_unwrap tr buf = Some (PktTypeHandshake, p)))"
  shows "quiet m m'"
  using assms
  by (auto simp: serve_def Let_def quiet_slave_choice split: option.splits if_splits sum.splits
      intro: quiet_trans[OF quiet_touch quiet_deliver])

lemma quiet_lease: "table_inv m \<Longrightarrow> quiet m m' \<Longrightarrow> lease_state m' = lease_state m"
  using held_cong[of m' m] by (simp add: lease_state_def quiet_def table_inv_ptrs)

lemma quiet_table: "table_inv m \<Longrightarrow> quiet m m' \<Longrightarrow> table_inv m'"
proof -
  assume q: "quiet m m'" and "table_inv m"
  then have "table_inv (m\<lparr>heap := heap m'\<rparr>)"
    by (intro table_inv_heap) (simp_all add: quiet_def)
  with q show ?thesis
    by (simp add: table_inv_def live_def quiet_def)
qed

section \<open>The invariant\<close>

definition sess_keys :: "bytes \<Rightarrow> 'w sessions \<Rightarrow> bool" where
  "sess_keys token m \<longleftrightarrow> list_all (\<lambda>s. s_key s = session_key token (s_tun s)) (heap m)"

definition client_keys :: "master \<Rightarrow> bool" where
  "client_keys m \<longleftrightarrow> (\<forall>a p. find_client a m = Some p \<longrightarrow>
     (\<exists>k. ccryptos (world m) a = Some k \<and> a_key k = s_key (heap m ! p)))"

definition socks_ok :: "master \<Rightarrow> bool" where
  "socks_ok m \<longleftrightarrow> (\<forall>d \<in> set (socks (world m)).
     ds_sess d < length (heap m) \<and> a_key (ds_aead d) = s_key (heap m ! ds_sess d))"

definition tun_complete :: "'w sessions \<Rightarrow> bool" where
  "tun_complete m \<longleftrightarrow> (\<forall>p. live m p \<longrightarrow> find_tun (ip_string (s_tun (heap m ! p))) m = Some p)"

definition good_pool :: "ip multiset \<Rightarrow> bool" where
  "good_pool all \<longleftrightarrow> (\<forall>a \<in># all. length a = 4) \<and> (\<forall>a. count all a \<le> 1)"

definition master_inv :: "bytes \<Rightarrow> ip multiset \<Rightarrow> master \<Rightarrow> bool" where
  "master_inv token all m \<longleftrightarrow> table_inv m \<and> tunnel_pool.lease_inv all (lease_state m)
     \<and> sess_keys token m \<and> client_keys m \<and> socks_ok m \<and> tun_complete m"

lemma master_invD:
  assumes "master_inv token all m"
  shows "table_inv m" "tunnel_pool.lease_inv all (lease_state m)" "sess_keys token m" "client_keys m"
    "socks_ok m" "tun_complete m"
  using assms by (simp_all add: master_inv_def)

lemma master_inv_new:
  assumes "wf_pool p"
  shows "master_inv token (pool_free p) (new_master token p)"
  using assms
  by (simp add: master_inv_def new_master_def table_inv_new lease_state_def held_addrs_def
      tunnel_pool.lease_inv_def table_all_def)
     (simp add: new_table_def sess_keys_def client_keys_def socks_ok_def tun_complete_def find_client_def live_def)

lemma sess_key_at: "sess_keys token m \<Longrightarrow> p < length (heap m) \<Longrightarrow> s_key (heap m ! p) = session_key token (s_tun (heap m ! p))"
  by (simp add: sess_keys_def list_all_length)

lemma quiet_inv:
  assumes inv: "master_inv token all m" and q: "quiet m m'"
  shows "master_inv token all m'"
proof -
  have t: "table_inv m'" and l: "lease_state m' = lease_state m"
    using quiet_table[OF _ q] quiet_lease[OF _ q] inv by (simp_all add: master_inv_def)
  have h: "length (heap m') = length (heap m)"
    and id: "p < length (heap m) \<Longrightarrow> s_id (heap m' ! p) = s_id (heap m ! p) \<and> s_tun (heap m' ! p) = s_tun (heap m ! p)
      \<and> s_key (heap m' ! p) = s_key (heap m ! p)" for p
    using q by (simp_all add: quiet_def same_identity_def)
  have maps: "find_client a m' = find_client a m" "find_tun a m' = find_tun a m" "by_id m' = by_id m" for a
    using q by (simp_all add: quiet_def find_client_def find_tun_def)
  have live: "live m' p = live m p" for p
    using h id[of p] maps by (auto simp: live_def)
  have lt: "live m p \<Longrightarrow> p < length (heap m)" for p
    by (simp add: live_def)
  have "sess_keys token m'"
    using master_invD(3)[OF inv] h id by (simp add: sess_keys_def list_all_length)
  moreover have "client_keys m'"
    unfolding client_keys_def maps
  proof (intro allI impI)
    fix a p assume f: "find_client a m = Some p"
    then have "p < length (heap m)"
      using find_client_sound[OF master_invD(1)[OF inv]] lt by blast
    then show "\<exists>k. ccryptos (world m') a = Some k \<and> a_key k = s_key (heap m' ! p)"
      using f q id master_invD(4)[OF inv] by (simp add: client_keys_def quiet_def)
  qed
  moreover have "socks_ok m'"
    using master_invD(5)[OF inv] q h id by (simp add: socks_ok_def quiet_def)
  moreover have "tun_complete m'"
    using master_invD(6)[OF inv] id lt unfolding tun_complete_def live maps by simp
  ultimately show ?thesis
    using t l inv by (simp add: master_inv_def)
qed

section \<open>A session opened\<close>

definition session_of :: "mcfg \<Rightarrow> henv \<Rightarrow> udpaddr \<Rightarrow> cptr \<Rightarrow> ip \<Rightarrow> bytes \<Rightarrow> master \<Rightarrow> session" where
  "session_of cfg e addr c tun_ip sid m =
     \<lparr>s_id = sid, s_client = addr, s_tun = tun_ip, s_key = session_key (mc_token cfg) tun_ip,
      s_last = he_now e, s_slave = sl_id (conns (ctrl (world m)) ! c), s_conn = he_port e\<rparr>"

definition sock_of :: "henv \<Rightarrow> transport \<Rightarrow> sptr \<Rightarrow> aead \<Rightarrow> data_sock list" where
  "sock_of e tr p a = (case he_port e of None \<Rightarrow> []
     | Some q \<Rightarrow> [\<lparr>ds_port = q, ds_sess = p, ds_aead = a, ds_tr = tr\<rparr>])"

lemma open_session_parts:
  fixes cfg :: mcfg and e :: henv and addr :: udpaddr and tr :: transport and c :: cptr and tun :: ip
    and sid :: bytes and a :: aead and m :: master
  defines "M \<equiv> open_session cfg e addr tr c tun sid a m"
  shows "heap M = heap m @ [session_of cfg e addr c tun sid m]"
    "by_id M = aput sid (length (heap m)) (by_id m)"
    "by_tun M = aput (ip_string tun) (length (heap m)) (by_tun m)"
    "by_client M = aput (udp_string addr) (length (heap m)) (by_client m)"
    "pool (world M) = pool (world m)" "uplinks (world M) = uplinks (world m)"
    "ccryptos (world M) = (ccryptos (world m))(udp_string addr \<mapsto> a)"
    "socks (world M) = socks (world m) @ sock_of e tr (length (heap m)) a"
    "ctrl (world M) = ctrl (world m)" "dp (world M) = dp (world m)"
    "replays (world M) = replays (world m)" "events (world M) = events (world m)"
  by (simp_all add: M_def open_session_def Let_def alloc_session_def table_add_def session_of_def sock_of_def
      split: option.split)

lemma table_inv_same:
  "heap m' = heap m \<Longrightarrow> by_id m' = by_id m \<Longrightarrow> by_tun m' = by_tun m \<Longrightarrow> by_client m' = by_client m \<Longrightarrow>
     table_inv m' = table_inv m"
  by (simp add: table_inv_def live_def)

lemma open_table_inv:
  assumes "table_inv m" and "map_of (by_id m) sid = None"
  shows "table_inv (open_session cfg e addr tr c tun sid a m)"
proof -
  let ?s = "session_of cfg e addr c tun sid m"
  let ?m = "table_add (length (heap m)) (m\<lparr>heap := heap m @ [?s]\<rparr>)"
  have "table_inv (m\<lparr>heap := heap m @ [?s]\<rparr>)"
    using table_inv_alloc[OF assms(1), of ?s] by (simp add: alloc_session_def)
  then have "table_inv ?m"
    using assms(2) by (intro table_inv_add) (simp_all add: session_of_def)
  moreover have "table_inv (open_session cfg e addr tr c tun sid a m) = table_inv ?m"
    by (rule table_inv_same)
       (simp_all add: open_session_parts table_add_def Let_def, simp_all add: session_of_def)
  ultimately show ?thesis by simp
qed

lemma open_held:
  assumes "table_inv m" and "map_of (by_id m) sid = None"
  shows "held_addrs (open_session cfg e addr tr c tun sid a m) = add_mset tun (held_addrs m)"
proof -
  let ?s = "session_of cfg e addr c tun sid m"
  let ?m = "m\<lparr>heap := heap m @ [?s]\<rparr>"
  have "held_addrs (table_add (length (heap m)) ?m) = add_mset (s_tun (heap ?m ! length (heap m))) (held_addrs ?m)"
    using assms(2) by (intro held_add) (simp add: session_of_def)
  also have "\<dots> = add_mset tun (held_addrs m)"
    using held_alloc[OF assms(1), of ?s] by (simp add: session_of_def)
  finally show ?thesis
    by (simp add: held_addrs_def table_all_def open_session_parts table_add_def Let_def)
       (simp add: session_of_def)
qed

lemma open_live:
  assumes "table_inv m" and "map_of (by_id m) sid = None"
  shows "live (open_session cfg e addr tr c tun sid a m) p \<longleftrightarrow> p = length (heap m) \<or> live m p"
proof -
  have "map_of (by_id m) i \<noteq> Some (length (heap m))" for i
    using by_id_inv[OF assms(1), of i "length (heap m)"] by (auto simp: live_def)
  with assms(2) show ?thesis
    by (auto simp: live_def open_session_parts nth_append session_of_def less_Suc_eq simp del: map_of_eq_None_iff)
qed

lemma open_inv:
  fixes cfg :: mcfg and e :: henv and addr :: udpaddr and tr :: transport and c :: cptr and tun :: ip
    and sid :: bytes and a :: aead and m :: master
  assumes inv: "table_inv m" "sess_keys (mc_token cfg) m" "client_keys m" "socks_ok m" "tun_complete m"
    and fresh: "map_of (by_id m) sid = None" and a: "a_key a = session_key (mc_token cfg) tun"
    and new: "\<And>p. live m p \<Longrightarrow> ip_string (s_tun (heap m ! p)) \<noteq> ip_string tun"
  defines "m' \<equiv> open_session cfg e addr tr c tun sid a m"
  shows "table_inv m'" "sess_keys (mc_token cfg) m'" "client_keys m'" "socks_ok m'" "tun_complete m'"
proof -
  note parts = open_session_parts[of cfg e addr tr c tun sid a m, folded m'_def]
  let ?n = "length (heap m)"
  let ?s = "session_of cfg e addr c tun sid m"
  show "table_inv m'"
    unfolding m'_def by (rule open_table_inv[OF inv(1) fresh])
  show "sess_keys (mc_token cfg) m'"
    using inv(2) by (simp add: sess_keys_def parts session_of_def)
  have old: "heap m' ! p = heap m ! p" if "p < ?n" for p
    using that by (simp add: parts nth_append)
  have at: "heap m' ! ?n = ?s"
    by (simp add: parts)
  show "client_keys m'"
    unfolding client_keys_def
  proof (intro allI impI)
    fix x p assume f: "find_client x m' = Some p"
    show "\<exists>k. ccryptos (world m') x = Some k \<and> a_key k = s_key (heap m' ! p)"
    proof (cases "x = udp_string addr")
      case True
      then have "p = ?n"
        using f by (simp add: find_client_def parts)
      then show ?thesis
        using True a at by (simp add: parts session_of_def)
    next
      case False
      then have g: "find_client x m = Some p"
        using f by (simp add: find_client_def parts)
      then have "p < ?n"
        using find_client_sound[OF inv(1)] by (auto simp: live_def)
      with g False inv(3) old show ?thesis
        by (simp add: client_keys_def parts(7))
    qed
  qed
  show "socks_ok m'"
    using inv(4) a old at unfolding socks_ok_def
    by (auto simp: parts(1,8) sock_of_def session_of_def nth_append intro: less_SucI split: option.splits)
  show "tun_complete m'"
    unfolding tun_complete_def
  proof (intro allI impI)
    fix p assume "live m' p"
    then consider "p = ?n" | "live m p" "p < ?n"
      unfolding m'_def open_live[OF inv(1) fresh] by (auto simp: live_def)
    then show "find_tun (ip_string (s_tun (heap m' ! p))) m' = Some p"
    proof cases
      case 1
      then show ?thesis using at by (simp add: find_tun_def parts session_of_def)
    next
      case 2
      with inv(5) have "find_tun (ip_string (s_tun (heap m ! p))) m = Some p"
        by (simp add: tun_complete_def)
      with 2 new[of p] old show ?thesis
        by (simp add: find_tun_def parts(3))
    qed
  qed
qed

section \<open>The handshake is a lease\<close>

text \<open>
  What the theorems ask of a handshake's environment: a session id of 16 bytes no live
  session has, eight random bytes for the cipher's prefix, and a map order for \<open>Pick\<close>.
\<close>

definition env_ok :: "henv \<Rightarrow> master \<Rightarrow> bool" where
  "env_ok e m \<longleftrightarrow>
     (case he_id e of None \<Rightarrow> True | Some sid \<Rightarrow> length sid = 16 \<and> map_of (by_id m) sid = None)
   \<and> (case he_rnd e of None \<Rightarrow> True | Some r \<Rightarrow> length r = 8)
   \<and> is_snapshot (he_pick e) (ctrl (world m)) \<and> wf_env (he_wrap e)"

definition core_inv :: "bytes \<Rightarrow> master \<Rightarrow> bool" where
  "core_inv token m \<longleftrightarrow> table_inv m \<and> sess_keys token m \<and> client_keys m \<and> socks_ok m \<and> tun_complete m"

lemma master_inv_core:
  "master_inv token all m \<longleftrightarrow> core_inv token m \<and> tunnel_pool.lease_inv all (lease_state m)"
  by (auto simp: master_inv_def core_inv_def)

lemma core_world:
  "ccryptos (f (world m)) = ccryptos (world m) \<Longrightarrow> socks (f (world m)) = socks (world m) \<Longrightarrow>
     core_inv token (on_world f m) = core_inv token m"
  by (simp add: core_inv_def sess_keys_def client_keys_def socks_ok_def tun_complete_def live_def
      find_client_def find_tun_def table_inv_same[of "on_world f m" m])

lemma held_world [simp]: "held_addrs (on_world f m) = held_addrs m"
  by (simp add: held_addrs_def table_all_def)

lemma establish_quiet:
  "establish cfg e addr h tr c tun sid a m = Some (tr', m') \<Longrightarrow>
     quiet (open_session cfg e addr tr c tun sid a m) m'"
  by (auto simp: establish_def Let_def split: option.splits prod.splits intro!: quiet_world
      intro: quiet_trans)

text \<open>The ways a handshake can go.\<close>

lemma handshake_cases:
  assumes "handle_handshake cfg e addr payload tr m = Some (tr', m')"
  obtains (quiet) "quiet m m'" "events (world m') = events (world m)" "uplinks (world m') = uplinks (world m)"
  | (returned) f tun p' where "pool_allocate (pool (world m)) = (Some tun, p')" "m' = on_world f m"
      "pool (f (world m)) = pool_release tun p'" "ccryptos (f (world m)) = ccryptos (world m)"
      "socks (f (world m)) = socks (world m)" "events (f (world m)) = events (world m)"
      "uplinks (f (world m)) = uplinks (world m)"
  | (opened) f tun p' h c sid a where "pool_allocate (pool (world m)) = (Some tun, p')"
      "hello_guard (mc_token cfg) (he_unix e) payload (replays (world m)) = (Inr h, replays (f (world m)))"
      "fst (pick (he_pick e) (ctrl (world m))) = Some c"
      "he_id e = Some sid" "new_aead (session_key (mc_token cfg) tun) (he_rnd e) = Some a"
      "pool (f (world m)) = p'" "ccryptos (f (world m)) = ccryptos (world m)" "socks (f (world m)) = socks (world m)"
      "ctrl (f (world m)) = snd (pick (he_pick e) (ctrl (world m)))" "uplinks (f (world m)) = uplinks (world m)"
      "events (f (world m)) = events (world m)" "dp (f (world m)) = dp (world m)"
      "establish cfg e addr h tr c tun sid a (on_world f m) = Some (tr', m')"
proof -
  obtain g r' where guard: "hello_guard (mc_token cfg) (he_unix e) payload (replays (world m)) = (g, r')"
    by (cases "hello_guard (mc_token cfg) (he_unix e) payload (replays (world m))")
  show thesis
  proof (cases g)
    case (Inl rej)
    with assms guard have "m' = on_world (\<lambda>w. bump (\<lambda>k. if is_auth_failure rej
        then k\<lparr>n_auth_failures := n_auth_failures k + 1\<rparr> else k) (w\<lparr>replays := r'\<rparr>)) m"
      by (auto simp: handle_handshake_def)
    moreover from this have "quiet m m'"
      by (simp only:) (rule quiet_world, simp_all)
    ultimately show thesis by (intro quiet) simp_all
  next
    case (Inr h)
    obtain oc reg where pk: "pick (he_pick e) (ctrl (world m)) = (oc, reg)"
      by (cases "pick (he_pick e) (ctrl (world m))")
    show thesis
    proof (cases oc)
      case None
      with assms guard Inr pk have "m' = on_world (\<lambda>w. w\<lparr>replays := r'\<rparr>) m"
        by (auto simp: handle_handshake_def Let_def)
      moreover from this have "quiet m m'"
        by (simp only:) (rule quiet_world, simp_all)
      ultimately show thesis by (intro quiet) simp_all
    next
      case (Some c)
      obtain oa p' where al: "pool_allocate (pool (world m)) = (oa, p')"
        by (cases "pool_allocate (pool (world m))")
      show thesis
      proof (cases oa)
        case None
        with assms guard Inr pk Some al have "m' = on_world (\<lambda>w. w\<lparr>replays := r', ctrl := reg\<rparr>) m"
          by (auto simp: handle_handshake_def Let_def)
        moreover from this have "quiet m m'"
          by (simp only:) (rule quiet_world, simp_all)
        ultimately show thesis by (intro quiet) simp_all
      next
        case (Some tun)
        let ?f = "\<lambda>w. w\<lparr>replays := r', ctrl := reg, pool := p'\<rparr>"
        let ?b = "\<lambda>w. w\<lparr>replays := r', ctrl := reg, pool := pool_release tun p'\<rparr>"
        note facts = assms guard Inr pk \<open>oc = Some c\<close> al Some
        show thesis
        proof (cases "he_id e")
          case None
          with facts have "m' = on_world ?b m"
            by (auto simp: handle_handshake_def Let_def)
          with facts show thesis by (intro returned[of tun p' ?b]) simp_all
        next
          case (Some sid)
          show thesis
          proof (cases "new_aead (session_key (mc_token cfg) tun) (he_rnd e)")
            case None
            with facts Some have "m' = on_world ?b m"
              by (auto simp: handle_handshake_def Let_def)
            with facts show thesis by (intro returned[of tun p' ?b]) simp_all
          next
            case (Some a)
            with facts \<open>he_id e = Some sid\<close>
            have "establish cfg e addr h tr c tun sid a (on_world ?f m) = Some (tr', m')"
              by (simp add: handle_handshake_def Let_def)
            with facts Some \<open>he_id e = Some sid\<close> show thesis
              by (intro opened[of tun p' h ?f c sid a]) simp_all
          qed
        qed
      qed
    qed
  qed
qed

lemma allocated_not_held:
  assumes "master_inv token all m" and "good_pool all" and "pool_allocate (pool (world m)) = (Some tun, p')"
    and "live m p"
  shows "ip_string (s_tun (heap m ! p)) \<noteq> ip_string tun"
proof
  assume same: "ip_string (s_tun (heap m ! p)) = ip_string tun"
  have inv: "tunnel_pool.lease_inv all (lease_state m)"
    using assms(1) by (rule master_invD)
  then have eq: "pool_free (pool (world m)) + held_addrs m = all" and wf: "wf_pool (pool (world m))"
    by (simp_all add: tunnel_pool.lease_inv_def lease_state_def)
  have free: "tun \<in># pool_free (pool (world m))"
    using tunnel_pool.allocate_Some[OF wf assms(3)] by simp
  have held: "s_tun (heap m ! p) \<in># held_addrs m"
    using held_remove(2)[OF master_invD(1)[OF assms(1)] assms(4)] .
  have "length (s_tun (heap m ! p)) = 4" "length tun = 4"
    using assms(2) free held by (auto simp: good_pool_def eq [symmetric])
  then have "s_tun (heap m ! p) = tun"
    using same ip_string_inj[of "s_tun (heap m ! p)" "s_tun (heap m ! p)" tun tun] by simp
  then show False
    using tunnel_pool.lease_inv_distinct(2)[OF inv, of tun] assms(2) free held
    by (simp add: good_pool_def lease_state_def)
qed

lemma handshake_lease:
  assumes inv: "master_inv (mc_token cfg) all m" and good: "good_pool all" and env: "env_ok e m"
    and step: "handle_handshake cfg e addr payload tr m = Some (tr', m')"
  shows "tunnel_pool.lease\<^sup>*\<^sup>* (lease_state m) (lease_state m')" "master_inv (mc_token cfg) all m'"
proof -
  have core: "core_inv (mc_token cfg) m" and li: "tunnel_pool.lease_inv all (lease_state m)"
    using inv by (simp_all add: master_inv_core)
  have "tunnel_pool.lease\<^sup>*\<^sup>* (lease_state m) (lease_state m') \<and> core_inv (mc_token cfg) m'"
    using step
  proof (cases rule: handshake_cases)
    case quiet
    have "lease_state m' = lease_state m"
      by (rule quiet_lease[OF master_invD(1)[OF inv] quiet(1)])
    moreover have "core_inv (mc_token cfg) m'"
      using quiet_inv[OF inv quiet(1)] by (simp only: master_inv_core)
    ultimately show ?thesis by simp
  next
    case (returned f tun p')
    have "tunnel_pool.lease (lease_state m) (p', add_mset tun (held_addrs m))"
      using returned(1) by (simp add: lease_state_def tunnel_pool.lease.take)
    moreover have "tunnel_pool.lease (p', add_mset tun (held_addrs m)) (lease_state m')"
      using tunnel_pool.lease.give[of tun "add_mset tun (held_addrs m)" p'] returned(2,3)
      by (simp add: lease_state_def)
    ultimately have "tunnel_pool.lease\<^sup>*\<^sup>* (lease_state m) (lease_state m')"
      by (meson r_into_rtranclp rtranclp.rtrancl_into_rtrancl)
    then show ?thesis
      using core_world[of f m] returned(2,4,5) core by simp
  next
    case (opened f tun p' h c sid a)
    let ?m = "on_world f m"
    let ?o = "open_session cfg e addr tr c tun sid a ?m"
    have core': "core_inv (mc_token cfg) ?m"
      using core_world[of f m] opened core by simp
    have fresh: "map_of (by_id ?m) sid = None"
      using env opened(4) by (simp add: env_ok_def)
    have key: "a_key a = session_key (mc_token cfg) tun"
      using opened(5) by (auto simp: new_aead_def split: option.splits)
    have new: "ip_string (s_tun (heap ?m ! p)) \<noteq> ip_string tun" if "live ?m p" for p
      using allocated_not_held[OF inv good opened(1), of p] that by (simp add: live_def)
    have "core_inv (mc_token cfg) ?o"
      using open_inv[OF _ _ _ _ _ fresh key new] core' by (simp add: core_inv_def)
    moreover have "held_addrs ?o = add_mset tun (held_addrs m)"
      using open_held[OF _ fresh] core' by (simp add: core_inv_def)
    then have "tunnel_pool.lease (lease_state m) (lease_state ?o)"
      using opened(1,6) by (simp add: lease_state_def open_session_parts tunnel_pool.lease.take)
    moreover have "quiet ?o m'"
      using establish_quiet[OF opened(13)] .
    moreover have "tunnel_pool.lease_inv all (lease_state ?o)"
      using li calculation(2) tunnel_pool.lease_step_inv by blast
    moreover have "master_inv (mc_token cfg) all ?o"
      using calculation(1,4) by (simp only: master_inv_core)
    ultimately have "master_inv (mc_token cfg) all m'" "lease_state m' = lease_state ?o"
      using quiet_inv[of "mc_token cfg" all ?o m'] quiet_lease[of ?o m']
      by (simp_all only: master_inv_def)
    then show ?thesis
      using \<open>tunnel_pool.lease (lease_state m) (lease_state ?o)\<close>
      by (simp only: master_inv_core) (blast intro: r_into_rtranclp)
  qed
  then show "tunnel_pool.lease\<^sup>*\<^sup>* (lease_state m) (lease_state m')" "master_inv (mc_token cfg) all m'"
    using tunnel_pool.lease_run_inv[of "lease_state m" "lease_state m'" all] li
    by (simp_all only: master_inv_core)
qed

section \<open>Removal gives the lease back\<close>

lemma on_remove_parts:
  "pool (on_remove order s t) = pool_release (s_tun s) (pool (world t))"
  "ccryptos (on_remove order s t) = (ccryptos (world t))(udp_string (s_client s) := None)"
  "uplinks (on_remove order s t) = (uplinks (world t))(ip_string (s_tun s) := None)"
  "set (socks (on_remove order s t)) \<subseteq> set (socks (world t))"
  "ctrl (on_remove order s t) = ctrl (world t)" "dp (on_remove order s t) = dp (world t)"
  "replays (on_remove order s t) = replays (world t)"
  "events (on_remove order s t) = events (world t) @
     map (\<lambda>c. CtrlFrame (c_conn (conns (ctrl (world t)) ! c)) (send_frame MsgSessionEnd (s_id s)))
       (order (ctrl (world t)))"
  by (auto simp: on_remove_def Let_def emit_def bump_def split: option.splits)

lemma remove_parts:
  fixes order :: "registry \<Rightarrow> cptr list"
  assumes "live m p"
  defines "m' \<equiv> table_remove (on_remove order) (s_id (heap m ! p)) m"
  shows "by_client m' = adel (udp_string (s_client (heap m ! p))) (by_client m)"
    "by_tun m' = adel (ip_string (s_tun (heap m ! p))) (by_tun m)"
    "pool (world m') = pool_release (s_tun (heap m ! p)) (pool (world m))"
    "ccryptos (world m') = (ccryptos (world m))(udp_string (s_client (heap m ! p)) := None)"
    "set (socks (world m')) \<subseteq> set (socks (world m))"
proof -
  let ?s = "heap m ! p"
  let ?t = "m\<lparr>by_id := adel (s_id ?s) (by_id m), by_tun := adel (ip_string (s_tun ?s)) (by_tun m),
    by_client := adel (udp_string (s_client ?s)) (by_client m)\<rparr>"
  have m': "m' = ?t\<lparr>world := on_remove order ?s ?t\<rparr>"
    using assms(1) by (simp add: m'_def table_remove_def live_def Let_def)
  show "by_client m' = adel (udp_string (s_client ?s)) (by_client m)"
    "by_tun m' = adel (ip_string (s_tun ?s)) (by_tun m)"
    "pool (world m') = pool_release (s_tun ?s) (pool (world m))"
    "ccryptos (world m') = (ccryptos (world m))(udp_string (s_client ?s) := None)"
    by (simp_all add: m' on_remove_parts)
  show "set (socks (world m')) \<subseteq> set (socks (world m))"
    using on_remove_parts(4)[of order ?s ?t] by (simp add: m')
qed

lemma remove_core:
  assumes core: "core_inv token m" and p: "live m p"
  shows "core_inv token (table_remove (on_remove order) (s_id (heap m ! p)) m)"
proof -
  let ?m = "table_remove (on_remove order) (s_id (heap m ! p)) m"
  note parts = remove_parts[OF p, of order]
  have inv: "table_inv m" "sess_keys token m" "client_keys m" "socks_ok m" "tun_complete m"
    using core by (simp_all add: core_inv_def)
  have "client_keys ?m"
    using inv(3) unfolding client_keys_def
    by (simp add: find_client_def parts(1,4))
  moreover have "socks_ok ?m"
    using inv(4) parts(5) by (auto simp: socks_ok_def)
  moreover have "tun_complete ?m"
    unfolding tun_complete_def remove_heap
  proof (intro allI impI)
    fix q assume "live ?m q"
    then have q: "live m q" "q \<noteq> p"
      by (auto simp: remove_live)
    then have fq: "find_tun (ip_string (s_tun (heap m ! q))) m = Some q"
      using inv(5) by (simp add: tun_complete_def)
    have "ip_string (s_tun (heap m ! q)) \<noteq> ip_string (s_tun (heap m ! p))"
      using fq q(2) p inv(5) by (auto simp: tun_complete_def)
    with fq show "find_tun (ip_string (s_tun (heap m ! q))) ?m = Some q"
      by (simp add: find_tun_def parts(2))
  qed
  ultimately show ?thesis
    using inv(1,2) table_inv_remove[OF inv(1), of "on_remove order"]
    by (simp add: core_inv_def sess_keys_def)
qed

lemma remove_lease:
  assumes "table_inv m" and "live m p"
  shows "tunnel_pool.lease (lease_state m) (lease_state (table_remove (on_remove order) (s_id (heap m ! p)) m))"
  using tunnel_pool.lease.give[OF held_remove(2)[OF assms], of "pool (world m)"]
  by (simp add: lease_state_def held_remove(1)[OF assms] remove_parts(3)[OF assms(2)])

lemma by_id_live: "table_inv m \<Longrightarrow> map_of (by_id m) i \<noteq> None \<Longrightarrow> \<exists>p. live m p \<and> s_id (heap m ! p) = i"
  using by_id_inv[of m i] by auto

lemma remove_any:
  assumes "core_inv token m"
  shows "core_inv token (table_remove (on_remove order) i m)"
    "tunnel_pool.lease\<^sup>*\<^sup>* (lease_state m) (lease_state (table_remove (on_remove order) i m))"
proof -
  have t: "table_inv m"
    using assms by (simp add: core_inv_def)
  have "core_inv token (table_remove (on_remove order) i m)
      \<and> tunnel_pool.lease\<^sup>*\<^sup>* (lease_state m) (lease_state (table_remove (on_remove order) i m))"
  proof (cases "map_of (by_id m) i = None")
    case True
    with assms show ?thesis by (simp add: held_remove_none)
  next
    case False
    then obtain p where p: "live m p" "s_id (heap m ! p) = i"
      using by_id_live[OF t] by blast
    then show ?thesis
      using remove_core[OF assms p(1), of order] remove_lease[OF t p(1), of order] by auto
  qed
  then show "core_inv token (table_remove (on_remove order) i m)"
    "tunnel_pool.lease\<^sup>*\<^sup>* (lease_state m) (lease_state (table_remove (on_remove order) i m))"
    by blast+
qed

lemma reap_lease:
  assumes "core_inv token m"
  shows "core_inv token (master_reap order now ps m)
    \<and> tunnel_pool.lease\<^sup>*\<^sup>* (lease_state m) (lease_state (master_reap order now ps m))"
  using assms unfolding master_reap_def
proof (induction ps arbitrary: m)
  case (Cons p ps)
  let ?m = "if expired now (heap m ! p) then table_remove (on_remove order) (s_id (heap m ! p)) m else m"
  have "core_inv token ?m" "tunnel_pool.lease\<^sup>*\<^sup>* (lease_state m) (lease_state ?m)"
    using remove_any[OF Cons.prems] Cons.prems by auto
  with Cons.IH[of ?m] show ?case
    by (simp only: reap.simps) (blast intro: rtranclp_trans)
qed simp

section \<open>The step relation\<close>

text \<open>
  Everything that can happen at the master, one event at a time, with any environment. The
  data plane hands a relayed packet to a goroutine of its own, so \<open>relayed\<close> lets it be handled
  in any later state.
\<close>

inductive mstep :: "mcfg \<Rightarrow> master \<Rightarrow> master \<Rightarrow> bool" for cfg where
  control: "env_ok e m \<Longrightarrow> serve cfg e acc addr buf tr m = Some (tr', m') \<Longrightarrow> mstep cfg m m'"
| data: "d \<in> set (socks (world m)) \<Longrightarrow> mstep cfg m (serve_data cfg now d buf m)"
| relay: "dp_read_step cfg rnd now src buf m = Some m' \<Longrightarrow> mstep cfg m m'"
| relayed: "length tip = 4 \<Longrightarrow> mstep cfg m (handle_uplink cfg rnd now tip ct m)"
| tick: "is_all ps m \<Longrightarrow> mstep cfg m (master_reap order now ps m)"
| downlink: "ns_output cfg pkt m = Some (r, m') \<Longrightarrow> mstep cfg m m'"
| slave_up: "mstep cfg m (snd (master_slave_hello cfg decode rnd conn remote now first m))"
| slave_msg: "mstep cfg m (master_slave_read c now frame m)"

inductive_cases mstep_cases: "mstep cfg m m'"

lemma serve_lease:
  assumes inv: "master_inv (mc_token cfg) all m" and "good_pool all" and "env_ok e m"
    and "serve cfg e acc addr buf tr m = Some (tr', m')"
  shows "tunnel_pool.lease\<^sup>*\<^sup>* (lease_state m) (lease_state m')" "master_inv (mc_token cfg) all m'"
proof -
  have "tunnel_pool.lease\<^sup>*\<^sup>* (lease_state m) (lease_state m') \<and> master_inv (mc_token cfg) all m'"
  proof (cases "acc \<and> (\<exists>p. tr_unwrap tr buf = Some (PktTypeHandshake, p))")
    case True
    with assms(4) obtain payload where "handle_handshake cfg e addr payload tr m = Some (tr', m')"
      by (auto simp: serve_def)
    then show ?thesis
      using handshake_lease[OF assms(1-3)] by blast
  next
    case False
    then have q: "quiet m m'"
      using quiet_serve[OF assms(4)] by blast
    then have "lease_state m' = lease_state m"
      by (rule quiet_lease[OF master_invD(1)[OF inv]])
    then show ?thesis
      using quiet_inv[OF inv q] by simp
  qed
  then show "tunnel_pool.lease\<^sup>*\<^sup>* (lease_state m) (lease_state m')" "master_inv (mc_token cfg) all m'"
    by blast+
qed

lemma quiet_lease_inv:
  assumes "master_inv token all m" and "quiet m m'"
  shows "tunnel_pool.lease\<^sup>*\<^sup>* (lease_state m) (lease_state m') \<and> master_inv token all m'"
  using quiet_lease[OF master_invD(1)[OF assms(1)] assms(2)] quiet_inv[OF assms] by simp

text \<open>Each step refines the address pool and keeps the invariant.\<close>

lemma mstep_refines:
  assumes "mstep cfg m m'" and "master_inv (mc_token cfg) all m" and "good_pool all"
  shows "tunnel_pool.lease\<^sup>*\<^sup>* (lease_state m) (lease_state m') \<and> master_inv (mc_token cfg) all m'"
  using assms
proof (induction rule: mstep.induct)
  case (control e m acc addr buf tr tr' m')
  then show ?case using serve_lease by blast
next
  case (tick ps m order now)
  have core: "core_inv (mc_token cfg) m" "tunnel_pool.lease_inv all (lease_state m)"
    using tick.prems by (simp_all only: master_inv_core)
  then show ?case
    using reap_lease[OF core(1), of order now ps] tunnel_pool.lease_run_inv[OF _ core(2)]
    unfolding master_inv_core by blast
next
  case (data d m now buf)
  show ?case by (rule quiet_lease_inv[OF data.prems(1) quiet_serve_data])
next
  case (relay rnd now src buf m m')
  show ?case by (rule quiet_lease_inv[OF relay.prems(1) quiet_dp_read[OF relay.hyps]])
next
  case (relayed tip m rnd now ct)
  show ?case by (rule quiet_lease_inv[OF relayed.prems(1) quiet_uplink])
next
  case (downlink pkt m r m')
  show ?case by (rule quiet_lease_inv[OF downlink.prems(1) quiet_output[OF downlink.hyps]])
next
  case (slave_up m decode rnd conn remote now first)
  show ?case by (rule quiet_lease_inv[OF slave_up.prems(1) quiet_slave_hello])
next
  case (slave_msg m c now frame)
  show ?case by (rule quiet_lease_inv[OF slave_msg.prems(1) quiet_slave_read])
qed

lemma msteps_inv:
  "(mstep cfg)\<^sup>*\<^sup>* m m' \<Longrightarrow> master_inv (mc_token cfg) all m \<Longrightarrow> good_pool all \<Longrightarrow> master_inv (mc_token cfg) all m'"
  by (induction rule: rtranclp_induct) (use mstep_refines in blast)+

lemma msteps_lease:
  assumes "(mstep cfg)\<^sup>*\<^sup>* m m'" and "master_inv (mc_token cfg) all m" and "good_pool all"
  shows "tunnel_pool.lease\<^sup>*\<^sup>* (lease_state m) (lease_state m')"
  using assms
proof (induction rule: rtranclp_induct)
  case (step y z)
  then have "master_inv (mc_token cfg) all y"
    using msteps_inv by blast
  with step mstep_refines[of cfg y z all] show ?case
    by (meson rtranclp_trans)
qed simp

end
