(* ===== verification/MasterSafety.thy ===== *)
theory MasterSafety
  imports MasterInv
begin

text \<open>
  What the master's steps can do: which packets it injects into the network stack and why,
  where it sends downlink packets, what a handshake answers, and what the registries keep.
\<close>

section \<open>Registry and data plane\<close>

definition slaves_inv :: "mworld \<Rightarrow> bool" where
  "slaves_inv w \<longleftrightarrow> registry_inv (ctrl w) \<and> dp_inv (dp w)"

text \<open>The bytes of a fresh cipher's prefix, where a step draws any, are eight.\<close>

lemma slaves_inv_new: "slaves_inv (world (new_master token p))"
  by (simp add: slaves_inv_def new_master_def new_table_def registry_inv_new dp_inv_new)

lemma slaves_inv_on_register:
  "slaves_inv w \<Longrightarrow> \<forall>r. rnd = Some r \<longrightarrow> length r = 8 \<Longrightarrow> slaves_inv (on_slave_register cfg rnd k w)"
  by (auto simp: slaves_inv_def on_slave_register_def dp_inv_register split: option.splits)

lemma slaves_inv_hello:
  assumes "slaves_inv (world m)" and "\<forall>r. rnd = Some r \<longrightarrow> length r = 8"
  shows "slaves_inv (world (snd (master_slave_hello cfg decode rnd conn remote now first m)))"
proof -
  obtain x r where h: "slave_hello decode conn remote now first (ctrl (world m)) = (x, r)"
    by (cases "slave_hello decode conn remote now first (ctrl (world m))")
  have "registry_inv r"
  proof (cases x)
    case None
    with h have "r = ctrl (world m)"
      by (auto simp: slave_hello_def Let_def split: option.splits prod.splits if_splits)
    with assms(1) show ?thesis by (simp add: slaves_inv_def)
  next
    case (Some y)
    obtain p call where "y = (p, call)" by (cases y)
    with h Some show ?thesis
      using slave_hello_registers(1)[of decode conn remote now first "ctrl (world m)" p call r] assms(1)
      by (simp add: slaves_inv_def)
  qed
  then have "slaves_inv ((world m)\<lparr>ctrl := r\<rparr>)"
    using assms(1) by (simp add: slaves_inv_def)
  with h assms(2) show ?thesis
    by (auto simp: master_slave_hello_def intro!: slaves_inv_on_register split: option.splits)
qed

lemma slaves_inv_read: "slaves_inv (world m) \<Longrightarrow> slaves_inv (world (master_slave_read c now frame m))"
  by (simp add: master_slave_read_def slaves_inv_def slave_read_inv)

lemma slaves_inv_output:
  "ns_output cfg pkt m = Some (r, m') \<Longrightarrow> slaves_inv (world m) \<Longrightarrow> slaves_inv (world m')"
proof -
  assume inv: "slaves_inv (world m)" and o: "ns_output cfg pkt m = Some (r, m')"
  have "slaves_inv ((world m)\<lparr>dp := snd (send_to_slave C i pkt (dp (world m)))\<rparr>)" for C i
    using inv by (simp add: slaves_inv_def dp_inv_send)
  then have s: "send_to_slave C i pkt (dp (world m)) = (x, d) \<Longrightarrow> slaves_inv ((world m)\<lparr>dp := d\<rparr>)" for C i x d
    by (metis snd_conv)
  show ?thesis
    using o inv by (auto simp: ns_output_def Let_def intro: s split: if_splits option.splits prod.splits)
qed

section \<open>The relay's cipher cache\<close>

definition uplinks_ok :: "bytes \<Rightarrow> master \<Rightarrow> bool" where
  "uplinks_ok token m \<longleftrightarrow> (\<forall>k a t. uplinks (world m) k = Some a \<longrightarrow> to4 t \<noteq> None \<longrightarrow> ip_string t = k
     \<longrightarrow> a_key a = session_key token t)"

lemma live_v4:
  assumes "master_inv token all m" and "good_pool all" and "live m p"
  shows "length (s_tun (heap m ! p)) = 4"
proof -
  have "s_tun (heap m ! p) \<in># held_addrs m"
    using held_remove(2)[OF master_invD(1)[OF assms(1)] assms(3)] .
  moreover have "pool_free (pool (world m)) + held_addrs m = all"
    using master_invD(2)[OF assms(1)] by (simp add: tunnel_pool.lease_inv_def lease_state_def)
  ultimately show ?thesis
    using assms(2) by (auto simp: good_pool_def)
qed

lemma session_key_string:
  "to4 a = Some x \<Longrightarrow> to4 b = Some y \<Longrightarrow> ip_string a = ip_string b \<Longrightarrow> session_key token a = session_key token b"
  using ip_string_inj[of a x b y] by (intro session_key_cong) simp

text \<open>One relayed datagram: what it injects was sealed under the key of the session it names.\<close>

lemma handle_uplink_effect:
  assumes inv: "master_inv token all m" and good: "good_pool all" and up: "uplinks_ok token m"
    and t: "to4 tip \<noteq> None"
  shows "uplinks_ok token (handle_uplink cfg rnd now tip ct m)"
    and "events (world (handle_uplink cfg rnd now tip ct m)) = events (world m)
      \<or> (\<exists>p a pkt. events (world (handle_uplink cfg rnd now tip ct m)) = events (world m) @ [Inject pkt]
          \<and> live m p \<and> src_matches_tunnel pkt (s_tun (heap m ! p))
          \<and> a_key a = session_key token (s_tun (heap m ! p)) \<and> aead_open (mc_cipher cfg) a ct = Inr pkt)"
proof -
  let ?m' = "handle_uplink cfg rnd now tip ct m"
  have "uplinks_ok token ?m' \<and> (events (world ?m') = events (world m)
      \<or> (\<exists>p a pkt. events (world ?m') = events (world m) @ [Inject pkt]
          \<and> live m p \<and> src_matches_tunnel pkt (s_tun (heap m ! p))
          \<and> a_key a = session_key token (s_tun (heap m ! p)) \<and> aead_open (mc_cipher cfg) a ct = Inr pkt))"
  proof (cases "find_tun (ip_string tip) m")
    case None
    then show ?thesis using up by (simp add: handle_uplink_def)
  next
    case (Some p)
    let ?m1 = "touch now p m"
    have p: "live m p" "ip_string (s_tun (heap m ! p)) = ip_string tip"
      using find_tun_sound[OF master_invD(1)[OF inv] Some] by simp_all
    have w1: "world ?m1 = world m"
      by (simp add: touch_def)
    have len: "length (s_tun (heap m ! p)) = 4"
      by (rule live_v4[OF inv good p(1)])
    obtain x where x: "to4 tip = Some x"
      using t by blast
    have same: "to4 (s_tun (heap m ! p)) = to4 tip"
      using ip_string_inj[OF to4_len4[OF len] x] p(2) len x by simp
    have key: "s_key (heap ?m1 ! p) = session_key token tip"
      using sess_key_at[OF master_invD(3)[OF inv], of p] p(1) session_key_cong[OF same]
      by (simp add: touch_def live_def)
    show ?thesis
    proof (cases "case uplinks (world ?m1) (ip_string tip) of Some a \<Rightarrow> Some a
        | None \<Rightarrow> new_aead (s_key (heap ?m1 ! p)) rnd")
      case None
      then have "?m' = ?m1"
        using Some by (simp add: handle_uplink_def Let_def)
      then show ?thesis
        using up w1 by (simp add: uplinks_ok_def)
    next
      case sa: (Some a)
      have ak: "a_key a = session_key token tip"
        using sa up t key by (auto simp: w1 uplinks_ok_def new_aead_def split: option.splits)
      let ?m2 = "on_world (\<lambda>w. w\<lparr>uplinks := (uplinks w)(ip_string tip \<mapsto> a)\<rparr>) ?m1"
      have up2: "uplinks_ok token ?m2"
        unfolding uplinks_ok_def
      proof (intro allI impI)
        fix k b u assume h: "uplinks (world ?m2) k = Some b" "to4 u \<noteq> None" "ip_string u = k"
        show "a_key b = session_key token u"
        proof (cases "k = ip_string tip")
          case True
          obtain y where "to4 u = Some y" using h(2) by blast
          with True h x show ?thesis
            using session_key_string[OF x, of u y token] ak by simp
        next
          case False
          with h up w1 show ?thesis by (simp add: uplinks_ok_def)
        qed
      qed
      show ?thesis
      proof (cases "aead_open (mc_cipher cfg) a ct")
        case (Inl e)
        then have "?m' = ?m2"
          using Some sa by (simp add: handle_uplink_def Let_def)
        then show ?thesis using up2 w1 by simp
      next
        case (Inr pkt)
        then have m': "?m' = on_world (deliver pkt tip) ?m2"
          using Some sa by (simp add: handle_uplink_def Let_def)
        have "uplinks_ok token ?m'"
          using up2 unfolding m' uplinks_ok_def by simp
        moreover have "src_matches_tunnel pkt tip = src_matches_tunnel pkt (s_tun (heap m ! p))"
          using same by (simp add: src_matches_tunnel_def)
        moreover have "a_key a = session_key token (s_tun (heap m ! p))"
          using ak session_key_cong[OF same] by simp
        ultimately show ?thesis
          using p(1) Inr w1 unfolding m' by (auto simp: deliver_def emit_def bump_def)
      qed
    qed
  qed
  then show "uplinks_ok token ?m'"
    and "events (world ?m') = events (world m)
      \<or> (\<exists>p a pkt. events (world ?m') = events (world m) @ [Inject pkt]
          \<and> live m p \<and> src_matches_tunnel pkt (s_tun (heap m ! p))
          \<and> a_key a = session_key token (s_tun (heap m ! p)) \<and> aead_open (mc_cipher cfg) a ct = Inr pkt)"
    by blast+
qed

section \<open>What gets injected\<close>

text \<open>
  A packet is authentic when it was sealed under the key of a session the master created and
  its source address is that session's tunnel address.
\<close>

definition authentic :: "mcfg \<Rightarrow> 'w sessions \<Rightarrow> bytes \<Rightarrow> bool" where
  "authentic cfg m pkt \<longleftrightarrow> (\<exists>p a ct. p < length (heap m)
     \<and> a_key a = session_key (mc_token cfg) (s_tun (heap m ! p))
     \<and> aead_open (mc_cipher cfg) a ct = Inr pkt \<and> src_matches_tunnel pkt (s_tun (heap m ! p)))"

definition extends :: "'w sessions \<Rightarrow> 'w sessions \<Rightarrow> bool" where
  "extends m m' \<longleftrightarrow> length (heap m) \<le> length (heap m')
     \<and> (\<forall>p < length (heap m). s_tun (heap m' ! p) = s_tun (heap m ! p))"

lemma authentic_mono: "extends m m' \<Longrightarrow> authentic cfg m pkt \<Longrightarrow> authentic cfg m' pkt"
  unfolding extends_def authentic_def by (metis order_less_le_trans)

lemma extends_refl [simp]: "extends m m"
  by (simp add: extends_def)

lemma extends_trans: "extends m m' \<Longrightarrow> extends m' m'' \<Longrightarrow> extends m m''"
  by (auto simp: extends_def)

lemma quiet_extends: "quiet m m' \<Longrightarrow> extends m m'"
  by (simp add: quiet_def same_identity_def extends_def)

lemma reap_extends: "extends m (master_reap order now ps m)"
  by (simp add: extends_def master_reap_def)

definition only_authentic :: "mcfg \<Rightarrow> master \<Rightarrow> event list \<Rightarrow> bool" where
  "only_authentic cfg m es \<longleftrightarrow> (\<forall>pkt. Inject pkt \<in> set es \<longrightarrow> authentic cfg m pkt)"

definition safe_step :: "mcfg \<Rightarrow> master \<Rightarrow> master \<Rightarrow> bool" where
  "safe_step cfg m m' \<longleftrightarrow> extends m m' \<and>
     (\<exists>es. events (world m') = events (world m) @ es \<and> only_authentic cfg m es)"

lemma safe_same: "extends m m' \<Longrightarrow> events (world m') = events (world m) \<Longrightarrow> safe_step cfg m m'"
  by (auto simp: safe_step_def only_authentic_def)

lemma touch_world [simp]: "world (touch now p m) = world m"
  by (simp add: touch_def)

lemma set_slave_world [simp]: "world (set_slave i p m) = world m"
  by (simp add: set_slave_def)

lemma safe_deliver:
  assumes "p < length (heap m)" and "a_key a = session_key (mc_token cfg) (s_tun (heap m ! p))"
    and "aead_open (mc_cipher cfg) a ct = Inr pkt"
  shows "safe_step cfg m (on_world (deliver pkt (s_tun (heap m ! p))) (touch now q m))"
proof -
  have "extends m (on_world (deliver pkt (s_tun (heap m ! p))) (touch now q m))"
    by (rule quiet_extends[OF quiet_trans[OF quiet_touch quiet_deliver]])
  moreover have "events (deliver pkt t w) = events w @ (if src_matches_tunnel pkt t then [Inject pkt] else [])" for t w
    by (simp add: deliver_def emit_def bump_def)
  ultimately show ?thesis
    using assms by (auto simp: safe_step_def only_authentic_def authentic_def)
qed

lemma touch_tun: "p < length (heap m) \<Longrightarrow> s_tun (heap (touch now q m) ! p) = s_tun (heap m ! p)"
  using same_identity_touch[of m now q] by (simp add: same_identity_def)

lemma safe_serve_data:
  assumes inv: "master_inv (mc_token cfg) all m" and d: "d \<in> set (socks (world m))"
  shows "safe_step cfg m (serve_data cfg now d buf m)"
proof -
  have p: "ds_sess d < length (heap m)" "a_key (ds_aead d) = session_key (mc_token cfg) (s_tun (heap m ! ds_sess d))"
    using master_invD(5)[OF inv] d sess_key_at[OF master_invD(3)[OF inv], of "ds_sess d"]
    by (simp_all add: socks_ok_def)
  have q: "safe_step cfg m (touch now (ds_sess d) m)"
    by (rule safe_same) (simp_all add: quiet_extends)
  show ?thesis
    using safe_deliver[OF p] q safe_same[of m m cfg]
    by (auto simp: serve_data_def Let_def touch_tun[OF p(1)] split: option.splits sum.splits)
qed

lemma safe_uplink:
  assumes "master_inv (mc_token cfg) all m" and "good_pool all" and "uplinks_ok (mc_token cfg) m" and "to4 tip \<noteq> None"
  shows "safe_step cfg m (handle_uplink cfg rnd now tip ct m) \<and> uplinks_ok (mc_token cfg) (handle_uplink cfg rnd now tip ct m)"
proof -
  note eff = handle_uplink_effect[OF assms, of cfg rnd now ct]
  have ext: "extends m (handle_uplink cfg rnd now tip ct m)"
    by (rule quiet_extends[OF quiet_uplink])
  from eff(2) have "safe_step cfg m (handle_uplink cfg rnd now tip ct m)"
  proof (elim disjE exE conjE)
    assume "events (world (handle_uplink cfg rnd now tip ct m)) = events (world m)"
    with ext show ?thesis by (simp add: safe_same)
  next
    fix p a pkt
    assume "events (world (handle_uplink cfg rnd now tip ct m)) = events (world m) @ [Inject pkt]"
      "live m p" "src_matches_tunnel pkt (s_tun (heap m ! p))"
      "a_key a = session_key (mc_token cfg) (s_tun (heap m ! p))" "aead_open (mc_cipher cfg) a ct = Inr pkt"
    with ext show ?thesis
      unfolding safe_step_def only_authentic_def authentic_def live_def by auto
  qed
  with eff(1) show ?thesis by blast
qed

lemma safe_relay:
  assumes "master_inv (mc_token cfg) all m" and "good_pool all" and "uplinks_ok (mc_token cfg) m"
    and "dp_read_step cfg rnd now src buf m = Some m'"
  shows "safe_step cfg m m'" "uplinks_ok (mc_token cfg) m'"
proof -
  consider "m' = m" | tip ct where "m' = handle_uplink cfg rnd now tip ct m" "to4 tip \<noteq> None"
    using assms(4)
    by (auto simp: dp_read_step_def master_dp_read_def split: dp_recv.splits option.splits sum.splits if_splits)
  then have "safe_step cfg m m' \<and> uplinks_ok (mc_token cfg) m'"
    by cases (use assms(3) safe_uplink[OF assms(1-3)] in \<open>auto intro: safe_same\<close>)
  then show "safe_step cfg m m'" "uplinks_ok (mc_token cfg) m'"
    by blast+
qed

lemma establish_events:
  assumes "establish cfg e addr h tr c tun sid a m = Some (tr', m')"
  obtains es where "events (world m') = events (world m) @ es" "\<forall>pkt. Inject pkt \<notin> set es"
    "uplinks (world m') = uplinks (world m)" "extends m m'"
proof -
  let ?o = "open_session cfg e addr tr c tun sid a m"
  have ext: "extends m ?o"
    by (simp add: extends_def open_session_parts nth_append)
  have "extends ?o m'"
    by (rule quiet_extends[OF establish_quiet[OF assms]])
  with ext have "extends m m'" by (rule extends_trans)
  moreover obtain dgram where "world m' = emit [Datagram addr dgram] (emit
      (notify_slaves cfg e addr (h_version h = HelloVersion3) c tun sid (ctrl (world m))) (world ?o))"
    using assms by (auto simp: establish_def Let_def split: option.splits prod.splits)
  moreover have "Inject pkt \<notin> set (notify_slaves cfg e addr v c tun sid r)" for pkt v r
    by (auto simp: notify_slaves_def send_session_def Let_def)
  ultimately show thesis
    by (intro that[of "notify_slaves cfg e addr (h_version h = HelloVersion3) c tun sid (ctrl (world m)) @ [Datagram addr dgram]"])
       (simp_all add: open_session_parts, simp add: emit_def open_session_parts)
qed

lemma safe_handshake:
  assumes "handle_handshake cfg e addr payload tr m = Some (tr', m')"
  shows "safe_step cfg m m'" "uplinks (world m') = uplinks (world m)"
proof -
  have "safe_step cfg m m' \<and> uplinks (world m') = uplinks (world m)"
    using assms
  proof (cases rule: handshake_cases)
    case quiet
    then show ?thesis by (simp add: safe_same quiet_extends)
  next
    case (returned f tun p')
    then show ?thesis by (simp add: safe_same extends_def)
  next
    case (opened f tun p' h c sid a)
    obtain es where "events (world m') = events (world m) @ es" "\<forall>pkt. Inject pkt \<notin> set es"
      "uplinks (world m') = uplinks (world m)" "extends (on_world f m) m'"
      using establish_events[OF opened(13)] opened(10,11) by auto
    then show ?thesis
      by (auto simp: safe_step_def only_authentic_def extends_def)
  qed
  then show "safe_step cfg m m'" "uplinks (world m') = uplinks (world m)"
    by blast+
qed

lemma safe_serve:
  assumes inv: "master_inv (mc_token cfg) all m" and s: "serve cfg e acc addr buf tr m = Some (tr', m')"
  shows "safe_step cfg m m'" "uplinks (world m') = uplinks (world m)"
proof -
  have touched: "safe_step cfg m (touch now p m)" for now p
    by (rule safe_same) (simp_all add: quiet_extends)
  have choice: "safe_step cfg m (handle_slave_choice cfg order payload m)"
    "uplinks (world (handle_slave_choice cfg order payload m)) = uplinks (world m)" for order payload
    by (rule safe_same[OF quiet_extends[OF quiet_slave_choice]])
       (auto simp: handle_slave_choice_def Let_def split: option.splits sum.splits)
  have data: "safe_step cfg m (on_world (deliver pkt (s_tun (heap (touch now p m) ! p))) (touch now p m))"
    if "find_client x m = Some p" "ccryptos (world m) x = Some a" "aead_open (mc_cipher cfg) a ct = Inr pkt"
    for x p a ct pkt now
  proof -
    have p: "p < length (heap m)"
      using find_client_sound[OF master_invD(1)[OF inv] that(1)] by (simp add: live_def)
    have "a_key a = session_key (mc_token cfg) (s_tun (heap m ! p))"
      using master_invD(4)[OF inv] that(1,2) sess_key_at[OF master_invD(3)[OF inv] p]
      unfolding client_keys_def by fastforce
    from safe_deliver[OF p this that(3)] show ?thesis
      by (simp add: touch_tun[OF p])
  qed
  have "safe_step cfg m m' \<and> uplinks (world m') = uplinks (world m)"
  proof (cases "tr_unwrap tr buf")
    case None
    with s show ?thesis by (simp add: serve_def safe_same)
  next
    case (Some tp)
    obtain t payload where tp: "tp = (t, payload)" by (cases tp)
    show ?thesis
    proof (cases "t = PktTypeHandshake \<and> acc")
      case True
      with s Some tp have "handle_handshake cfg e addr payload tr m = Some (tr', m')"
        by (simp add: serve_def)
      then show ?thesis using safe_handshake by blast
    next
      case False
      with s Some tp show ?thesis
        using choice safe_same[of m m cfg] touched data
        by (auto simp: serve_def Let_def split: if_splits option.splits sum.splits)
    qed
  qed
  then show "safe_step cfg m m'" "uplinks (world m') = uplinks (world m)"
    by blast+
qed

lemma reap_events:
  "\<exists>es. events (world (master_reap order now ps m)) = events (world m) @ es \<and> (\<forall>pkt. Inject pkt \<notin> set es)"
  "uplinks (world (master_reap order now ps m)) k = Some a \<Longrightarrow> uplinks (world m) k = Some a"
proof -
  have one: "\<exists>es. events (world (table_remove (on_remove order) i m)) = events (world m) @ es
      \<and> (\<forall>pkt. Inject pkt \<notin> set es)"
    "uplinks (world (table_remove (on_remove order) i m)) k = Some a \<Longrightarrow> uplinks (world m) k = Some a" for i and m :: master
    by (auto simp: table_remove_def Let_def on_remove_parts split: option.splits if_splits)
  show "\<exists>es. events (world (master_reap order now ps m)) = events (world m) @ es \<and> (\<forall>pkt. Inject pkt \<notin> set es)"
    unfolding master_reap_def
  proof (induction ps arbitrary: m)
    case (Cons p ps)
    let ?m = "if expired now (heap m ! p) then table_remove (on_remove order) (s_id (heap m ! p)) m else m"
    obtain es where "events (world ?m) = events (world m) @ es" "\<forall>pkt. Inject pkt \<notin> set es"
      using one(1)[where m = m] by (cases "expired now (heap m ! p)") auto
    moreover obtain es' where "events (world (reap (on_remove order) now ps ?m)) = events (world ?m) @ es'"
      "\<forall>pkt. Inject pkt \<notin> set es'"
      using Cons.IH by blast
    ultimately show ?case
      by (intro exI[of _ "es @ es'"]) (simp only: reap.simps append_assoc set_append Un_iff, blast)
  qed simp
  show "uplinks (world (master_reap order now ps m)) k = Some a \<Longrightarrow> uplinks (world m) k = Some a"
    unfolding master_reap_def
  proof (induction ps arbitrary: m)
    case (Cons p ps)
    let ?m = "if expired now (heap m ! p) then table_remove (on_remove order) (s_id (heap m ! p)) m else m"
    have "uplinks (world ?m) k = Some a"
      using Cons.prems by (simp only: reap.simps) (rule Cons.IH)
    then show ?case
      using one(2)[of _ m] by (cases "expired now (heap m ! p)") auto
  qed simp
qed

lemma uplinks_ok_subset:
  "uplinks_ok token m \<Longrightarrow> (\<And>k a. uplinks (world m') k = Some a \<Longrightarrow> uplinks (world m) k = Some a) \<Longrightarrow> uplinks_ok token m'"
  unfolding uplinks_ok_def by blast

lemma mstep_safe:
  assumes "mstep cfg m m'" and "master_inv (mc_token cfg) all m" and "good_pool all" and "uplinks_ok (mc_token cfg) m"
  shows "safe_step cfg m m' \<and> uplinks_ok (mc_token cfg) m'"
  using assms
proof (induction rule: mstep.induct)
  case (control e m acc addr buf tr tr' m')
  show ?case
    using safe_serve[OF control.prems(1) control.hyps(2)] control.prems(3) by (simp add: uplinks_ok_def)
next
  case (data d m now buf)
  have "uplinks (world (serve_data cfg now d buf m)) = uplinks (world m)"
    by (simp add: serve_data_def Let_def split: option.split sum.split)
  then show ?case
    using safe_serve_data[OF data.prems(1) data.hyps] data.prems(3) by (simp add: uplinks_ok_def)
next
  case (relay rnd now src buf m m')
  show ?case using safe_relay[OF relay.prems relay.hyps] by blast
next
  case (relayed tip m rnd now ct)
  then have "to4 tip \<noteq> None" by simp
  then show ?case by (rule safe_uplink[OF relayed.prems])
next
  case (tick ps m order now)
  obtain es where "events (world (master_reap order now ps m)) = events (world m) @ es" "\<forall>pkt. Inject pkt \<notin> set es"
    using reap_events(1) by blast
  then have "safe_step cfg m (master_reap order now ps m)"
    using reap_extends[of m order now ps] by (auto simp: safe_step_def only_authentic_def)
  moreover have "uplinks_ok (mc_token cfg) (master_reap order now ps m)"
    by (rule uplinks_ok_subset[OF tick.prems(3) reap_events(2)])
  ultimately show ?case by blast
next
  case (downlink pkt m r m')
  have "uplinks (world m') = uplinks (world m)" "events (world m') = events (world m)"
    using downlink.hyps by (auto simp: ns_output_def Let_def split: if_splits option.splits prod.splits)
  then show ?case
    using downlink.prems(3) quiet_extends[OF quiet_output[OF downlink.hyps]] by (simp add: safe_same uplinks_ok_def)
next
  case (slave_up m decode rnd conn remote now first)
  let ?m = "snd (master_slave_hello cfg decode rnd conn remote now first m)"
  have "uplinks (world ?m) = uplinks (world m)" "events (world ?m) = events (world m)"
    by (auto simp: master_slave_hello_def on_slave_register_def split: option.splits prod.splits)
  then show ?case
    using slave_up.prems(3) quiet_extends[OF quiet_slave_hello] by (simp add: safe_same uplinks_ok_def)
next
  case (slave_msg m c now frame)
  then show ?case
    using quiet_extends[OF quiet_slave_read[of m c now frame]]
    by (simp add: safe_same uplinks_ok_def master_slave_read_def)
qed

text \<open>From a start state on, every packet injected is authentic.\<close>

lemma msteps_safe:
  assumes "(mstep cfg)\<^sup>*\<^sup>* m m'" and "master_inv (mc_token cfg) all m" and "good_pool all"
    and "uplinks_ok (mc_token cfg) m" and "only_authentic cfg m (events (world m))"
  shows "only_authentic cfg m' (events (world m')) \<and> uplinks_ok (mc_token cfg) m'"
  using assms
proof (induction rule: rtranclp_induct)
  case (step y z)
  have inv: "master_inv (mc_token cfg) all y"
    using msteps_inv[OF step.hyps(1) step.prems(1,2)] .
  have "safe_step cfg y z \<and> uplinks_ok (mc_token cfg) z"
    using mstep_safe[OF step.hyps(2) inv step.prems(2)] step.IH[OF step.prems] by blast
  moreover from this obtain es where "extends y z" "events (world z) = events (world y) @ es" "only_authentic cfg y es"
    by (auto simp: safe_step_def)
  ultimately show ?case
    using step.IH[OF step.prems] authentic_mono[of y z cfg] by (auto simp: only_authentic_def)
qed simp

end
