(* ===== verification/Handshake.thy ===== *)
theory Handshake
  imports MasterSafety
begin

text \<open>
  What a handshake accepts, what it answers, and that no captured hello is accepted twice.
\<close>

section \<open>Acceptance\<close>

definition guard_accepts :: "bytes \<Rightarrow> u64 \<Rightarrow> bytes \<Rightarrow> replay_cache \<Rightarrow> bool" where
  "guard_accepts token now payload r = (case fst (hello_guard token now payload r) of Inl _ \<Rightarrow> False | Inr _ \<Rightarrow> True)"

lemma guard_inv: "cache_inv r \<Longrightarrow> cache_inv (snd (hello_guard token now payload r))"
  using check_and_add_inv by (auto simp: hello_guard_def split: sum.splits prod.splits) (metis snd_conv)+

lemma guard_Inr:
  "fst (hello_guard token now payload r) = Inr h \<longleftrightarrow>
     payload \<noteq> [] \<and> payload ! 0 = CtrlHello \<and> parse_hello payload = Inr h
   \<and> hello_in_window now (h_timestamp h) \<and> verify_hello_mac token (hello_unsigned h) (h_mac h)
   \<and> fst (check_and_add (h_nonce h) (sint now) r)"
  by (auto simp: hello_guard_def split: sum.splits prod.splits)

text \<open>The conditions on the bytes of the datagram.\<close>

lemma guard_accepts_iff:
  assumes "cache_inv r"
  shows "guard_accepts token now payload r \<longleftrightarrow>
     58 \<le> length payload \<and> payload ! 0 = CtrlHello
   \<and> (payload ! 1 = HelloVersion \<or> payload ! 1 = HelloVersion3)
   \<and> hello_in_window now (get64 (slice 2 10 payload))
   \<and> hmac_sha256 token (take 26 payload) = slice 26 58 payload
   \<and> (\<forall>t. map_of r (slice 10 26 payload) = Some t \<longrightarrow> t < sint now - retention)"
proof -
  have sig: "hello_unsigned h = take 26 payload"
    if "parse_hello payload = Inr h" "payload ! 0 = CtrlHello" for h
  proof -
    have len: "58 \<le> length payload"
      using that(1) by (auto simp: parse_hello_def split: if_splits)
    then have "take 26 payload = payload ! 0 # slice 1 26 payload"
      using take_as_slices[of 1 26 payload] by (cases payload) simp_all
    with parse_hello_inv(2)[OF that(1)] that(2) show ?thesis by simp
  qed
  have "guard_accepts token now payload r \<longleftrightarrow> (\<exists>h. fst (hello_guard token now payload r) = Inr h)"
    by (auto simp: guard_accepts_def split: sum.splits)
  also have "\<dots> \<longleftrightarrow> (\<exists>h. parse_hello payload = Inr h \<and> payload ! 0 = CtrlHello
      \<and> hello_in_window now (h_timestamp h) \<and> hmac_sha256 token (take 26 payload) = h_mac h
      \<and> fst (check_and_add (h_nonce h) (sint now) r))"
    unfolding guard_Inr verify_hello_mac_def hello_mac_def
    by (intro arg_cong[where f = Ex] ext) (auto simp: sig parse_hello_def)
  finally show ?thesis
    by (auto simp: parse_hello_def check_and_add_accepts[OF assms] simp del: map_of_eq_Some_iff split: if_splits)
qed

text \<open>A hello as the client builds it, within the window and with a fresh nonce, is accepted.\<close>

definition client_hello :: "bytes \<Rightarrow> byte \<Rightarrow> u64 \<Rightarrow> bytes \<Rightarrow> hello" where
  "client_hello token ver ts nonce =
     (let h = \<lparr>h_version = ver, h_timestamp = ts, h_nonce = nonce, h_mac = []\<rparr>
      in h\<lparr>h_mac := hello_mac token (hello_unsigned h)\<rparr>)"

lemma client_hello_wf: "length nonce = 16 \<Longrightarrow> wf_hello (client_hello token ver ts nonce)"
  by (simp add: client_hello_def wf_hello_def Let_def)

lemma client_hello_accepted:
  assumes "length nonce = 16" and "ver = HelloVersion \<or> ver = HelloVersion3" and "hello_in_window now ts"
    and "cache_inv r" and "\<forall>t. map_of r nonce = Some t \<longrightarrow> t < sint now - retention"
  shows "fst (hello_guard token now (hello_marshal (client_hello token ver ts nonce)) r)
    = Inr (client_hello token ver ts nonce)"
proof -
  let ?h = "client_hello token ver ts nonce"
  have "parse_hello (hello_marshal ?h) = Inr ?h"
    using hello_roundtrip_ext[OF client_hello_wf[OF assms(1)], of token ver ts "[]"] assms(2)
    by (auto simp: client_hello_def Let_def)
  moreover have "hello_marshal ?h \<noteq> [] \<and> hello_marshal ?h ! 0 = CtrlHello"
    by (simp add: hello_marshal_def hello_unsigned_def)
  moreover have "verify_hello_mac token (hello_unsigned ?h) (h_mac ?h)"
    by (simp add: client_hello_def verify_hello_mac_def Let_def hello_unsigned_def)
  ultimately show ?thesis
    unfolding guard_Inr using assms(3,5) check_and_add_accepts[OF assms(4)]
    by (simp add: client_hello_def Let_def)
qed

section \<open>No replay\<close>

fun guard_run :: "bytes \<Rightarrow> (u64 \<times> bytes) list \<Rightarrow> replay_cache \<Rightarrow> bool list" where
  "guard_run token [] r = []"
| "guard_run token ((now, payload) # es) r =
     guard_accepts token now payload r # guard_run token es (snd (hello_guard token now payload r))"

lemma length_guard_run [simp]: "length (guard_run token es r) = length es"
  by (induction token es r rule: guard_run.induct) simp_all

lemma guard_remembers:
  assumes "remembers r n t" and "sint now \<le> t + retention"
  shows "remembers (snd (hello_guard token now payload r)) n t"
  using assms nonces.still_recalled[OF assms]
  by (auto simp: hello_guard_def split: sum.splits prod.splits) (metis snd_conv)+

lemma guard_refuses:
  assumes "remembers r n t" and "sint now \<le> t + retention" and "slice 10 26 payload = n"
  shows "\<not> guard_accepts token now payload r"
proof -
  have c: "cache_inv r"
    using assms(1) by (simp add: remembers_def)
  have "map_of r (slice 10 26 payload) = Some t \<and> \<not> t < sint now - retention"
    using assms by (simp add: remembers_def)
  then show ?thesis
    unfolding guard_accepts_iff[OF c] by blast
qed

lemma guard_recalls:
  assumes "cache_inv r" and "guard_accepts token now payload r"
  shows "remembers (snd (hello_guard token now payload r)) (slice 10 26 payload) (sint now)"
proof -
  obtain h where g: "fst (hello_guard token now payload r) = Inr h"
    using assms(2) by (auto simp: guard_accepts_def split: sum.splits)
  then have "h_nonce h = slice 10 26 payload"
    by (auto simp: guard_Inr parse_hello_def split: if_splits)
  moreover have "snd (hello_guard token now payload r) = snd (check_and_add (h_nonce h) (sint now) r)"
    using g by (auto simp: hello_guard_def split: sum.splits prod.splits if_splits)
  ultimately show ?thesis
    using nonces.accepted_recalled[OF assms(1), of "h_nonce h" "sint now"] g by (simp add: guard_Inr)
qed

lemma run_refuses:
  assumes "remembers r n t" and "\<forall>e \<in> set (take (Suc j) es). sint (fst e) \<le> t + retention"
    and "j < length es" and "slice 10 26 (snd (es ! j)) = n"
  shows "\<not> guard_run token es r ! j"
  using assms
proof (induction es arbitrary: r j)
  case (Cons e es)
  obtain now payload where e: "e = (now, payload)" by (cases e)
  show ?case
  proof (cases j)
    case 0
    with Cons.prems e show ?thesis
      using guard_refuses[of r n t now payload token] by simp
  next
    case (Suc k)
    have "remembers (snd (hello_guard token now payload r)) n t"
      using Cons.prems(1,2) e by (intro guard_remembers) simp_all
    with Suc Cons e show ?thesis by simp
  qed
qed simp

lemma window_span:
  assumes "hello_in_window now1 ts" and "hello_in_window now2 ts" and "unat now1 < 2 ^ 62"
    and "unat now2 < 2 ^ 62" and "sint now1 \<le> sint now2"
  shows "sint now2 \<le> sint now1 + retention"
proof -
  define x y where "x = now2 - ts" and "y = ts - now1"
  have le: "unat now1 \<le> unat now2"
    using assms(3-5) by (simp add: sint64 del: of_nat_unat)
  have sum: "x + y = now2 - now1"
    by (simp add: x_def y_def)
  have u: "unat (x + y) = unat now2 - unat now1"
    unfolding sum using le by (simp add: unat_sub_if')
  have neg: "- x = ts - now2" "- y = now1 - ts"
    by (simp_all add: x_def y_def)
  have "ts = now2 + 2 ^ 63 \<Longrightarrow> unat x = 2 ^ 63" "ts = now1 + 2 ^ 63 \<Longrightarrow> unat y = 2 ^ 63"
    by (simp_all add: x_def y_def)
  then have wx: "unat x \<le> 60 \<or> unat (- x) \<le> 60 \<or> unat x = 2 ^ 63"
    and wy: "unat y \<le> 60 \<or> unat (- y) \<le> 60 \<or> unat y = 2 ^ 63"
    using assms(1,2) unfolding hello_in_window_iff neg by (auto simp: x_def y_def)
  have wrap: "unat (x + y) = (if unat x + unat y < 2 ^ 64 then unat x + unat y else unat x + unat y - 2 ^ 64)"
    using unat64_less[of x] unat64_less[of y] by (simp add: unat_word_ariths mod_if)
  have "unat now2 - unat now1 \<le> 120"
    using wx wy u assms(3,4) unat64_less[of x] unat64_less[of y]
    unfolding unat_uminus64 wrap by (auto split: if_splits)
  then show ?thesis
    using assms(3,4) by (simp add: sint64 retention_def del: of_nat_unat)
qed

lemma guard_run_window: "j < length es \<Longrightarrow> cache_inv r \<Longrightarrow> guard_run token es r ! j \<Longrightarrow>
    hello_in_window (fst (es ! j)) (get64 (slice 2 10 (snd (es ! j))))"
proof (induction token es r arbitrary: j rule: guard_run.induct)
  case (2 token now payload es r)
  show ?case
  proof (cases j)
    case 0
    with 2 show ?thesis by (simp add: guard_accepts_iff)
  next
    case (Suc k)
    with 2 guard_inv[OF "2.prems"(2), of token now payload] show ?thesis by simp
  qed
qed simp

lemma no_hello_twice:
  assumes "cache_inv r" and "sorted (map (\<lambda>e. sint (fst e)) es)" and "\<forall>e \<in> set es. unat (fst e) < 2 ^ 62"
    and "i < j" and "j < length es" and "take 58 (snd (es ! i)) = take 58 (snd (es ! j))"
    and "guard_run token es r ! i"
  shows "\<not> guard_run token es r ! j"
  using assms
proof (induction es arbitrary: r i j)
  case (Cons e es)
  obtain now payload where e: "e = (now, payload)" by (cases e)
  let ?r = "snd (hello_guard token now payload r)"
  have inv: "cache_inv ?r"
    by (rule guard_inv[OF Cons.prems(1)])
  obtain k where j: "j = Suc k" "k < length es"
    using Cons.prems(4,5) by (cases j) auto
  show ?case
  proof (cases i)
    case (Suc l)
    then show ?thesis
      using Cons.IH[OF inv, of l k] Cons.prems j e by simp
  next
    case 0
    have acc: "guard_accepts token now payload r"
      using Cons.prems(7) 0 e by simp
    have same: "slice a b payload = slice a b (snd (es ! k))" if "b \<le> 58" for a b
      using Cons.prems(6) 0 j e slice_take[OF that, of a payload] slice_take[OF that, of a "snd (es ! k)"]
      by simp
    show ?thesis
    proof
      assume again: "guard_run token (e # es) r ! j"
      then have run: "guard_run token es ?r ! k"
        using e j by simp
      have "hello_in_window (fst (es ! k)) (get64 (slice 2 10 payload))"
        using guard_run_window[OF j(2) inv run] same[of 10 2] by simp
      moreover have "hello_in_window now (get64 (slice 2 10 payload))"
        using acc guard_accepts_iff[OF Cons.prems(1)] by blast
      moreover have "sint now \<le> sint (fst (es ! k))"
        using Cons.prems(2) j e by simp
      ultimately have span: "sint (fst (es ! k)) \<le> sint now + retention"
        using Cons.prems(3) j e window_span[of now "get64 (slice 2 10 payload)" "fst (es ! k)"] by simp
      have "\<forall>x \<in> set (take (Suc k) es). sint (fst x) \<le> sint now + retention"
      proof
        fix x assume "x \<in> set (take (Suc k) es)"
        then obtain l where l: "l \<le> k" "x = es ! l"
          by (auto simp: in_set_conv_nth less_Suc_eq_le)
        have "sint (fst (es ! l)) \<le> sint (fst (es ! k))"
          using Cons.prems(2) e l(1) j(2) sorted_nth_mono[of "map (\<lambda>e. sint (fst e)) es" l k] by simp
        with span l(2) show "sint (fst x) \<le> sint now + retention" by simp
      qed
      then show False
        using run_refuses[OF guard_recalls[OF Cons.prems(1) acc], of k es token] run j(2) same[of 26 10]
        by simp
    qed
  qed
qed simp

section \<open>The answer\<close>

text \<open>A rejected hello changes the nonce cache and the failure count, and nothing is sent.\<close>

lemma handshake_silent:
  assumes "\<not> guard_accepts (mc_token cfg) (he_unix e) payload (replays (world m))"
  obtains m' where "handle_handshake cfg e addr payload tr m = Some (tr, m')" "quiet m m'"
    "events (world m') = events (world m)" "heap m' = heap m"
proof -
  obtain rej r' where g: "hello_guard (mc_token cfg) (he_unix e) payload (replays (world m)) = (Inl rej, r')"
    using assms by (cases "hello_guard (mc_token cfg) (he_unix e) payload (replays (world m))")
      (auto simp: guard_accepts_def split: sum.splits)
  let ?m = "on_world (\<lambda>w. bump (\<lambda>k. if is_auth_failure rej
        then k\<lparr>n_auth_failures := n_auth_failures k + 1\<rparr> else k) (w\<lparr>replays := r'\<rparr>)) m"
  show thesis
  proof (rule that[of ?m])
    show "handle_handshake cfg e addr payload tr m = Some (tr, ?m)"
      by (simp add: handle_handshake_def g)
    show "quiet m ?m" by (rule quiet_world) simp_all
  qed simp_all
qed

lemma four_put: "to4 a = Some v \<Longrightarrow> four a = put_ip4 a"
  by (simp add: four_def put_ip4_def)

lemma put_ip4_four: "put_ip4 (four a) = put_ip4 a"
  by (auto simp: four_def put_ip4_def to4_length split: option.splits) (simp add: to4_def)

lemma welcome_first: "welcome_marshal w ! 0 = CtrlWelcome" "welcome_marshal w \<noteq> []"
  by (simp_all add: welcome_marshal_def welcome_marshal_v3_def welcome_head_def)

text \<open>An accepted hello, with a slave to pick and an address to give, is answered by one welcome.\<close>

lemma handshake_reply:
  assumes guard: "fst (hello_guard (mc_token cfg) (he_unix e) payload (replays (world m))) = Inr h"
    and pk: "fst (pick (he_pick e) (ctrl (world m))) = Some c"
    and al: "pool_allocate (pool (world m)) = (Some tun, p')"
    and env: "he_id e = Some sid" "he_rnd e = Some rnd" "env_ok e m"
    and su: "mc_resolve cfg (sl_udp (conns (ctrl (world m)) ! c)) = Some su"
    and tr: "wf_transport tr" and sid: "length (mc_server_id cfg) = 8" and inv: "table_inv m"
  obtains tr' m' es f W a where "handle_handshake cfg e addr payload tr m = Some (tr', m')"
    "events (world m') = events (world m) @ es @ [Datagram addr f]"
    "\<forall>dst g. Datagram dst g \<notin> set es"
    "tr_unwrap tr f = Some (PktTypeControl, W)"
    "parse_welcome W = Inr (canon_welcome (welcome_for cfg e (h_version h = HelloVersion3) su tun
       (snd (pick (he_pick e) (ctrl (world m))))))"
    "live m' (length (heap m))" "s_tun (heap m' ! length (heap m)) = tun"
    "s_client (heap m' ! length (heap m)) = addr"
    "s_key (heap m' ! length (heap m)) = session_key (mc_token cfg) tun"
    "s_slave (heap m' ! length (heap m)) = sl_id (conns (ctrl (world m)) ! c)"
    "find_tun (ip_string tun) m' = Some (length (heap m))" "dp (world m') = dp (world m)"
    "W ! 0 = CtrlWelcome" "W \<noteq> []" "new_aead (session_key (mc_token cfg) tun) (Some rnd) = Some a"
    "socks (world m') = socks (world m) @ sock_of e tr (length (heap m)) a"
proof -
  obtain r' where g: "hello_guard (mc_token cfg) (he_unix e) payload (replays (world m)) = (Inr h, r')"
    using guard by (cases "hello_guard (mc_token cfg) (he_unix e) payload (replays (world m))") simp
  obtain reg where p: "pick (he_pick e) (ctrl (world m)) = (Some c, reg)"
    using pk by (cases "pick (he_pick e) (ctrl (world m))") simp
  have reg: "conns reg = conns (ctrl (world m))"
    using p env(3) pick_registered(3)[of "he_pick e" "ctrl (world m)" c reg] by (simp add: env_ok_def)
  obtain a where a: "new_aead (session_key (mc_token cfg) tun) (Some rnd) = Some a"
    by (simp add: new_aead_def)
  let ?m = "on_world (\<lambda>w. w\<lparr>replays := r', ctrl := reg, pool := p'\<rparr>) m"
  let ?o = "open_session cfg e addr tr c tun sid a ?m"
  let ?v3 = "h_version h = HelloVersion3"
  let ?W = "welcome_for cfg e ?v3 su tun reg"
  let ?es = "notify_slaves cfg e addr ?v3 c tun sid reg"
  obtain f tr' where f: "tr_wrap (he_wrap e) tr PktTypeControl (welcome_marshal ?W) = (f, tr')"
    by (cases "tr_wrap (he_wrap e) tr PktTypeControl (welcome_marshal ?W)")
  let ?m' = "on_world (emit [Datagram addr f]) (on_world (emit ?es) ?o)"
  have fresh: "map_of (by_id ?m) sid = None"
    using env by (simp add: env_ok_def)
  have "handle_handshake cfg e addr payload tr m = Some (tr', ?m')"
    using su reg f by (simp add: handle_handshake_def g p al env(1,2) a Let_def establish_def)
  moreover have "events (world ?m') = events (world m) @ ?es @ [Datagram addr f]"
    by (simp add: emit_def open_session_parts)
  moreover have "\<forall>dst g. Datagram dst g \<notin> set ?es"
    by (auto simp: notify_slaves_def send_session_def Let_def)
  moreover have "tr_unwrap tr f = Some (PktTypeControl, welcome_marshal ?W)"
    using tr_unwrap_wrap[OF _ tr, of "he_wrap e" PktTypeControl "welcome_marshal ?W"] env(3) f
    by (simp add: env_ok_def)
  moreover have "parse_welcome (welcome_marshal ?W) = Inr (canon_welcome ?W)"
    by (rule parse_welcome_full) (simp add: wf_welcome_def welcome_for_def sid)
  moreover have "live ?m' (length (heap m))"
    using open_live[OF _ fresh, of cfg e addr tr c tun a "length (heap m)"] inv
      table_inv_same[of ?m m] by (simp add: live_def)
  ultimately show thesis
    using p reg by (intro that[of tr' ?m' ?es f "welcome_marshal ?W" a])
      (simp_all add: open_session_parts session_of_def find_tun_def a welcome_first)
qed

end
