(* ===== verification/MasterTheorems.thy ===== *)
theory MasterTheorems
  imports Handshake
begin

text \<open>
  The theorems about the master: the handshake's guard and answer, the tunnel addresses and
  session keys over all runs, what reaches the network stack and where the downlink goes. The
  witnesses run the model from an empty master through a slave's registration and a handshake.
\<close>

section \<open>A concrete run\<close>

definition sample_addr :: udpaddr where
  "sample_addr = \<lparr>uip = [192, 0, 2, 9], uport = 7\<rparr>"

definition sample_cfg :: mcfg where
  "sample_cfg = \<lparr>mc_cipher = null_cipher, mc_token = [], mc_server_id = replicate 8 0,
     mc_resolve = (\<lambda>_. Some sample_addr), mc_json = (\<lambda>_. [])\<rparr>"

definition sample_pool :: ippool where
  "sample_pool = new_ip_pool [[10, 8, 0, 2], [10, 8, 0, 3]]"

definition sample_new :: master where
  "sample_new = new_master (mc_token sample_cfg) sample_pool"

definition sample_info :: slave_info where
  "sample_info = \<lparr>si_id = ''a'', si_udp = ''192.0.2.9:7'', si_data = ''192.0.2.9:7''\<rparr>"

definition sample_up :: master where
  "sample_up = snd (master_slave_hello sample_cfg (\<lambda>_. Some sample_info) (Some (replicate 8 0)) 1 ''192.0.2.9:4000'' 0
     (Some (MsgSlaveInfo, [])) sample_new)"

definition sample_henv :: henv where
  "sample_henv = \<lparr>he_unix = 1700000000, he_now = 0, he_pick = [0], he_notify = [0], he_list = [0],
     he_id = Some (replicate 16 1), he_rnd = Some (replicate 8 0), he_port = Some 40000, he_wrap = sample_env\<rparr>"

definition sample_hello :: bytes where
  "sample_hello = hello_marshal (client_hello [] HelloVersion3 1700000000 (replicate 16 5))"

lemma sample_cfg_simps [simp]:
  "mc_cipher sample_cfg = null_cipher" "mc_token sample_cfg = []" "mc_server_id sample_cfg = replicate 8 0"
  "mc_resolve sample_cfg s = Some sample_addr"
  by (simp_all add: sample_cfg_def)

lemma sample_pool_ok: "wf_pool sample_pool" "good_pool (pool_free sample_pool)"
  by (simp_all add: sample_pool_def new_ip_pool_def wf_pool_def pool_free_def good_pool_def)

lemma sample_up_fields:
  "slaves (ctrl (world sample_up)) = [(''a'', 0)]" "robin (ctrl (world sample_up)) = 0"
  "sl_id (conns (ctrl (world sample_up)) ! 0) = ''a''" "heap sample_up = []" "by_id sample_up = []"
  "pool (world sample_up) = sample_pool" "replays (world sample_up) = []" "events (world sample_up) = []"
  by (auto simp: sample_up_def master_slave_hello_def slave_hello_def sample_info_def sample_new_def new_master_def
      new_table_def new_registry_def register_def Let_def on_slave_register_def split: prod.split option.split)

lemma sample_up_step: "(mstep sample_cfg)\<^sup>*\<^sup>* (new_master (mc_token sample_cfg) sample_pool) sample_up"
  unfolding sample_up_def sample_new_def by (rule r_into_rtranclp, rule slave_up)

lemma sample_env_ok: "env_ok sample_henv sample_up"
  by (simp add: env_ok_def sample_henv_def is_snapshot_def registry_all_def sample_up_fields)

lemma sample_guard:
  "fst (hello_guard (mc_token sample_cfg) (he_unix sample_henv) sample_hello (replays (world sample_up)))
     = Inr (client_hello [] HelloVersion3 1700000000 (replicate 16 5))"
  unfolding sample_hello_def sample_henv_def sample_up_fields
  using client_hello_accepted[of "replicate 16 5" HelloVersion3 1700000000 1700000000 "[]" "[]"]
  by (simp add: hello_in_window_iff cache_inv_def)

lemma sample_pick: "fst (pick (he_pick sample_henv) (ctrl (world sample_up))) = Some 0"
  by (simp add: pick_def sample_henv_def sample_up_fields)

lemma sample_alloc: "pool_allocate (pool (world sample_up)) = (Some [10, 8, 0, 2], new_ip_pool [[10, 8, 0, 3]])"
  unfolding sample_up_fields sample_pool_def by (rule sample_allocate)

lemma sample_up_inv: "master_inv [] (pool_free sample_pool) sample_up"
  using msteps_inv[OF sample_up_step _ sample_pool_ok(2)] master_inv_new[OF sample_pool_ok(1)] by simp

lemma sample_session:
  obtains tr' m where "serve sample_cfg sample_henv True sample_addr
      (fst (tr_wrap sample_env CS2 PktTypeHandshake sample_hello)) CS2 sample_up = Some (tr', m)"
    "(mstep sample_cfg)\<^sup>*\<^sup>* (new_master (mc_token sample_cfg) sample_pool) m"
    "live m 0" "s_tun (heap m ! 0) = [10, 8, 0, 2]"
    "find_tun (ip_string [10, 8, 0, 2]) m = Some 0" "s_slave (heap m ! 0) = ''a''"
    "dp (world m) = dp (world sample_up)"
proof -
  obtain tr' m where h: "handle_handshake sample_cfg sample_henv sample_addr sample_hello CS2 sample_up = Some (tr', m)"
      and l: "live m 0" "s_tun (heap m ! 0) = [10, 8, 0, 2]" "find_tun (ip_string [10, 8, 0, 2]) m = Some 0"
        "s_slave (heap m ! 0) = ''a''" "dp (world m) = dp (world sample_up)"
    by (rule handshake_reply[OF sample_guard sample_pick sample_alloc, of "replicate 16 1" "replicate 8 0" sample_addr CS2 sample_addr])
       (simp_all add: sample_env_ok sample_up_fields master_invD(1)[OF sample_up_inv], simp_all add: sample_henv_def)
  have "tr_unwrap CS2 (fst (tr_wrap sample_env CS2 PktTypeHandshake sample_hello)) = Some (PktTypeHandshake, sample_hello)"
    by (rule tr_unwrap_wrap) simp_all
  then have s: "serve sample_cfg sample_henv True sample_addr
      (fst (tr_wrap sample_env CS2 PktTypeHandshake sample_hello)) CS2 sample_up = Some (tr', m)"
    using h by (simp add: serve_def)
  then have "mstep sample_cfg sample_up m"
    by (rule control[OF sample_env_ok])
  with sample_up_step have "(mstep sample_cfg)\<^sup>*\<^sup>* (new_master (mc_token sample_cfg) sample_pool) m"
    by (rule rtranclp.rtrancl_into_rtrancl)
  with s l show thesis by (intro that)
qed

section \<open>Downlink routing\<close>

lemma ns_output_none:
  "ns_output cfg pkt m = None \<longleftrightarrow> pkt = [] \<or> 20 \<le> length pkt \<and> length pkt < 40 \<and> drop_bit 4 (pkt ! 0) = 6"
  by (auto simp: ns_output_def Let_def not_less split: option.split prod.split)

lemma ns_output_owner:
  assumes "20 \<le> length pkt" and "drop_bit 4 (pkt ! 0) = 4" and "find_tun (ip_string (slice 16 20 pkt)) m = Some p"
    and "send_to_slave (mc_cipher cfg) (s_slave (heap m ! p)) pkt (dp (world m)) = (r, d)"
  shows "ns_output cfg pkt m = Some (Some r, on_world (\<lambda>w. w\<lparr>dp := d\<rparr>) m)"
  using assms by (auto simp: ns_output_def Let_def slave_of_def not_less)

lemma ns_output_stranger:
  assumes inv: "master_inv token all m" and good: "good_pool all" and "20 \<le> length pkt" and "drop_bit 4 (pkt ! 0) = 4"
    and none: "\<forall>q. live m q \<longrightarrow> s_tun (heap m ! q) \<noteq> slice 16 20 pkt"
  shows "ns_output cfg pkt m = Some (None, m)"
proof -
  have "find_tun (ip_string (slice 16 20 pkt)) m = None"
  proof (rule ccontr)
    assume "find_tun (ip_string (slice 16 20 pkt)) m \<noteq> None"
    then obtain q where q: "find_tun (ip_string (slice 16 20 pkt)) m = Some q" by blast
    then have live: "live m q" and same: "ip_string (s_tun (heap m ! q)) = ip_string (slice 16 20 pkt)"
      using find_tun_sound[OF master_invD(1)[OF inv]] by simp_all
    have "length (slice 16 20 pkt) = 4"
      using assms(3) by (simp add: slice_def)
    then have "s_tun (heap m ! q) = slice 16 20 pkt"
      using same live_v4[OF inv good live] ip_string_inj[of "s_tun (heap m ! q)" "s_tun (heap m ! q)"
          "slice 16 20 pkt" "slice 16 20 pkt"] by simp
    with none live show False by blast
  qed
  then show ?thesis
    using assms(3,4) by (auto simp: ns_output_def Let_def not_less)
qed

lemma reachable_addresses:
  assumes "wf_pool p" and "good_pool (pool_free p)" and "(mstep cfg)\<^sup>*\<^sup>* (new_master (mc_token cfg) p) m"
  shows "pool_free (pool (world m)) + held_addrs m = pool_free p
    \<and> (\<forall>x. live m x \<longrightarrow> find_tun (ip_string (s_tun (heap m ! x))) m = Some x)
    \<and> (\<forall>x y. live m x \<longrightarrow> live m y \<longrightarrow> s_tun (heap m ! x) = s_tun (heap m ! y) \<longrightarrow> x = y)"
proof -
  have inv: "master_inv (mc_token cfg) (pool_free p) m"
    by (rule msteps_inv[OF assms(3) master_inv_new[OF assms(1)] assms(2)])
  have "pool_free (pool (world m)) + held_addrs m = pool_free p"
    using master_invD(2)[OF inv] by (simp add: tunnel_pool.lease_inv_def lease_state_def)
  moreover have found: "\<forall>x. live m x \<longrightarrow> find_tun (ip_string (s_tun (heap m ! x))) m = Some x"
    using master_invD(6)[OF inv] by (simp add: tun_complete_def)
  moreover from found have "\<forall>x y. live m x \<longrightarrow> live m y \<longrightarrow> s_tun (heap m ! x) = s_tun (heap m ! y) \<longrightarrow> x = y"
    by (metis option.inject)
  ultimately show ?thesis by blast
qed

section \<open>Properties\<close>

text \<open>C7. Tunnel addresses: in every state the master reaches from its start, over any interleaving of
  handshakes, data, slave messages and reaper ticks, the free addresses and those of live sessions
  make up exactly the pool it started with, two live sessions never share a tunnel address, and
  every live session is found under its address.\<close>

theorem tunnel_addresses_unique:
  assumes "wf_pool p" and "good_pool (pool_free p)" and "(mstep cfg)\<^sup>*\<^sup>* (new_master (mc_token cfg) p) m"
  shows "pool_free (pool (world m)) + held_addrs m = pool_free p
    \<and> (\<forall>x. live m x \<longrightarrow> find_tun (ip_string (s_tun (heap m ! x))) m = Some x)
    \<and> (\<forall>x y. live m x \<longrightarrow> live m y \<longrightarrow> s_tun (heap m ! x) = s_tun (heap m ! y) \<longrightarrow> x = y)"
  by (rule reachable_addresses[OF assms])

theorem tunnel_addresses_unique_witness:
  "\<exists>m. (mstep sample_cfg)\<^sup>*\<^sup>* (new_master (mc_token sample_cfg) sample_pool) m \<and> live m 0
     \<and> pool_free (pool (world m)) + held_addrs m = {#[10, 8, 0, 2], [10, 8, 0, 3]#}"
proof -
  obtain tr' m where m: "(mstep sample_cfg)\<^sup>*\<^sup>* (new_master (mc_token sample_cfg) sample_pool) m" "live m 0"
    by (rule sample_session)
  have "pool_free sample_pool = {#[10, 8, 0, 2], [10, 8, 0, 3]#}"
    by (simp add: sample_pool_def new_ip_pool_def pool_free_def)
  with m tunnel_addresses_unique[OF sample_pool_ok m(1)] show ?thesis by auto
qed

text \<open>C12. The master refines the address pool: any run of the master from a state of its invariant is,
  seen through the free and the held addresses, a run of the pool that only takes free addresses
  and gives held ones back.\<close>

theorem master_refines_pool:
  assumes "(mstep cfg)\<^sup>*\<^sup>* m m'" and "master_inv (mc_token cfg) all m" and "good_pool all"
  shows "tunnel_pool.lease\<^sup>*\<^sup>* (lease_state m) (lease_state m') \<and> master_inv (mc_token cfg) all m'"
  using msteps_lease[OF assms] msteps_inv[OF assms] by blast

theorem master_refines_pool_witness:
  "\<exists>m. live m 0 \<and> tunnel_pool.lease\<^sup>*\<^sup>* (lease_state (new_master (mc_token sample_cfg) sample_pool)) (lease_state m)"
proof -
  obtain tr' m where m: "(mstep sample_cfg)\<^sup>*\<^sup>* (new_master (mc_token sample_cfg) sample_pool) m" "live m 0"
    by (rule sample_session)
  show ?thesis
    using master_refines_pool[OF m(1) master_inv_new[OF sample_pool_ok(1)] sample_pool_ok(2)] m(2) by blast
qed



text \<open>C9. No replay: over any sequence of hellos in the order of the clock, a hello that was accepted once
  is refused every later time, with whatever bytes behind it: the nonce is remembered for as long
  as its timestamp stays in the window.\<close>

theorem no_hello_accepted_twice:
  assumes "cache_inv r" and "sorted (map (\<lambda>e. sint (fst e)) es)" and "\<forall>e \<in> set es. unat (fst e) < 2 ^ 62"
    and "i < j" and "j < length es" and "take 58 (snd (es ! i)) = take 58 (snd (es ! j))"
    and "guard_run token es r ! i"
  shows "\<not> guard_run token es r ! j"
  by (rule no_hello_twice[OF assms])

theorem no_hello_accepted_twice_witness:
  "guard_run [] [(1700000000, sample_hello), (1700000060, sample_hello)] [] ! 0
   \<and> \<not> guard_run [] [(1700000000, sample_hello), (1700000060, sample_hello)] [] ! 1"
proof -
  have "guard_run [] [(1700000000, sample_hello), (1700000060, sample_hello)] [] ! 0"
    using sample_guard by (simp add: guard_accepts_def sample_henv_def sample_up_fields)
  moreover from this have "\<not> guard_run [] [(1700000000, sample_hello), (1700000060, sample_hello)] [] ! 1"
    by (rule no_hello_accepted_twice[rotated 6]) (simp_all add: cache_inv_def)
  ultimately show ?thesis by blast
qed

text \<open>C11. Silence: a hello that is not accepted is answered by nothing. The transport is unchanged, no
  datagram and no control frame is sent, no session, address or cipher changes.\<close>

theorem rejected_hello_silent:
  assumes "\<not> guard_accepts (mc_token cfg) (he_unix e) payload (replays (world m))"
  shows "\<exists>m'. handle_handshake cfg e addr payload tr m = Some (tr, m') \<and> quiet m m'
    \<and> events (world m') = events (world m) \<and> heap m' = heap m"
  using handshake_silent[OF assms] by blast

theorem rejected_hello_silent_witness:
  "\<exists>m'. handle_handshake sample_cfg sample_henv sample_addr [CtrlHello] CS2 sample_up = Some (CS2, m') \<and> heap m' = []"
  using rejected_hello_silent[of sample_cfg sample_henv "[CtrlHello]" sample_up sample_addr CS2]
  by (auto simp: guard_accepts_iff sample_up_fields cache_inv_def)



text \<open>C6. What reaches the network stack: in every state the master reaches, each packet it has injected
  was opened with the key of a session the master created and is an IPv4 packet of 20 bytes or more
  with that session's tunnel address as its source.\<close>

theorem injected_packets_authentic:
  assumes "wf_pool p" and "good_pool (pool_free p)" and "(mstep cfg)\<^sup>*\<^sup>* (new_master (mc_token cfg) p) m"
    and "Inject pkt \<in> set (events (world m))"
  shows "\<exists>x a ct. x < length (heap m) \<and> a_key a = session_key (mc_token cfg) (s_tun (heap m ! x))
     \<and> aead_open (mc_cipher cfg) a ct = Inr pkt \<and> 20 \<le> length pkt
     \<and> unat (pkt ! 0) div 16 = 4 \<and> to4 (s_tun (heap m ! x)) = Some (slice 12 16 pkt)"
proof -
  have new: "uplinks_ok (mc_token cfg) (new_master (mc_token cfg) p)" "events (world (new_master (mc_token cfg) p)) = []"
    by (simp_all add: uplinks_ok_def new_master_def new_table_def)
  have "only_authentic cfg m (events (world m))"
    using msteps_safe[OF assms(3) master_inv_new[OF assms(1)] assms(2) new(1)] new(2) by (simp add: only_authentic_def)
  with assms(4) obtain x a ct where "x < length (heap m)" "a_key a = session_key (mc_token cfg) (s_tun (heap m ! x))"
    "aead_open (mc_cipher cfg) a ct = Inr pkt" "src_matches_tunnel pkt (s_tun (heap m ! x))"
    by (auto simp: only_authentic_def authentic_def)
  then show ?thesis
    by (intro exI[of _ x] exI[of _ a] exI[of _ ct])
      (auto simp: src_matches_tunnel_def high_nibble(1) split: if_splits option.splits)
qed

text \<open>C13. The downlink goes to the slave of the session that owns the destination: a packet of the network
  stack with the tunnel address of a live session as its IPv4 destination is sent to the slave that
  session is pinned to, one for any other address is dropped, and a panic happens for the empty
  packet and for an IPv6 packet of 20 to 39 bytes, and for nothing else.\<close>

theorem downlink_routed:
  assumes "master_inv token all m" and "good_pool all"
  shows "(live m p \<and> 20 \<le> length pkt \<and> drop_bit 4 (pkt ! 0) = 4 \<and> slice 16 20 pkt = s_tun (heap m ! p) \<longrightarrow>
      ns_output cfg pkt m = (case send_to_slave (mc_cipher cfg) (s_slave (heap m ! p)) pkt (dp (world m)) of
        (r, d) \<Rightarrow> Some (Some r, on_world (\<lambda>w. w\<lparr>dp := d\<rparr>) m)))
    \<and> (20 \<le> length pkt \<and> drop_bit 4 (pkt ! 0) = 4 \<and> (\<forall>q. live m q \<longrightarrow> s_tun (heap m ! q) \<noteq> slice 16 20 pkt) \<longrightarrow>
      ns_output cfg pkt m = Some (None, m))
    \<and> (ns_output cfg pkt m = None \<longleftrightarrow>
        pkt = [] \<or> 20 \<le> length pkt \<and> length pkt < 40 \<and> drop_bit 4 (pkt ! 0) = 6)"
proof (intro conjI impI ns_output_none)
  assume p: "live m p \<and> 20 \<le> length pkt \<and> drop_bit 4 (pkt ! 0) = 4 \<and> slice 16 20 pkt = s_tun (heap m ! p)"
  then have f: "find_tun (ip_string (slice 16 20 pkt)) m = Some p"
    using master_invD(6)[OF assms(1)] by (simp add: tun_complete_def)
  show "ns_output cfg pkt m = (case send_to_slave (mc_cipher cfg) (s_slave (heap m ! p)) pkt (dp (world m)) of
        (r, d) \<Rightarrow> Some (Some r, on_world (\<lambda>w. w\<lparr>dp := d\<rparr>) m))"
    using p ns_output_owner[OF _ _ f, of cfg]
    by (cases "send_to_slave (mc_cipher cfg) (s_slave (heap m ! p)) pkt (dp (world m))") simp
next
  assume "20 \<le> length pkt \<and> drop_bit 4 (pkt ! 0) = 4 \<and> (\<forall>q. live m q \<longrightarrow> s_tun (heap m ! q) \<noteq> slice 16 20 pkt)"
  then show "ns_output cfg pkt m = Some (None, m)"
    using ns_output_stranger[OF assms] by blast
qed

theorem downlink_routed_witness:
  "\<exists>m d. live m 0 \<and> ns_output sample_cfg (0x45 # replicate 15 0 @ [10, 8, 0, 2]) m =
     (case send_to_slave null_cipher ''a'' (0x45 # replicate 15 0 @ [10, 8, 0, 2]) (dp (world m)) of
        (r, d) \<Rightarrow> Some (Some r, on_world (\<lambda>w. w\<lparr>dp := d\<rparr>) m))"
proof -
  obtain tr' m where m: "(mstep sample_cfg)\<^sup>*\<^sup>* (new_master (mc_token sample_cfg) sample_pool) m" "live m 0"
    "s_tun (heap m ! 0) = [10, 8, 0, 2]" "s_slave (heap m ! 0) = ''a''"
    by (rule sample_session)
  have "master_inv (mc_token sample_cfg) (pool_free sample_pool) m"
    by (rule msteps_inv[OF m(1) master_inv_new[OF sample_pool_ok(1)] sample_pool_ok(2)])
  then show ?thesis
    using downlink_routed[OF _ sample_pool_ok(2), of _ m 0 "0x45 # replicate 15 0 @ [10, 8, 0, 2]" sample_cfg] m
    by (auto simp: slice_def)
qed

end
