(* ===== verification/Slave.thy ===== *)
theory Slave
  imports DataPlane Transport Control
begin

text \<open>
  The slave of \<open>slave/main.go\<close>: its session map, the downlink from the master to the client,
  the punch, ping and relay handling of the client socket, and the control connection with
  its reconnection delay. Session objects are shared by two maps, so they live in a heap.
  JSON decoding of session messages is the argument \<open>decode\<close>; randomness of a new cipher is
  the argument \<open>rnd\<close>; every step returns the datagrams it sends.
\<close>

section \<open>State\<close>

record client_session =
  cs_id :: bytes
  cs_addr :: "udpaddr option"
  cs_tun :: ip
  cs_aead :: "aead option"

record slave_server =
  sheap :: "client_session list"
  ssessions :: "(string \<times> nat) list"
  sby_addr :: "string \<rightharpoonup> nat"
  stoken :: bytes
  str :: transport
  srelay :: "aead option"
  smaster_dp :: "udpaddr option"

datatype out = ToClient udpaddr bytes | ToMaster udpaddr bytes

definition new_slave :: "bytes \<Rightarrow> transport \<Rightarrow> aead option \<Rightarrow> udpaddr option \<Rightarrow> slave_server" where
  "new_slave token tr relay mdp =
     \<lparr>sheap = [], ssessions = [], sby_addr = Map.empty, stoken = token, str = tr,
      srelay = relay, smaster_dp = mdp\<rparr>"

section \<open>Sessions announced by the master\<close>

definition handle_new_session ::
    "(bytes \<Rightarrow> slave_session option) \<Rightarrow> bytes option \<Rightarrow> bytes \<Rightarrow> slave_server \<Rightarrow> slave_server" where
  "handle_new_session decode rnd payload s =
     (case decode payload of
        None \<Rightarrow> s
      | Some msg \<Rightarrow>
          (let a = new_aead (session_key (stoken s) (ss_tunnel_ip msg)) rnd;
               sess = \<lparr>cs_id = ss_id msg,
                       cs_addr = Some \<lparr>uip = ss_client_ip msg, uport = unat (ss_client_port msg)\<rparr>,
                       cs_tun = ss_tunnel_ip msg, cs_aead = a\<rparr>;
               p = length (sheap s)
           in s\<lparr>sheap := sheap s @ [sess],
                ssessions := aput (ip_string (ss_tunnel_ip msg)) p (ssessions s)\<rparr>))"

text \<open>\<open>order\<close> is one order in which \<open>sync.Map.Range\<close> may visit the keys.\<close>

fun first_with_id :: "bytes \<Rightarrow> slave_server \<Rightarrow> (string \<times> nat) list \<Rightarrow> string option" where
  "first_with_id i s [] = None"
| "first_with_id i s ((k, p) # xs) = (if cs_id (sheap s ! p) = i then Some k else first_with_id i s xs)"

definition handle_session_end :: "(string \<times> nat) list \<Rightarrow> bytes \<Rightarrow> slave_server \<Rightarrow> slave_server" where
  "handle_session_end order payload s =
     (if length payload < 16 then s
      else case first_with_id (take 16 payload) s order of
        None \<Rightarrow> s
      | Some k \<Rightarrow> s\<lparr>ssessions := adel k (ssessions s)\<rparr>)"

section \<open>Downlink\<close>

definition send_to_client :: "cipher \<Rightarrow> wenv \<Rightarrow> bytes \<Rightarrow> slave_server \<Rightarrow> out list \<times> slave_server" where
  "send_to_client C e pkt s =
     (if length pkt < 20 then ([], s)
      else case map_of (ssessions s) (ip_string (slice 16 20 pkt)) of
        None \<Rightarrow> ([], s)
      | Some p \<Rightarrow>
          (let sess = sheap s ! p;
               (r, a') = (case cs_aead sess of
                  None \<Rightarrow> (Inr pkt, None)
                | Some a \<Rightarrow> (case aead_seal C a pkt of (r, a') \<Rightarrow> (r, Some a')));
               s1 = s\<lparr>sheap := (sheap s)[p := sess\<lparr>cs_aead := a'\<rparr>]\<rparr>
           in case r of
                Inl _ \<Rightarrow> ([], s1)
              | Inr ct \<Rightarrow> (case tr_wrap e (str s) PktTypeData ct of (f, tr') \<Rightarrow>
                  (case cs_addr sess of None \<Rightarrow> [] | Some dst \<Rightarrow> [ToClient dst f], s1\<lparr>str := tr'\<rparr>))))"

text \<open>One datagram on the data-plane socket; \<open>a\<close> is the cipher of the slave's own key.\<close>

definition data_plane_read :: "cipher \<Rightarrow> aead \<Rightarrow> wenv \<Rightarrow> bytes \<Rightarrow> slave_server \<Rightarrow> out list \<times> slave_server" where
  "data_plane_read C a e buf s =
     (if length buf < 3 \<or> buf ! 0 \<noteq> 0xDA then ([], s)
      else let len = get16 (slice 1 3 buf) in
        if unat len > length buf - 3 then ([], s)
        else case aead_open C a (slice 3 (unat (3 + len)) buf) of
          Inl _ \<Rightarrow> ([], s)
        | Inr pkt \<Rightarrow> send_to_client C e pkt s)"

section \<open>The client socket\<close>

definition relay_to_master :: "cipher \<Rightarrow> ip \<Rightarrow> bytes \<Rightarrow> slave_server \<Rightarrow> out list \<times> slave_server" where
  "relay_to_master C tunnel_ip ct s =
     (case (srelay s, smaster_dp s) of
        (Some a, Some dst) \<Rightarrow>
          (case build_uplink_frame C a tunnel_ip ct of
             (Inl _, a') \<Rightarrow> ([], s\<lparr>srelay := Some a'\<rparr>)
           | (Inr f, a') \<Rightarrow> ([ToMaster dst f], s\<lparr>srelay := Some a'\<rparr>))
      | _ \<Rightarrow> ([], s))"

definition punch_read :: "cipher \<Rightarrow> wenv \<Rightarrow> udpaddr \<Rightarrow> bytes \<Rightarrow> slave_server \<Rightarrow> out list \<times> slave_server" where
  "punch_read C e src buf s =
     (case tr_unwrap (str s) (take 2048 buf) of
        None \<Rightarrow> ([], s)
      | Some (t, payload) \<Rightarrow>
          if t = PktTypeData then
            (case sby_addr s (udp_string src) of
               None \<Rightarrow> ([], s)
             | Some p \<Rightarrow> relay_to_master C (cs_tun (sheap s ! p)) payload s)
          else if t = PktTypePing then
            (if length payload < 12 then ([], s)
             else case map_of (ssessions s) (ip_string (take 4 payload)) of
               None \<Rightarrow> ([], s)
             | Some _ \<Rightarrow> (case tr_wrap e (str s) PktTypePong payload of (f, tr') \<Rightarrow>
                 ([ToClient src f], s\<lparr>str := tr'\<rparr>)))
          else if t \<noteq> PktTypePunch then ([], s)
          else if length payload < 4 then ([], s)
          else case map_of (ssessions s) (ip_string (take 4 payload)) of
            None \<Rightarrow> ([], s)
          | Some p \<Rightarrow>
              (let s1 = s\<lparr>sby_addr := (sby_addr s)(udp_string src \<mapsto> p)\<rparr>;
                   stale = (case cs_addr (sheap s ! p) of None \<Rightarrow> True
                            | Some a \<Rightarrow> udp_string a \<noteq> udp_string src)
               in ([], if stale then s1\<lparr>sheap := (sheap s1)[p := (sheap s1 ! p)\<lparr>cs_addr := Some src\<rparr>]\<rparr>
                       else s1)))"

section \<open>The control connection\<close>

definition slave_write_frame :: "byte \<Rightarrow> bytes \<Rightarrow> bytes" where
  "slave_write_frame t payload = [t] @ put16 (of_nat (length payload)) @ payload"

definition slave_read_frame :: "bytes \<Rightarrow> ((byte \<times> bytes) \<times> bytes) option" where
  "slave_read_frame b =
     (if length b < 3 then None
      else let n = unat (get16 (slice 1 3 b)) in
        if length b < 3 + n then None
        else Some ((b ! 0, slice 3 (3 + n) b), drop (3 + n) b))"

lemma slave_frames_same: "slave_write_frame = send_frame" "slave_read_frame = read_frame"
  by (auto simp: fun_eq_iff slave_write_frame_def send_frame_def slave_read_frame_def read_frame_def)

interpretation master_to_slave: framing "\<lambda>(t, p). send_frame t p" slave_read_frame "\<lambda>(t, p). length p < 65536"
  unfolding slave_frames_same by (rule control_frames.framing_axioms)

interpretation slave_to_master: framing "\<lambda>(t, p). slave_write_frame t p" read_frame "\<lambda>(t, p). length p < 65536"
  unfolding slave_frames_same by (rule control_frames.framing_axioms)

text \<open>One control message, with the map order and randomness its handler meets.\<close>

definition control_message ::
    "(bytes \<Rightarrow> slave_session option) \<Rightarrow> ((string \<times> nat) list \<Rightarrow> (string \<times> nat) list) \<Rightarrow> bytes option
      \<Rightarrow> byte \<times> bytes \<Rightarrow> slave_server \<Rightarrow> slave_server" where
  "control_message decode order rnd m s =
     (if fst m = 2 then handle_new_session decode rnd (snd m) s
      else if fst m = 3 then handle_session_end (order (ssessions s)) (snd m) s
      else s)"

fun control_run ::
    "(bytes \<Rightarrow> slave_session option) \<Rightarrow> ((string \<times> nat) list \<Rightarrow> (string \<times> nat) list) \<Rightarrow> bytes option list
      \<Rightarrow> (byte \<times> bytes) list \<Rightarrow> slave_server \<Rightarrow> slave_server" where
  "control_run decode order rnds [] s = s"
| "control_run decode order rnds (m # ms) s =
     control_run decode order (drop 1 rnds) ms
       (control_message decode order (case rnds of [] \<Rightarrow> None | r # _ \<Rightarrow> r) m s)"

text \<open>The delay, in seconds, before attempt number \<open>n + 1\<close> to reach the master.\<close>

fun backoff :: "nat \<Rightarrow> nat" where
  "backoff 0 = 1"
| "backoff (Suc n) = (if backoff n < 30 then 2 * backoff n else backoff n)"

lemma backoff_eq: "backoff n = min 32 (2 ^ n)"
proof (induction n)
  case (Suc n)
  show ?case
  proof (cases "n \<le> 4")
    case True
    then have "n = 0 \<or> n = 1 \<or> n = 2 \<or> n = 3 \<or> n = 4" by linarith
    with Suc show ?thesis by auto
  next
    case False
    then have "(2 :: nat) ^ 5 \<le> 2 ^ n"
      by (intro power_increasing) simp_all
    with Suc show ?thesis by simp
  qed
qed simp

section \<open>Invariant\<close>

text \<open>
  Every map entry points at a session; the session map's keys are the sessions' tunnel
  addresses; every cipher is keyed by the token and the session's tunnel address.
\<close>

definition cs_ok :: "bytes \<Rightarrow> client_session \<Rightarrow> bool" where
  "cs_ok token c \<longleftrightarrow> (case cs_aead c of None \<Rightarrow> True
     | Some a \<Rightarrow> wf_aead a \<and> a_key a = session_key token (cs_tun c))"

definition keys_ok :: "client_session list \<Rightarrow> (string \<rightharpoonup> nat) \<Rightarrow> bool" where
  "keys_ok h m \<longleftrightarrow> (\<forall>k p. m k = Some p \<longrightarrow> p < length h \<and> ip_string (cs_tun (h ! p)) = k)"

definition ptrs_ok :: "client_session list \<Rightarrow> (string \<rightharpoonup> nat) \<Rightarrow> bool" where
  "ptrs_ok h m \<longleftrightarrow> (\<forall>k p. m k = Some p \<longrightarrow> p < length h)"

definition slave_inv :: "slave_server \<Rightarrow> bool" where
  "slave_inv s \<longleftrightarrow> list_all (cs_ok (stoken s)) (sheap s) \<and> distinct (map fst (ssessions s))
     \<and> keys_ok (sheap s) (map_of (ssessions s)) \<and> ptrs_ok (sheap s) (sby_addr s) \<and> wf_transport (str s)"

lemma slave_inv_new: "wf_transport tr \<Longrightarrow> slave_inv (new_slave token tr relay mdp)"
  by (simp add: slave_inv_def new_slave_def keys_ok_def ptrs_ok_def)

lemma keys_ok_append: "keys_ok h m \<Longrightarrow> keys_ok (h @ [c]) (m(ip_string (cs_tun c) \<mapsto> length h))"
proof -
  assume k: "keys_ok h m"
  have "p < length (h @ [c]) \<and> ip_string (cs_tun ((h @ [c]) ! p)) = i"
    if "(m(ip_string (cs_tun c) \<mapsto> length h)) i = Some p" for i p
  proof (cases "i = ip_string (cs_tun c)")
    case False
    with that k have "p < length h \<and> ip_string (cs_tun (h ! p)) = i"
      unfolding keys_ok_def by simp
    then show ?thesis by (simp add: nth_append)
  qed (use that in \<open>auto simp: nth_append\<close>)
  then show ?thesis
    unfolding keys_ok_def by blast
qed

lemma cs_ok_addr [simp]: "cs_ok t (c\<lparr>cs_addr := x\<rparr>) = cs_ok t c"
  by (simp add: cs_ok_def split: option.split)

lemma cs_ok_seal:
  "cs_ok t c \<Longrightarrow> cs_aead c = Some a \<Longrightarrow> cs_ok t (c\<lparr>cs_aead := Some (snd (aead_seal C a p))\<rparr>)"
  by (simp add: cs_ok_def aead_seal_wf)

lemma cs_ok_same: "cs_ok t c \<Longrightarrow> cs_aead c = x \<Longrightarrow> cs_ok t (c\<lparr>cs_aead := x\<rparr>)"
  by (auto simp: cs_ok_def split: option.splits)

lemma ptrs_ok_append: "ptrs_ok h m \<Longrightarrow> ptrs_ok (h @ [c]) m"
  unfolding ptrs_ok_def by (auto intro: less_SucI)

lemma keys_ok_del: "keys_ok h m \<Longrightarrow> keys_ok h (m(k := None))"
  by (simp add: keys_ok_def)

lemma keys_ok_upd: "keys_ok h m \<Longrightarrow> cs_tun c = cs_tun (h ! p) \<Longrightarrow> keys_ok (h[p := c]) m"
proof -
  assume c: "cs_tun c = cs_tun (h ! p)"
  have "q < length h \<Longrightarrow> cs_tun (h[p := c] ! q) = cs_tun (h ! q)" for q
    using c by (cases "p = q") simp_all
  then show "keys_ok h m \<Longrightarrow> ?thesis"
    by (simp add: keys_ok_def)
qed

lemma ptrs_ok_upd [simp]: "ptrs_ok (h[p := c]) m = ptrs_ok h m"
  by (simp add: ptrs_ok_def)

lemma list_all_upd: "list_all P xs \<Longrightarrow> P x \<Longrightarrow> list_all P (xs[p := x])"
  unfolding list_all_iff using set_update_subset_insert[of xs p x] by auto

lemma slave_inv_new_session:
  assumes "slave_inv s" and "\<forall>r. rnd = Some r \<longrightarrow> length r = 8"
  shows "slave_inv (handle_new_session decode rnd payload s)"
proof (cases "decode payload")
  case None
  with assms show ?thesis by (simp add: handle_new_session_def)
next
  case (Some msg)
  define c where "c = \<lparr>cs_id = ss_id msg,
      cs_addr = Some \<lparr>uip = ss_client_ip msg, uport = unat (ss_client_port msg)\<rparr>,
      cs_tun = ss_tunnel_ip msg, cs_aead = new_aead (session_key (stoken s) (ss_tunnel_ip msg)) rnd\<rparr>"
  have "cs_ok (stoken s) c"
    using assms(2) by (cases rnd) (auto simp: c_def cs_ok_def new_aead_def wf_aead_def)
  moreover have "cs_tun c = ss_tunnel_ip msg"
    by (simp add: c_def)
  ultimately show ?thesis
    using assms(1) keys_ok_append[of "sheap s" "map_of (ssessions s)" c]
    by (simp add: handle_new_session_def Some Let_def c_def [symmetric] slave_inv_def ptrs_ok_append)
qed

lemma slave_inv_session_end: "slave_inv s \<Longrightarrow> slave_inv (handle_session_end order payload s)"
  by (simp add: handle_session_end_def slave_inv_def keys_ok_del split: option.split)

lemma relay_keeps [simp]:
  "sheap (snd (relay_to_master C t ct s)) = sheap s" "ssessions (snd (relay_to_master C t ct s)) = ssessions s"
  "sby_addr (snd (relay_to_master C t ct s)) = sby_addr s" "stoken (snd (relay_to_master C t ct s)) = stoken s"
  "str (snd (relay_to_master C t ct s)) = str s"
  by (auto simp: relay_to_master_def split: option.splits prod.splits sum.splits)

lemma slave_inv_relay: "slave_inv s \<Longrightarrow> slave_inv (snd (relay_to_master C t ct s))"
  by (simp add: slave_inv_def)

lemma slave_inv_send:
  assumes inv: "slave_inv s" and e: "wf_env e"
  shows "slave_inv (snd (send_to_client C e pkt s))"
proof (cases "length pkt < 20 \<or> map_of (ssessions s) (ip_string (slice 16 20 pkt)) = None")
  case True
  with inv show ?thesis by (auto simp: send_to_client_def)
next
  case False
  then obtain p where p: "map_of (ssessions s) (ip_string (slice 16 20 pkt)) = Some p" and len: "\<not> length pkt < 20"
    by blast
  have pl: "p < length (sheap s)"
    using inv p unfolding slave_inv_def keys_ok_def by blast
  obtain r a' where ra: "(case cs_aead (sheap s ! p) of None \<Rightarrow> (Inr pkt, None)
      | Some a \<Rightarrow> (case aead_seal C a pkt of (r, a') \<Rightarrow> (r, Some a'))) = (r :: cerr + bytes, a')"
    by (cases "(case cs_aead (sheap s ! p) of None \<Rightarrow> (Inr pkt :: cerr + bytes, None)
      | Some a \<Rightarrow> (case aead_seal C a pkt of (r, a') \<Rightarrow> (r, Some a')))")
  have "cs_ok (stoken s) (sheap s ! p)"
    using inv pl by (simp add: slave_inv_def list_all_length)
  then have ok: "cs_ok (stoken s) ((sheap s ! p)\<lparr>cs_aead := a'\<rparr>)"
  proof (cases "cs_aead (sheap s ! p)")
    case None
    with ra \<open>cs_ok (stoken s) (sheap s ! p)\<close> show ?thesis
      by (auto intro: cs_ok_same)
  next
    case (Some a)
    with ra have "a' = Some (snd (aead_seal C a pkt))"
      by (auto split: prod.splits)
    with Some \<open>cs_ok (stoken s) (sheap s ! p)\<close> show ?thesis
      by (simp add: cs_ok_seal)
  qed
  have "wf_transport tr'" if "tr_wrap e (str s) PktTypeData ct = (f, tr')" for ct f tr'
    using inv tr_wrap_wf[OF e, of "str s" PktTypeData ct] that by (simp add: slave_inv_def)
  then show ?thesis
    using inv ok p len ra
    by (auto simp: send_to_client_def Let_def slave_inv_def list_all_upd keys_ok_upd
        split: sum.splits prod.splits) 
qed

lemma slave_inv_data: "slave_inv s \<Longrightarrow> wf_env e \<Longrightarrow> slave_inv (snd (data_plane_read C a e buf s))"
  by (simp add: data_plane_read_def Let_def slave_inv_send split: sum.splits)

lemma slave_inv_punch:
  assumes inv: "slave_inv s" and e: "wf_env e"
  shows "slave_inv (snd (punch_read C e src buf s))"
proof -
  have tr: "wf_transport (snd (tr_wrap e (str s) t ct))" for t ct
    using inv e by (simp add: slave_inv_def tr_wrap_wf)
  have upd: "slave_inv (s\<lparr>sby_addr := (sby_addr s)(udp_string src \<mapsto> p),
      sheap := (sheap s)[p := (sheap s ! p)\<lparr>cs_addr := Some src\<rparr>]\<rparr>)"
      "slave_inv (s\<lparr>sby_addr := (sby_addr s)(udp_string src \<mapsto> p)\<rparr>)"
    if p: "map_of (ssessions s) k = Some p" for k p
  proof -
    have pl: "p < length (sheap s)"
      using inv p unfolding slave_inv_def keys_ok_def by blast
    then have "cs_ok (stoken s) ((sheap s ! p)\<lparr>cs_addr := Some src\<rparr>)"
      using inv by (simp add: slave_inv_def list_all_length)
    then show "slave_inv (s\<lparr>sby_addr := (sby_addr s)(udp_string src \<mapsto> p),
        sheap := (sheap s)[p := (sheap s ! p)\<lparr>cs_addr := Some src\<rparr>]\<rparr>)"
      "slave_inv (s\<lparr>sby_addr := (sby_addr s)(udp_string src \<mapsto> p)\<rparr>)"
      using inv pl by (simp_all add: slave_inv_def list_all_upd keys_ok_upd ptrs_ok_def)
  qed
  have pong: "slave_inv (s\<lparr>str := snd (tr_wrap e (str s) PktTypePong payload)\<rparr>)" for payload
    using inv tr by (simp add: slave_inv_def)
  show ?thesis
    using inv upd pong
    by (auto simp: punch_read_def Let_def slave_inv_relay split: option.splits prod.splits)
       (metis snd_conv)+
qed

lemma slave_inv_control:
  assumes "slave_inv s" and "\<forall>r. rnd = Some r \<longrightarrow> length r = 8"
  shows "slave_inv (control_message decode order rnd m s)"
  using assms by (simp add: control_message_def slave_inv_new_session slave_inv_session_end)

section \<open>What the slave does\<close>

text \<open>A wrapped packet arriving at the client socket, by type.\<close>

lemma punch_read_wrapped:
  assumes "wf_env e'" and "wf_transport tr" and "same_kind tr (str s)" and "wf_transport (str s)"
    and "f = fst (tr_wrap e' tr t payload)"
  shows "tr_unwrap (str s) f = Some (t, payload)"
  using assms tr_demux_eq[OF assms(1,2), of "str s" t payload] by simp

lemma punch_read_types:
  "tr_unwrap (str s) (take 2048 buf) = Some (t, payload) \<Longrightarrow> t \<notin> {PktTypeData, PktTypePing, PktTypePunch} \<Longrightarrow>
     punch_read C e src buf s = ([], s)"
  by (simp add: punch_read_def)

text \<open>A client the slave has no session for gets no answer, whatever it sends.\<close>

lemma stranger_gets_silence:
  assumes "sby_addr s (udp_string src) = None"
    and "\<forall>t payload. tr_unwrap (str s) (take 2048 buf) = Some (t, payload) \<longrightarrow>
          map_of (ssessions s) (ip_string (take 4 payload)) = None"
  shows "punch_read C e src buf s = ([], s)"
  using assms by (auto simp: punch_read_def split: option.splits)

lemma ping_answer:
  assumes "tr_unwrap (str s) (take 2048 buf) = Some (PktTypePing, payload)"
  shows "fst (punch_read C e src buf s) =
    (if 12 \<le> length payload \<and> map_of (ssessions s) (ip_string (take 4 payload)) \<noteq> None
     then [ToClient src (fst (tr_wrap e (str s) PktTypePong payload))] else [])"
    "sheap (snd (punch_read C e src buf s)) = sheap s"
    "ssessions (snd (punch_read C e src buf s)) = ssessions s"
    "sby_addr (snd (punch_read C e src buf s)) = sby_addr s"
  using assms by (auto simp: punch_read_def pkt_types split: option.splits prod.splits)

text \<open>A punch re-points the downlink of the session it names and records its source.\<close>

lemma punch_effect:
  assumes "tr_unwrap (str s) (take 2048 buf) = Some (PktTypePunch, payload)" and "4 \<le> length payload"
    and p: "map_of (ssessions s) (ip_string (take 4 payload)) = Some p" and "slave_inv s"
    and s'_def: "s' = snd (punch_read C e src buf s)"
  shows "fst (punch_read C e src buf s) = []" "sby_addr s' (udp_string src) = Some p"
    "\<exists>a. cs_addr (sheap s' ! p) = Some a \<and> udp_string a = udp_string src"
    "ssessions s' = ssessions s" "cs_tun (sheap s' ! p) = cs_tun (sheap s ! p)"
    "cs_aead (sheap s' ! p) = cs_aead (sheap s ! p)" "srelay s' = srelay s" "smaster_dp s' = smaster_dp s"
proof -
  have "p < length (sheap s)"
    using p assms(4) unfolding slave_inv_def keys_ok_def by blast
  then show "fst (punch_read C e src buf s) = []" "sby_addr s' (udp_string src) = Some p"
    "\<exists>a. cs_addr (sheap s' ! p) = Some a \<and> udp_string a = udp_string src"
    "ssessions s' = ssessions s" "cs_tun (sheap s' ! p) = cs_tun (sheap s ! p)"
    "cs_aead (sheap s' ! p) = cs_aead (sheap s ! p)" "srelay s' = srelay s" "smaster_dp s' = smaster_dp s"
    using assms(1-3) by (auto simp: s'_def punch_read_def pkt_types Let_def split: option.splits)
qed

text \<open>Uplink of a punched client is framed for the master under the session's tunnel address.\<close>

lemma relay_effect:
  assumes "tr_unwrap (str s) (take 2048 buf) = Some (PktTypeData, payload)"
    and "sby_addr s (udp_string src) = Some p" and "srelay s = Some a" and "smaster_dp s = Some dst"
    and "build_uplink_frame C a (cs_tun (sheap s ! p)) payload = (Inr f, a')"
  shows "punch_read C e src buf s = ([ToMaster dst f], s\<lparr>srelay := Some a'\<rparr>)"
  using assms by (simp add: punch_read_def relay_to_master_def)

text \<open>The downlink: the packet reaches the client that owns its destination address, readable by it.\<close>

lemma send_to_client_effect:
  assumes C: "cipher_ok C" and inv: "slave_inv s" and e: "wf_env e" and len: "20 \<le> length pkt"
    and p: "map_of (ssessions s) (ip_string (slice 16 20 pkt)) = Some p"
    and a: "cs_aead (sheap s ! p) = Some a" and fresh: "a_counter a \<le> 0xFFFFFFFF"
    and dst: "cs_addr (sheap s ! p) = Some dst"
    and b: "a_key b = session_key (stoken s) (cs_tun (sheap s ! p))" and k: "same_kind (str s) tr"
  obtains f ct where "fst (send_to_client C e pkt s) = [ToClient dst f]"
    "tr_unwrap tr f = Some (PktTypeData, ct)" "aead_open C b ct = Inr pkt"
proof -
  have pl: "p < length (sheap s)"
    using p inv unfolding slave_inv_def keys_ok_def by blast
  have ok: "wf_aead a" "a_key b = a_key a"
    using inv pl a b by (auto simp: slave_inv_def list_all_length cs_ok_def split: option.splits)
  obtain ct a' where seal: "aead_seal C a pkt = (Inr ct, a')"
    using fresh by (auto simp: aead_seal_def aead_nonce_def Let_def not_less)
  obtain f tr' where f: "tr_wrap e (str s) PktTypeData ct = (f, tr')"
    by (cases "tr_wrap e (str s) PktTypeData ct")
  show thesis
  proof (rule that)
    show "fst (send_to_client C e pkt s) = [ToClient dst f]"
      using len p a seal f dst by (simp add: send_to_client_def Let_def not_less)
    have "wf_transport (str s)"
      using inv by (simp add: slave_inv_def)
    then show "tr_unwrap tr f = Some (PktTypeData, ct)"
      using tr_demux_eq[OF e, of "str s" tr PktTypeData ct] k f by simp
    show "aead_open C b ct = Inr pkt"
      using aead_open_seal(1)[OF C ok seal] .
  qed
qed

text \<open>Downlink for an address no session has is dropped.\<close>

lemma send_to_client_unknown:
  "map_of (ssessions s) (ip_string (slice 16 20 pkt)) = None \<Longrightarrow> send_to_client C e pkt s = ([], s)"
  by (simp add: send_to_client_def)

lemma data_plane_read_frame:
  assumes "slave_dp_read C a buf = SPacket pkt" and "length buf \<le> 65535"
  shows "data_plane_read C a e buf s = send_to_client C e pkt s"
proof -
  have "unat (3 + len) \<ge> 3" if "unat len \<le> length buf - 3" "3 \<le> length buf" for len :: u16
    using that assms(2) by (simp add: unat_word_ariths)
  with assms(1) show ?thesis
    by (auto simp: slave_dp_read_def dp_unframe_def data_plane_read_def Let_def MsgTypeData_def
        split: option.splits sum.splits if_splits)
qed

text \<open>A session is registered under its tunnel address, with the key the client derives.\<close>

lemma new_session_effect:
  assumes "decode payload = Some msg" and "length rnd = 8"
    and "s' = handle_new_session decode (Some rnd) payload s"
  obtains p a where "map_of (ssessions s') (ip_string (ss_tunnel_ip msg)) = Some p"
    "cs_aead (sheap s' ! p) = Some a" "a_key a = session_key (stoken s) (ss_tunnel_ip msg)" "a_counter a = 0"
    "cs_addr (sheap s' ! p) = Some \<lparr>uip = ss_client_ip msg, uport = unat (ss_client_port msg)\<rparr>"
    "cs_tun (sheap s' ! p) = ss_tunnel_ip msg" "cs_id (sheap s' ! p) = ss_id msg"
  using assms by (intro that) (auto simp: handle_new_session_def Let_def new_aead_def)

section \<open>The end of a session\<close>

lemma first_with_id_Some:
  "first_with_id i s xs = Some k \<Longrightarrow> \<exists>p. (k, p) \<in> set xs \<and> cs_id (sheap s ! p) = i"
  by (induction xs rule: first_with_id.induct) (auto split: if_splits)

lemma first_with_id_None: "first_with_id i s xs = None \<longleftrightarrow> (\<forall>(k, p) \<in> set xs. cs_id (sheap s ! p) \<noteq> i)"
  by (induction xs rule: first_with_id.induct) auto

text \<open>Session ids in use are distinct, so the visiting order does not matter.\<close>

definition ids_distinct :: "slave_server \<Rightarrow> bool" where
  "ids_distinct s \<longleftrightarrow> distinct (map (\<lambda>(k, p). cs_id (sheap s ! p)) (ssessions s))"

lemma session_end_exact:
  assumes "ids_distinct s" and "distinct (map fst (ssessions s))" and "set order = set (ssessions s)"
    and "16 \<le> length payload"
  shows "map_of (ssessions (handle_session_end order payload s)) k =
    (case map_of (ssessions s) k of
       Some p \<Rightarrow> if cs_id (sheap s ! p) = take 16 payload then None else Some p | None \<Rightarrow> None)"
proof (cases "first_with_id (take 16 payload) s order")
  case None
  then have "\<forall>(k, p) \<in> set (ssessions s). cs_id (sheap s ! p) \<noteq> take 16 payload"
    using assms(3) by (simp add: first_with_id_None)
  then show ?thesis
    using None assms(4)
    by (auto simp: handle_session_end_def split: option.split dest!: map_of_SomeD)
next
  case (Some k')
  then obtain p' where p': "(k', p') \<in> set (ssessions s)" "cs_id (sheap s ! p') = take 16 payload"
    using first_with_id_Some[OF Some] assms(3) by blast
  have same: "k = k' \<and> p = p'" if "(k, p) \<in> set (ssessions s)" "cs_id (sheap s ! p) = take 16 payload" for k p
  proof -
    have "inj_on (\<lambda>(k, p). cs_id (sheap s ! p)) (set (ssessions s))"
      using assms(1) by (simp add: ids_distinct_def distinct_map)
    then have "(k, p) = (k', p')"
      by (rule inj_onD) (use that p' in simp_all)
    then show ?thesis by simp
  qed
  have k': "map_of (ssessions s) k' = Some p'"
    using p'(1) assms(2) by simp
  show ?thesis
  proof (cases "k = k'")
    case True
    with Some assms(4) k' p' show ?thesis by (simp add: handle_session_end_def)
  next
    case False
    with Some assms(4) same show ?thesis
      by (auto simp: handle_session_end_def split: option.split dest!: map_of_SomeD)
  qed
qed

text \<open>
  Ending a session leaves the client's address entry in place: a client that punched keeps
  its uplink relay after its session is gone.
\<close>

lemma session_end_keeps_relay:
  "sby_addr (handle_session_end order payload s) = sby_addr s"
  "sheap (handle_session_end order payload s) = sheap s"
  by (simp_all add: handle_session_end_def split: option.split)

lemma session_end_relays:
  "relay_to_master C t ct (handle_session_end order payload s) =
     (case relay_to_master C t ct s of (outs, u) \<Rightarrow> (outs, (handle_session_end order payload s)\<lparr>srelay := srelay u\<rparr>))"
  by (auto simp: handle_session_end_def relay_to_master_def split: option.split prod.split sum.split)

lemma punch_all:
  assumes "slave_inv s" and "tr_unwrap (str s) (take 2048 buf) = Some (PktTypePunch, payload)" and "4 \<le> length payload"
    and p: "map_of (ssessions s) (ip_string (take 4 payload)) = Some p"
    and s': "s' = snd (punch_read C e src buf s)"
  shows "fst (punch_read C e src buf s) = [] \<and> slave_inv s' \<and> ssessions s' = ssessions s
    \<and> sby_addr s' = (sby_addr s)(udp_string src \<mapsto> p)
    \<and> (\<exists>a. cs_addr (sheap s' ! p) = Some a \<and> udp_string a = udp_string src)
    \<and> cs_aead (sheap s' ! p) = cs_aead (sheap s ! p) \<and> cs_tun (sheap s' ! p) = cs_tun (sheap s ! p)
    \<and> (\<forall>q. q \<noteq> p \<longrightarrow> sheap s' ! q = sheap s ! q)"
proof -
  have "p < length (sheap s)"
    using p assms(1) unfolding slave_inv_def keys_ok_def by blast
  moreover have "punch_read C e src buf s = ([], s')"
    using assms(2-4) by (simp add: s' punch_read_def pkt_types Let_def not_less)
  moreover have "punch_read C e src buf s = punch_read C sample_env src buf s"
    using assms(2-4) by (simp add: punch_read_def pkt_types Let_def not_less)
  then have "slave_inv s'"
    using slave_inv_punch[OF assms(1), of sample_env C src buf] by (simp add: s')
  ultimately show ?thesis
    using punch_effect(2-6)[OF assms(2,3) p assms(1) s'] assms(2,3) p s'
    by (auto simp: punch_read_def pkt_types Let_def not_less)
qed

section \<open>Properties\<close>

lemma punch_read_answers:
  assumes "fst (punch_read C e src buf s) \<noteq> []"
  shows "\<exists>t payload. tr_unwrap (str s) (take 2048 buf) = Some (t, payload) \<and>
     (t = PktTypeData \<and> sby_addr s (udp_string src) \<noteq> None
      \<or> t = PktTypePing \<and> 12 \<le> length payload \<and> map_of (ssessions s) (ip_string (take 4 payload)) \<noteq> None
        \<and> fst (punch_read C e src buf s) = [ToClient src (fst (tr_wrap e (str s) PktTypePong payload))])"
  using assms
  by (auto simp: punch_read_def Let_def not_less split: option.splits prod.splits if_splits)

text \<open>C19. The slave does not answer probes: a datagram on the client socket makes it send something only
  when it unwraps to a data packet from an address that has punched, or to a ping of at least
  twelve bytes that names the tunnel address of a session, and the answer to that ping is the
  pong with the same payload, sent to the asking address.\<close>

theorem slave_ignores_probes:
  assumes "fst (punch_read C e src buf s) \<noteq> []"
  shows "\<exists>t payload. tr_unwrap (str s) (take 2048 buf) = Some (t, payload) \<and>
     (t = PktTypeData \<and> sby_addr s (udp_string src) \<noteq> None
      \<or> t = PktTypePing \<and> 12 \<le> length payload \<and> map_of (ssessions s) (ip_string (take 4 payload)) \<noteq> None
        \<and> fst (punch_read C e src buf s) = [ToClient src (fst (tr_wrap e (str s) PktTypePong payload))])"
  by (rule punch_read_answers[OF assms])

definition sample_announce :: slave_session where
  "sample_announce = \<lparr>ss_id = replicate 16 1, ss_client_ip = [192, 0, 2, 1], ss_client_port = 5000,
     ss_tunnel_ip = [10, 8, 0, 2]\<rparr>"

definition sample_slave :: slave_server where
  "sample_slave = handle_new_session (\<lambda>_. Some sample_announce) (Some (replicate 8 0)) []
     (new_slave [] CS2 (Some (sample_aead (slave_key [] ''a''))) (Some \<lparr>uip = [198, 51, 100, 1], uport = 9\<rparr>))"

lemma sample_slave_inv: "slave_inv sample_slave"
  unfolding sample_slave_def by (rule slave_inv_new_session[OF slave_inv_new]) simp_all

lemma sample_slave_fields:
  "ssessions sample_slave = [(ip_string [10, 8, 0, 2], 0)]" "sby_addr sample_slave = Map.empty"
  "sheap sample_slave = [\<lparr>cs_id = replicate 16 1, cs_addr = Some \<lparr>uip = [192, 0, 2, 1], uport = 5000\<rparr>,
     cs_tun = [10, 8, 0, 2], cs_aead = Some (sample_aead (session_key [] [10, 8, 0, 2]))\<rparr>]"
  "str sample_slave = CS2" "stoken sample_slave = []"
  "srelay sample_slave = Some (sample_aead (slave_key [] ''a''))"
  "smaster_dp sample_slave = Some \<lparr>uip = [198, 51, 100, 1], uport = 9\<rparr>"
  by (simp_all add: sample_slave_def handle_new_session_def new_slave_def sample_announce_def Let_def
      new_aead_def sample_aead_def)

theorem slave_ignores_probes_witness:
  "\<exists>payload. tr_unwrap CS2 (fst (tr_wrap sample_env CS2 PktTypePing ([10, 8, 0, 2] @ replicate 8 3))) =
     Some (PktTypePing, payload) \<and> 12 \<le> length payload"
proof -
  let ?f = "fst (tr_wrap sample_env CS2 PktTypePing ([10, 8, 0, 2] @ replicate 8 3))"
  have u: "tr_unwrap (str sample_slave) ?f = Some (PktTypePing, [10, 8, 0, 2] @ replicate 8 3)"
    using tr_unwrap_wrap[of sample_env CS2 PktTypePing] by (simp add: sample_slave_fields del: tr_wrap.simps tr_unwrap.simps)
  have uncut: "take 2048 ?f = ?f"
    by (rule frame_uncut) (simp_all add: numeral_eq_Suc)
  have "fst (punch_read null_cipher sample_env \<lparr>uip = [192, 0, 2, 1], uport = 5000\<rparr> ?f sample_slave) \<noteq> []"
    unfolding punch_read_def uncut u by (simp add: pkt_types sample_slave_fields split: prod.split del: tr_wrap.simps tr_unwrap.simps)
  from slave_ignores_probes[OF this] u uncut show ?thesis
    by (auto simp: sample_slave_fields pkt_types)
qed

text \<open>A punch moves a session: a punch that names the tunnel address of a session makes its source the
  address downlink packets of that session go to, makes data from that source relayed to the master
  under that tunnel address, leaves the keys and the other lookups alone and is not answered. No
  key is needed for it, only the tunnel address.\<close>

theorem punch_moves_session:
  assumes "slave_inv s" and "tr_unwrap (str s) (take 2048 buf) = Some (PktTypePunch, payload)" and "4 \<le> length payload"
    and "map_of (ssessions s) (ip_string (take 4 payload)) = Some p"
    and "s' = snd (punch_read C e src buf s)"
  shows "fst (punch_read C e src buf s) = [] \<and> slave_inv s' \<and> ssessions s' = ssessions s
    \<and> sby_addr s' = (sby_addr s)(udp_string src \<mapsto> p)
    \<and> (\<exists>a. cs_addr (sheap s' ! p) = Some a \<and> udp_string a = udp_string src)
    \<and> cs_aead (sheap s' ! p) = cs_aead (sheap s ! p) \<and> cs_tun (sheap s' ! p) = cs_tun (sheap s ! p)
    \<and> (\<forall>q. q \<noteq> p \<longrightarrow> sheap s' ! q = sheap s ! q)"
  by (rule punch_all[OF assms])

theorem punch_moves_session_witness:
  "sby_addr (snd (punch_read null_cipher sample_env \<lparr>uip = [203, 0, 113, 5], uport = 6\<rparr>
      (fst (tr_wrap sample_env CS2 PktTypePunch [10, 8, 0, 2])) sample_slave))
    (udp_string \<lparr>uip = [203, 0, 113, 5], uport = 6\<rparr>) = Some 0"
proof -
  have u: "tr_unwrap (str sample_slave) (take 2048 (fst (tr_wrap sample_env CS2 PktTypePunch [10, 8, 0, 2]))) =
      Some (PktTypePunch, [10, 8, 0, 2])"
    using tr_unwrap_wrap[of sample_env CS2 PktTypePunch] frame_uncut[of sample_env CS2 "[10, 8, 0, 2]" PktTypePunch]
    by (simp add: sample_slave_fields del: tr_wrap.simps tr_unwrap.simps)
  have m: "map_of (ssessions sample_slave) (ip_string (take 4 [10, 8, 0, 2])) = Some 0"
    by (simp add: sample_slave_fields)
  show ?thesis
    using punch_moves_session[OF sample_slave_inv u _ m refl] by simp
qed

text \<open>The end of a session: a session-end message for an id removes exactly the session with that id,
  in whatever order the map is visited, so its downlink is dropped from then on. The address entry
  of a client that punched stays: data from that address is relayed to the master as before.\<close>

theorem session_end_removes_exactly:
  assumes "ids_distinct s" and "distinct (map fst (ssessions s))" and "set order = set (ssessions s)"
    and "16 \<le> length payload" and "s' = handle_session_end order payload s"
  shows "map_of (ssessions s') k =
    (case map_of (ssessions s) k of
       Some p \<Rightarrow> if cs_id (sheap s ! p) = take 16 payload then None else Some p | None \<Rightarrow> None)
    \<and> sby_addr s' = sby_addr s \<and> relay_to_master C t ct s' =
        (case relay_to_master C t ct s of (outs, u) \<Rightarrow> (outs, s'\<lparr>srelay := srelay u\<rparr>))"
  using session_end_exact[OF assms(1-4)] session_end_keeps_relay session_end_relays
  unfolding assms(5) by blast

theorem session_end_removes_exactly_witness:
  "map_of (ssessions (handle_session_end (ssessions sample_slave) (replicate 16 1) sample_slave))
     (ip_string [10, 8, 0, 2]) = None"
  using session_end_removes_exactly[of sample_slave "ssessions sample_slave" "replicate 16 1" _ "ip_string [10, 8, 0, 2]",
      OF _ _ _ _ refl]
  by (simp add: sample_slave_fields ids_distinct_def)

text \<open>The reconnection delay: the wait after the n-th failure of the control connection doubles from one
  second and never exceeds 32 seconds.\<close>

theorem reconnection_delay:
  "backoff n = min 32 (2 ^ n) \<and> backoff n \<le> backoff (Suc n)"
  by (simp add: backoff_eq min_def)

end
