(* ===== verification/EndToEnd.thy ===== *)
theory EndToEnd
  imports MasterTheorems Slave
begin

text \<open>
  The two directions of the data path across the components: client, slave and master for the
  uplink of the symmetric mode, master, slave and client for the downlink.
\<close>

section \<open>Uplink\<close>

text \<open>
  A slave is the one a master registered: the master knows the address its relay sends from and
  holds a cipher of the same key.
\<close>

definition relay_known :: "slave_server \<Rightarrow> udpaddr \<Rightarrow> mworld \<Rightarrow> bool" where
  "relay_known s from w \<longleftrightarrow> (\<exists>ra k b. srelay s = Some ra \<and> wf_aead ra \<and> a_counter ra \<le> 0xFFFFFFFF
     \<and> dby_addr (dp w) (udp_string from) = Some k \<and> sd_aead (dconns (dp w) ! k) = Some b \<and> a_key b = a_key ra)"

lemma relay_frame:
  assumes C: "cipher_ok C" and k: "relay_known s from w" and dst: "smaster_dp s = Some dst"
    and t: "to4 tip = Some tip'" and len: "length ct \<le> 65500"
  obtains g s' where "relay_to_master C tip ct s = ([ToMaster dst g], s')"
    "master_dp_read C from g (dp w) = Relayed tip' ct"
proof -
  obtain ra k b where ra: "srelay s = Some ra" "wf_aead ra" "a_counter ra \<le> 0xFFFFFFFF"
      and b: "dby_addr (dp w) (udp_string from) = Some k" "sd_aead (dconns (dp w) ! k) = Some b" "a_key b = a_key ra"
    using k unfolding relay_known_def by blast
  obtain g a' where g: "build_uplink_frame C ra tip ct = (Inr g, a')"
    using ra(3) by (auto simp: build_uplink_frame_def aead_seal_def aead_nonce_def Let_def not_less)
  show thesis
  proof (rule that)
    show "relay_to_master C tip ct s = ([ToMaster dst g], s\<lparr>srelay := Some a'\<rparr>)"
      by (simp add: relay_to_master_def ra(1) dst g)
    show "master_dp_read C from g (dp w) = Relayed tip' ct"
      using build_uplink_relayed[OF C ra(2) g len b(1,2,3)] t by (simp add: put_ip4_v4)
  qed
qed

lemma handle_uplink_delivers:
  assumes C: "cipher_ok (mc_cipher cfg)" and inv: "master_inv token all m" and good: "good_pool all"
    and up: "uplinks_ok token m" and p: "live m p" and rnd: "rnd = Some r"
    and ca: "wf_aead ca" "a_key ca = session_key token (s_tun (heap m ! p))"
    and seal: "aead_seal (mc_cipher cfg) ca pkt = (Inr ct, ca')"
    and src: "src_matches_tunnel pkt (s_tun (heap m ! p))"
  shows "events (world (handle_uplink cfg rnd now (s_tun (heap m ! p)) ct m)) = events (world m) @ [Inject pkt]"
proof -
  let ?t = "s_tun (heap m ! p)"
  have f: "find_tun (ip_string ?t) m = Some p"
    using master_invD(6)[OF inv] p by (simp add: tun_complete_def)
  have len: "length ?t = 4"
    by (rule live_v4[OF inv good p])
  let ?m1 = "touch now p m"
  have key: "s_key (heap ?m1 ! p) = session_key token ?t"
    using sess_key_at[OF master_invD(3)[OF inv], of p] p by (simp add: touch_def live_def)
  obtain a where a: "(case uplinks (world m) (ip_string ?t) of Some a \<Rightarrow> Some a
      | None \<Rightarrow> new_aead (s_key (heap ?m1 ! p)) rnd) = Some a"
    using rnd by (cases "uplinks (world m) (ip_string ?t)") (simp_all add: new_aead_def)
  have ak: "a_key a = a_key ca"
    using a up len key ca(2) by (auto simp: uplinks_ok_def new_aead_def split: option.splits)
  have "aead_open (mc_cipher cfg) a ct = Inr pkt"
    by (rule aead_open_seal(1)[OF C ca(1) ak seal])
  with f a src show ?thesis
    by (simp add: handle_uplink_def Let_def deliver_def emit_def bump_def)
qed

lemma uplink_path:
  assumes C: "cipher_ok (mc_cipher cfg)" and inv: "master_inv token all m" and good: "good_pool all"
    and up: "uplinks_ok token m" and p: "live m p"
    and known: "relay_known s from (world m)" and dst: "smaster_dp s = Some dst"
    and punched: "sby_addr s (udp_string src) = Some q" and tun: "cs_tun (sheap s ! q) = s_tun (heap m ! p)"
    and tr: "wf_env e" "wf_transport tr" "same_kind tr (str s)"
    and ca: "wf_aead ca" "a_key ca = session_key token (s_tun (heap m ! p))"
    and seal: "aead_seal (mc_cipher cfg) ca pkt = (Inr ct, ca')" and len: "length pkt \<le> 1900"
    and own: "src_matches_tunnel pkt (s_tun (heap m ! p))"
  shows "\<exists>g s' m'. punch_read (mc_cipher cfg) e' src (fst (tr_wrap e tr PktTypeData ct)) s = ([ToMaster dst g], s')
    \<and> dp_read_step cfg (Some r) now from g m = Some m' \<and> events (world m') = events (world m) @ [Inject pkt]"
proof -
  let ?t = "s_tun (heap m ! p)"
  have t: "to4 ?t = Some ?t"
    using live_v4[OF inv good p] by simp
  have short: "length ct \<le> 2000"
    using aead_open_seal(2)[OF C ca(1) refl seal] len by simp
  then have "length ct \<le> 65500" by simp
  from relay_frame[OF C known dst t this]
  obtain g s' where g: "relay_to_master (mc_cipher cfg) ?t ct s = ([ToMaster dst g], s')"
    "master_dp_read (mc_cipher cfg) from g (dp (world m)) = Relayed ?t ct"
    by blast
  have "tr_unwrap (str s) (fst (tr_wrap e tr PktTypeData ct)) = Some (PktTypeData, ct)"
    using tr_demux_eq[OF tr(1,2)] tr(3) by simp
  then have "punch_read (mc_cipher cfg) e' src (fst (tr_wrap e tr PktTypeData ct)) s = ([ToMaster dst g], s')"
    using punched tun g(1) frame_uncut[OF tr(1,2) short, of PktTypeData] by (simp add: punch_read_def)
  moreover have "dp_read_step cfg (Some r) now from g m = Some (handle_uplink cfg (Some r) now ?t ct m)"
    by (simp add: dp_read_step_def g(2))
  ultimately show ?thesis
    using handle_uplink_delivers[OF C inv good up p refl ca seal own] by blast
qed

section \<open>Downlink\<close>

lemma downlink_path:
  assumes C: "cipher_ok (mc_cipher cfg)" and inv: "master_inv token all m" and p: "live m p"
    and pkt: "20 \<le> length pkt" "length pkt \<le> 65000" "drop_bit 4 (pkt ! 0) = 4" "slice 16 20 pkt = s_tun (heap m ! p)"
    and dps: "dp_inv (dp (world m))" "dslaves (dp (world m)) (s_slave (heap m ! p)) = Some k"
      "sd_aead (dconns (dp (world m)) ! k) = Some a" "a_counter a \<le> 0xFFFFFFFF"
    and da: "a_key da = slave_key (dkey (dp (world m))) (s_slave (heap m ! p))"
    and s: "slave_inv s" "stoken s = token" "map_of (ssessions s) (ip_string (s_tun (heap m ! p))) = Some q"
      "cs_tun (sheap s ! q) = s_tun (heap m ! p)" "cs_aead (sheap s ! q) = Some b" "a_counter b \<le> 0xFFFFFFFF"
      "cs_addr (sheap s ! q) = Some dst"
    and e: "wf_env e" and tr: "same_kind (str s) tr" and ca: "a_key ca = session_key token (s_tun (heap m ! p))"
  shows "\<exists>g m' f ct s'. ns_output cfg pkt m = Some (Some (SentTo (sd_addr (dconns (dp (world m)) ! k)) g), m')
    \<and> data_plane_read (mc_cipher cfg) da e g s = ([ToClient dst f], s')
    \<and> tr_unwrap tr f = Some (PktTypeData, ct) \<and> aead_open (mc_cipher cfg) ca ct = Inr pkt"
proof -
  let ?i = "s_slave (heap m ! p)"
  have f: "find_tun (ip_string (slice 16 20 pkt)) m = Some p"
    using master_invD(6)[OF inv] p pkt(4) by (simp add: tun_complete_def)
  have "k < length (dconns (dp (world m)))"
    using dps(1,2) unfolding dp_inv_def by blast
  then have wf: "wf_aead a"
    using dps(1,3) by (auto simp: dp_inv_def list_all_length conn_ok_def split: option.splits)
  obtain ct0 a' where seal: "aead_seal (mc_cipher cfg) a pkt = (Inr ct0, a')"
    using dps(4) by (auto simp: aead_seal_def aead_nonce_def Let_def not_less)
  obtain d where sent: "send_to_slave (mc_cipher cfg) ?i pkt (dp (world m)) =
      (SentTo (sd_addr (dconns (dp (world m)) ! k)) (dp_frame MsgTypeData ct0), d)"
    by (simp add: send_to_slave_def dps(2,3) seal Let_def)
  have read: "slave_dp_read (mc_cipher cfg) da (dp_frame MsgTypeData ct0) = SPacket pkt"
    using send_to_slave_inv[OF C dps(1) da sent] pkt(2) by simp
  have "length (dp_frame MsgTypeData ct0) \<le> 65535"
    using aead_open_seal(2)[OF C wf refl seal] pkt(2) by (simp add: dp_frame_def)
  note slave = data_plane_read_frame[OF read this, of e s]
  have q: "map_of (ssessions s) (ip_string (slice 16 20 pkt)) = Some q"
    using s(3) pkt(4) by simp
  have ca': "a_key ca = session_key (stoken s) (cs_tun (sheap s ! q))"
    using ca s(2,4) by simp
  obtain g ct where "fst (send_to_client (mc_cipher cfg) e pkt s) = [ToClient dst g]"
    "tr_unwrap tr g = Some (PktTypeData, ct)" "aead_open (mc_cipher cfg) ca ct = Inr pkt"
    by (rule send_to_client_effect[OF C s(1) e pkt(1) q s(5,6,7) ca' tr])
  then show ?thesis
    using ns_output_owner[OF pkt(1,3) f sent] slave
    by (cases "send_to_client (mc_cipher cfg) e pkt s") auto
qed

section \<open>A concrete client and slave\<close>

definition path_relay_key :: bytes where
  "path_relay_key = slave_key (derive_key [] (str_bytes ''master-data-plane'')) ''a''"

definition path_client :: udpaddr where
  "path_client = \<lparr>uip = [192, 0, 2, 1], uport = 5000\<rparr>"

definition path_slave :: slave_server where
  "path_slave = sample_slave\<lparr>srelay := Some (sample_aead path_relay_key), sby_addr := [udp_string path_client \<mapsto> 0]\<rparr>"

definition path_packet :: bytes where
  "path_packet = 0x45 # replicate 11 0 @ [10, 8, 0, 2, 10, 8, 0, 2]"

lemma path_slave_fields:
  "srelay path_slave = Some (sample_aead path_relay_key)" "sby_addr path_slave (udp_string path_client) = Some 0"
  "sheap path_slave = sheap sample_slave" "ssessions path_slave = ssessions sample_slave"
  "str path_slave = CS2" "stoken path_slave = []" "smaster_dp path_slave = Some \<lparr>uip = [198, 51, 100, 1], uport = 9\<rparr>"
  by (simp_all add: path_slave_def sample_slave_fields)

lemma path_slave_inv: "slave_inv path_slave"
  using sample_slave_inv by (simp add: slave_inv_def path_slave_def ptrs_ok_def sample_slave_fields)

lemma path_packet_facts:
  "length path_packet = 20" "drop_bit 4 (path_packet ! 0) = 4" "slice 16 20 path_packet = [10, 8, 0, 2]"
  "src_matches_tunnel path_packet [10, 8, 0, 2]"
  by (simp_all add: path_packet_def slice_def src_matches_tunnel_def)

lemma path_aead: "wf_aead (sample_aead k)" "a_key (sample_aead k) = k" "a_counter (sample_aead k) = 0"
  by (simp_all add: sample_aead_def wf_aead_def)

lemma path_seal: "aead_seal null_cipher (sample_aead k) x =
    (Inr (replicate 8 0 @ [0, 0, 0, 0] @ x @ replicate 16 0), (sample_aead k)\<lparr>a_counter := 1\<rparr>)"
  by (simp add: aead_seal_def aead_nonce_def sample_aead_def Let_def put32_def)

lemma sample_dp_up:
  "dslaves (dp (world sample_up)) ''a'' = Some 0" "dby_addr (dp (world sample_up)) (udp_string sample_addr) = Some 0"
  "sd_aead (dconns (dp (world sample_up)) ! 0) = Some (sample_aead path_relay_key)"
  "sd_addr (dconns (dp (world sample_up)) ! 0) = sample_addr"
  "slave_key (dkey (dp (world sample_up))) ''a'' = path_relay_key"
proof -
  have r: "routable_addr ''192.0.2.9:7'' h = [] \<longleftrightarrow> False" for h
    by (auto simp: routable_addr_def join_host_port_def split: option.splits prod.splits)
  have "dp (world sample_up) = register_slave (Some (replicate 8 0)) ''a'' sample_addr
      (new_dataplane (derive_key [] (str_bytes ''master-data-plane'')))"
    using r by (simp add: sample_up_def master_slave_hello_def slave_hello_def sample_info_def sample_new_def
        new_master_def new_table_def new_registry_def register_def Let_def on_slave_register_def)
  then show "dslaves (dp (world sample_up)) ''a'' = Some 0"
    "dby_addr (dp (world sample_up)) (udp_string sample_addr) = Some 0"
    "sd_aead (dconns (dp (world sample_up)) ! 0) = Some (sample_aead path_relay_key)"
    "sd_addr (dconns (dp (world sample_up)) ! 0) = sample_addr"
    "slave_key (dkey (dp (world sample_up))) ''a'' = path_relay_key"
    by (simp_all add: register_slave_def new_dataplane_def Let_def path_relay_key_def new_aead_def sample_aead_def)
qed

lemma sample_dp_up_inv: "dp_inv (dp (world sample_up))"
proof -
  have "slaves_inv (world sample_new)"
    unfolding sample_new_def by (rule slaves_inv_new)
  then have "slaves_inv (world sample_up)"
    unfolding sample_up_def by (rule slaves_inv_hello) simp
  then show ?thesis by (simp add: slaves_inv_def)
qed

lemma sample_uplinks: "(mstep sample_cfg)\<^sup>*\<^sup>* (new_master (mc_token sample_cfg) sample_pool) m \<Longrightarrow>
    uplinks_ok [] m \<and> master_inv [] (pool_free sample_pool) m"
  using msteps_safe[of sample_cfg "new_master (mc_token sample_cfg) sample_pool" m]
    msteps_inv[of sample_cfg "new_master (mc_token sample_cfg) sample_pool" m]
    master_inv_new[OF sample_pool_ok(1), of "[]"] sample_pool_ok(2)
  by (auto simp: uplinks_ok_def new_master_def new_table_def only_authentic_def)

lemma path_frame_delivered:
  assumes "dp (world m) = dp (world sample_up)"
  shows "relay_known path_slave sample_addr (world m)"
  using assms by (auto simp: relay_known_def path_slave_fields path_aead sample_dp_up)

section \<open>Properties\<close>

text \<open>C3. Uplink from end to end: a packet of at most 1900 bytes (the adapter is read with 1500, the slave reads
  frames of 2048) with a client's tunnel address as its source, sealed by the
  client under its session key, framed by its carrier and sent to a slave it has punched, leaves the
  slave as one datagram to the master, from which the master injects exactly that packet into its
  network stack.\<close>

theorem uplink_end_to_end:
  assumes "cipher_ok (mc_cipher cfg)" and "master_inv token all m" and "good_pool all"
    and "uplinks_ok token m" and "live m p"
    and "relay_known s from (world m)" and "smaster_dp s = Some dst"
    and "sby_addr s (udp_string src) = Some q" and "cs_tun (sheap s ! q) = s_tun (heap m ! p)"
    and "wf_env e" and "wf_transport tr" and "same_kind tr (str s)"
    and "wf_aead ca" and "a_key ca = session_key token (s_tun (heap m ! p))"
    and "aead_seal (mc_cipher cfg) ca pkt = (Inr ct, ca')" and "length pkt \<le> 1900"
    and "src_matches_tunnel pkt (s_tun (heap m ! p))"
  shows "\<exists>g s' m'. punch_read (mc_cipher cfg) e' src (fst (tr_wrap e tr PktTypeData ct)) s = ([ToMaster dst g], s')
    \<and> dp_read_step cfg (Some r) now from g m = Some m' \<and> events (world m') = events (world m) @ [Inject pkt]"
  by (rule uplink_path[OF assms])

theorem uplink_end_to_end_witness:
  "\<exists>g m'. (mstep sample_cfg)\<^sup>*\<^sup>* (new_master (mc_token sample_cfg) sample_pool) m'
     \<and> fst (punch_read null_cipher sample_env path_client (fst (tr_wrap sample_env CS2 PktTypeData
         (replicate 8 0 @ [0, 0, 0, 0] @ path_packet @ replicate 16 0))) path_slave) = [g]
     \<and> Inject path_packet \<in> set (events (world m'))"
proof -
  obtain tr' m where m: "(mstep sample_cfg)\<^sup>*\<^sup>* (new_master (mc_token sample_cfg) sample_pool) m" "live m 0"
    "s_tun (heap m ! 0) = [10, 8, 0, 2]" "dp (world m) = dp (world sample_up)"
    by (rule sample_session)
  have inv: "uplinks_ok [] m" "master_inv [] (pool_free sample_pool) m"
    using sample_uplinks[OF m(1)] by simp_all
  have seal: "aead_seal (mc_cipher sample_cfg) (sample_aead (session_key [] [10, 8, 0, 2])) path_packet =
      (Inr (replicate 8 0 @ [0, 0, 0, 0] @ path_packet @ replicate 16 0),
       (sample_aead (session_key [] [10, 8, 0, 2]))\<lparr>a_counter := 1\<rparr>)"
    by (simp add: path_seal)
  have punched: "smaster_dp path_slave = Some \<lparr>uip = [198, 51, 100, 1], uport = 9\<rparr>"
    "sby_addr path_slave (udp_string path_client) = Some 0"
    "cs_tun (sheap path_slave ! 0) = s_tun (heap m ! 0)" "same_kind CS2 (str path_slave)"
    by (simp_all add: path_slave_fields sample_slave_fields m(3) same_kind_def)
  obtain g s' m' where g: "punch_read null_cipher sample_env path_client (fst (tr_wrap sample_env CS2 PktTypeData
         (replicate 8 0 @ [0, 0, 0, 0] @ path_packet @ replicate 16 0))) path_slave =
        ([ToMaster \<lparr>uip = [198, 51, 100, 1], uport = 9\<rparr> g], s')"
      and m': "dp_read_step sample_cfg (Some (replicate 8 0)) 0 sample_addr g m = Some m'"
        "events (world m') = events (world m) @ [Inject path_packet]"
    using uplink_end_to_end[OF _ inv(2) sample_pool_ok(2) inv(1) m(2) path_frame_delivered[OF m(4)] punched(1-3) _ _ punched(4)
        path_aead(1) _ seal, of sample_env sample_env "replicate 8 0" 0]
    by (auto simp: null_cipher_ok path_aead m(3) path_packet_facts)
  have "(mstep sample_cfg)\<^sup>*\<^sup>* (new_master (mc_token sample_cfg) sample_pool) m'"
    by (rule rtranclp.rtrancl_into_rtrancl[OF m(1) mstep.relay[OF m'(1)]])
  with g m'(2) show ?thesis by auto
qed

theorem injected_packets_authentic_witness:
  "\<exists>m x. (mstep sample_cfg)\<^sup>*\<^sup>* (new_master (mc_token sample_cfg) sample_pool) m
     \<and> Inject path_packet \<in> set (events (world m)) \<and> to4 (s_tun (heap m ! x)) = Some (slice 12 16 path_packet)"
proof -
  obtain tr' m where m: "(mstep sample_cfg)\<^sup>*\<^sup>* (new_master (mc_token sample_cfg) sample_pool) m" "live m 0"
    "s_tun (heap m ! 0) = [10, 8, 0, 2]"
    by (rule sample_session)
  let ?k = "session_key [] [10, 8, 0, 2]"
  let ?ct = "replicate 8 0 @ [0, 0, 0, 0] @ path_packet @ replicate 16 0"
  let ?m' = "handle_uplink sample_cfg (Some (replicate 8 0)) 0 [10, 8, 0, 2] ?ct m"
  have inv: "uplinks_ok [] m" "master_inv [] (pool_free sample_pool) m"
    using sample_uplinks[OF m(1)] by simp_all
  have "events (world ?m') = events (world m) @ [Inject path_packet]"
    using handle_uplink_delivers[of sample_cfg "[]" _ m 0 _ "replicate 8 0" "sample_aead ?k" path_packet ?ct,
        OF _ inv(2) sample_pool_ok(2) inv(1) m(2) refl]
    by (simp add: null_cipher_ok path_aead path_seal path_packet_facts m(3))
  then have i: "Inject path_packet \<in> set (events (world ?m'))" by simp
  have run: "(mstep sample_cfg)\<^sup>*\<^sup>* (new_master (mc_token sample_cfg) sample_pool) ?m'"
    by (rule rtranclp.rtrancl_into_rtrancl[OF m(1) mstep.relayed]) simp
  show ?thesis
    using injected_packets_authentic[OF sample_pool_ok run i] run i by blast
qed

end
