(* ===== verification/Client.thy ===== *)
theory Client
  imports Protocol Transport Crypto
begin

text \<open>
  The client engine, \<open>client-windows/vpncore\<close>: its state, the handshake, the choice of carrier and
  port, what bringing the tunnel up and down does to the state and asks of the system, the uplink
  and downlink loops and the choice of the nearest slave. System calls are actions with an oracle
  that says which succeed; name resolution, randomness, clocks and the peer's replies are
  arguments.
\<close>

section \<open>State\<close>

datatype client_state = StateDisconnected | StateConnecting | StateConnected | StateError

fun state_string :: "client_state \<Rightarrow> string" where
  "state_string StateDisconnected = ''Disconnected''"
| "state_string StateConnecting = ''Connecting...''"
| "state_string StateConnected = ''Connected''"
| "state_string StateError = ''Error''"

datatype os_action =
    DialData udpaddr | CloseControl | OpenTun | Configure ip | SetDNS ip | LockDNS ip | FlushDNS
  | Exclude ip "ip option" string | Unexclude ip | RouteAdd string string | RouteDelete string | AddRoute string | DelRoute string
  | HostRoute ip ip | DelHost ip | DefaultRoute ip | BlockIPv6 | UnblockIPv6 | RestoreDNS | UnlockDNS | ListenSlave | CloseMaster | CloseSlave | CloseTun
  | Hook client_state

text \<open>The routes a disconnect has to undo: the closure \<open>setupRouting\<close> returns, as data.\<close>

datatype cleanup = CleanNothing | CleanOther bool "ip list" | CleanWindows "string list"

record engine =
  c_state :: client_state
  c_stop :: "nat option"
  c_closed :: "nat set"
  c_chans :: nat
  c_master :: "udpaddr option"
  c_slave_open :: bool
  c_tun :: bool
  c_aead :: "aead option"
  c_slave_aead :: "aead option"
  c_tun_ip :: ip
  c_slave_addr :: "udpaddr option"
  c_up :: u64
  c_down :: u64
  c_token :: bytes
  c_tr :: transport
  c_cleanup :: "cleanup option"
  c_full :: bool
  c_secure :: bool
  c_transport :: string
  c_ports :: "int list"
  c_quic :: bool
  c_active :: string
  c_last_good :: string
  c_rtt :: int
  c_pongs :: "bytes list option"

definition new_engine :: engine where
  "new_engine = \<lparr>c_state = StateDisconnected, c_stop = None, c_closed = {}, c_chans = 0, c_master = None,
     c_slave_open = False, c_tun = False, c_aead = None, c_slave_aead = None, c_tun_ip = [],
     c_slave_addr = None, c_up = 0, c_down = 0, c_token = [], c_tr = CS2, c_cleanup = None, c_full = True,
     c_secure = True, c_transport = [], c_ports = [], c_quic = False, c_active = [], c_last_good = [],
     c_rtt = 0, c_pongs = None\<rparr>"

definition stats_reset :: "engine \<Rightarrow> engine" where
  "stats_reset e = e\<lparr>c_up := 0, c_down := 0\<rparr>"

definition active_transport :: "engine \<Rightarrow> string" where
  "active_transport e = (if c_state e = StateConnected then c_active e else [])"

definition tunnel_ip :: "engine \<Rightarrow> string" where
  "tunnel_ip e = (if c_tun_ip e = [] then [] else ip_string (c_tun_ip e))"

definition slave_ip :: "engine \<Rightarrow> ip" where
  "slave_ip e = (case c_slave_addr e of None \<Rightarrow> [] | Some a \<Rightarrow> uip a)"

definition stopped :: "engine \<Rightarrow> bool" where
  "stopped e \<longleftrightarrow> (case c_stop e of None \<Rightarrow> False | Some ch \<Rightarrow> ch \<in> c_closed e)"

text \<open>\<open>To4\<close> as a payload: nil is no byte.\<close>

definition four_bytes :: "ip \<Rightarrow> bytes" where
  "four_bytes a = (case to4 a of Some b \<Rightarrow> b | None \<Rightarrow> [])"

section \<open>Sending uplink\<close>

datatype uplink = SlaveNotReady | MasterNotReady | ToSlave udpaddr bytes | ToMasterAddr udpaddr bytes

definition send_uplink :: "bytes \<Rightarrow> engine \<Rightarrow> uplink" where
  "send_uplink frame e =
     (if c_quic e then
        (case c_slave_addr e of
           Some a \<Rightarrow> if c_slave_open e then ToSlave a frame else SlaveNotReady
         | None \<Rightarrow> SlaveNotReady)
      else case c_master e of None \<Rightarrow> MasterNotReady | Some a \<Rightarrow> ToMasterAddr a frame)"

definition uplink_ok :: "uplink \<Rightarrow> bool" where
  "uplink_ok u = (case u of SlaveNotReady \<Rightarrow> False | MasterNotReady \<Rightarrow> False | _ \<Rightarrow> True)"

section \<open>Connect and disconnect\<close>

datatype connect_error = AlreadyConnected | InvalidToken

definition connect :: "(string \<Rightarrow> bytes option) \<Rightarrow> string \<Rightarrow> engine \<Rightarrow> connect_error option \<times> engine" where
  "connect decode auth_token e =
     (if c_state e = StateConnecting \<or> c_state e = StateConnected then (Some AlreadyConnected, e)
      else case decode auth_token of
        None \<Rightarrow> (Some InvalidToken, e)
      | Some tok \<Rightarrow>
          (None, e\<lparr>c_token := tok, c_state := StateConnecting, c_stop := Some (c_chans e),
                   c_chans := c_chans e + 1\<rparr>))"

definition split_halves :: "string list" where
  "split_halves = [''0.0.0.0/1'', ''128.0.0.0/1'']"

text \<open>\<open>SetSplitDefaultRoute\<close> stops at the first route that fails.\<close>

fun add_routes :: "(os_action \<Rightarrow> bool) \<Rightarrow> string list \<Rightarrow> os_action list" where
  "add_routes ok [] = []"
| "add_routes ok (p # ps) = AddRoute p # (if ok (AddRoute p) then add_routes ok ps else [])"

definition set_split_default_route :: "(os_action \<Rightarrow> bool) \<Rightarrow> engine \<Rightarrow> os_action list" where
  "set_split_default_route ok e = (if c_tun e then add_routes ok split_halves else [])"

definition clear_split_default_route :: "engine \<Rightarrow> os_action list" where
  "clear_split_default_route e = (if c_tun e then map DelRoute split_halves else [])"

text \<open>The routes a caller may add by itself; \<open>None\<close> is the error that there is no adapter.\<close>

definition tun_gateway :: ip where "tun_gateway = [10, 8, 0, 1]"

definition add_host_route :: "ip \<Rightarrow> engine \<Rightarrow> os_action list option" where
  "add_host_route a e = (if c_tun e then Some [HostRoute a tun_gateway] else None)"

definition del_host_route :: "ip \<Rightarrow> engine \<Rightarrow> os_action list" where
  "del_host_route a e = (if c_tun e then [DelHost a] else [])"

definition set_default_route :: "engine \<Rightarrow> os_action list option" where
  "set_default_route e = (if c_tun e then Some [DefaultRoute tun_gateway] else None)"

text \<open>
  The default gateway. On Linux it is read from what \<open>ip route show default\<close> prints, on Windows
  from one line of PowerShell; \<open>None\<close> is a command that failed. The tools print ASCII, so the
  white space of \<open>strings.Fields\<close> and \<open>strings.TrimSpace\<close> is the six ASCII characters.
\<close>

definition is_space :: "char \<Rightarrow> bool" where
  "is_space c \<longleftrightarrow> c = CHR '' '' \<or> of_char c \<in> {9 :: nat..13}"

fun fields_from :: "string \<Rightarrow> string \<Rightarrow> string list" where
  "fields_from acc [] = (if acc = [] then [] else [acc])"
| "fields_from acc (c # cs) =
     (if is_space c then (if acc = [] then [] else [acc]) @ fields_from [] cs
      else fields_from (acc @ [c]) cs)"

definition go_fields :: "string \<Rightarrow> string list" where
  "go_fields s = fields_from [] s"

fun gateway_scan :: "string list \<Rightarrow> ip option \<times> string \<Rightarrow> ip option \<times> string" where
  "gateway_scan (a # b # fs) (gw, iface) =
     gateway_scan (b # fs)
       (if a = ''via'' then (parse_ip b, iface) else if a = ''dev'' then (gw, b) else (gw, iface))"
| "gateway_scan _ r = r"

definition default_gateway_linux :: "string option \<Rightarrow> ip option \<times> string" where
  "default_gateway_linux out =
     (case out of None \<Rightarrow> (None, []) | Some s \<Rightarrow> gateway_scan (go_fields s) (None, []))"

definition default_gateway :: "string option \<Rightarrow> string" where
  "default_gateway out =
     (case out of None \<Rightarrow> [] | Some s \<Rightarrow> rev (dropWhile is_space (rev (dropWhile is_space s))))"

text \<open>
  \<open>setupRouting\<close> of the two platforms, with the default route it is given: the next hop and
  interface on Linux, the next hop on Windows, empty when it is not known.
  A nil address is the empty list; \<open>net.IP(nil).String()\<close> of a host that is not IPv4 is \<open><nil>\<close>.
\<close>

definition setup_routing_other ::
    "(os_action \<Rightarrow> bool) \<Rightarrow> ip option \<times> string \<Rightarrow> ip list \<Rightarrow> engine \<Rightarrow> os_action list \<times> cleanup" where
  "setup_routing_other ok route ips e =
     (let hosts = (if c_tun e then filter (\<lambda>a. a \<noteq> []) ips else []);
          exclude = (\<lambda>a. Exclude a (fst route) (snd route))
      in (map exclude hosts @ set_split_default_route ok e,
          CleanOther (c_tun e) (filter (\<lambda>a. ok (exclude a)) hosts)))"

definition host4 :: "ip \<Rightarrow> string" where
  "host4 a = (case to4 a of Some b \<Rightarrow> ip_string b | None \<Rightarrow> ''<nil>'')"

definition setup_routing_windows ::
    "(os_action \<Rightarrow> bool) \<Rightarrow> string \<Rightarrow> ip list \<Rightarrow> engine \<Rightarrow> os_action list \<times> cleanup" where
  "setup_routing_windows ok gw ips e =
     (if \<not> c_tun e then ([], CleanNothing)
      else let hosts = (if gw \<noteq> [] then map host4 (filter (\<lambda>a. a \<noteq> []) ips) else []) in
        (map (\<lambda>s. RouteAdd s gw) hosts @ map AddRoute split_halves,
         CleanWindows (filter (\<lambda>s. ok (RouteAdd s gw)) hosts)))"

text \<open>The closure run later, in the engine's state of that moment.\<close>

definition run_cleanup :: "cleanup \<Rightarrow> engine \<Rightarrow> os_action list" where
  "run_cleanup c e =
     (case c of
        CleanNothing \<Rightarrow> []
      | CleanOther dev excluded \<Rightarrow> clear_split_default_route e @ (if dev then map Unexclude excluded else [])
      | CleanWindows excluded \<Rightarrow> map DelRoute split_halves @ map RouteDelete excluded)"

definition disconnect :: "engine \<Rightarrow> os_action list \<times> engine" where
  "disconnect e =
     (let closed = (case c_stop e of None \<Rightarrow> c_closed e | Some ch \<Rightarrow> insert ch (c_closed e));
          e1 = e\<lparr>c_closed := closed, c_cleanup := None, c_master := None, c_slave_open := False, c_tun := False,
                 c_pongs := None, c_rtt := - 1, c_state := StateDisconnected\<rparr>
      in ((case c_cleanup e of None \<Rightarrow> [] | Some c \<Rightarrow> run_cleanup c e1)
          @ (if c_tun e then [RestoreDNS, UnlockDNS, UnblockIPv6] else [])
          @ (if c_master e = None then [] else [CloseMaster])
          @ (if c_slave_open e then [CloseSlave] else [])
          @ (if c_tun e then [CloseTun] else [])
          @ [Hook StateDisconnected], e1))"

section \<open>Carriers and ports\<close>

definition carrier_control_port :: "string \<Rightarrow> int" where
  "carrier_control_port c =
     (if c = ''cs2'' then 7000 else if c = ''utp'' then 6881 else if c = ''webrtc'' then 3478
      else if c = ''quic'' then 443 else 0)"

definition handshake_port :: "string \<Rightarrow> int \<Rightarrow> int" where
  "handshake_port car port =
     (if port = 0
      then (if carrier_control_port car = 0 then carrier_control_port ''cs2'' else carrier_control_port car)
      else port)"

definition auto_carrier_order :: "string list" where
  "auto_carrier_order = [''utp'', ''webrtc'', ''quic'']"

definition auto_order :: "string \<Rightarrow> string list" where
  "auto_order last_good =
     (if last_good \<noteq> [] then [last_good] else []) @ filter (\<lambda>c. c \<noteq> last_good) auto_carrier_order"

section \<open>The handshake\<close>

datatype dial_error = BadTransport string | Unresolved | DialFailed | NoNonce | SendFailed | NoReply
  | BadFrame | NotWelcome byte | BadWelcome perr

record dial_env =
  de_seed :: bytes
  de_resolve :: "string \<Rightarrow> udpaddr option"
  de_dial_ok :: bool
  de_nonce :: "bytes option"
  de_unix :: u64
  de_wrap :: wenv
  de_send_ok :: bool
  de_reply :: "bytes option"
  de_rtt :: int

record handshake_result =
  hr_master :: udpaddr
  hr_tr :: transport
  hr_carrier :: string
  hr_welcome :: welcome_msg
  hr_rtt :: int

definition signed_hello :: "bytes \<Rightarrow> u64 \<Rightarrow> bytes \<Rightarrow> hello" where
  "signed_hello token unix nonce =
     (let h = \<lparr>h_version = HelloVersion3, h_timestamp = unix, h_nonce = nonce, h_mac = []\<rparr>
      in h\<lparr>h_mac := hello_mac token (hello_unsigned h)\<rparr>)"

definition read_welcome :: "transport \<Rightarrow> bytes \<Rightarrow> dial_error + welcome_msg" where
  "read_welcome tr buf =
     (case tr_unwrap tr buf of
        None \<Rightarrow> Inl BadFrame
      | Some (t, payload) \<Rightarrow>
          if t \<noteq> PktTypeControl \<or> length payload < 1 \<or> payload ! 0 \<noteq> CtrlWelcome then Inl (NotWelcome t)
          else (case parse_welcome payload of Inl e \<Rightarrow> Inl (BadWelcome e) | Inr w \<Rightarrow> Inr w))"

text \<open>The frame sent, if the dial got that far, and the outcome.\<close>

definition dial_and_handshake ::
    "dial_env \<Rightarrow> string \<Rightarrow> string \<Rightarrow> int \<Rightarrow> engine \<Rightarrow> (udpaddr \<times> bytes) option \<times> (dial_error + handshake_result)" where
  "dial_and_handshake d host car port e =
     (case by_name (de_seed d) car of
        None \<Rightarrow> (None, Inl (BadTransport car))
      | Some tr \<Rightarrow>
          (case de_resolve d (join_host_port host (sprint (handshake_port car port))) of
             None \<Rightarrow> (None, Inl Unresolved)
           | Some addr \<Rightarrow>
               if \<not> de_dial_ok d then (None, Inl DialFailed)
               else case de_nonce d of
                 None \<Rightarrow> (None, Inl NoNonce)
               | Some nonce \<Rightarrow>
                   (let (f, tr1) = tr_wrap (de_wrap d) tr PktTypeHandshake
                          (hello_marshal (signed_hello (c_token e) (de_unix d) nonce)) in
                    if \<not> de_send_ok d then (Some (addr, f), Inl SendFailed)
                    else case de_reply d of
                      None \<Rightarrow> (Some (addr, f), Inl NoReply)
                    | Some buf \<Rightarrow>
                        (Some (addr, f),
                         case read_welcome tr1 buf of
                           Inl err \<Rightarrow> Inl err
                         | Inr w \<Rightarrow> Inr \<lparr>hr_master = addr, hr_tr = tr1, hr_carrier = car,
                                         hr_welcome = w, hr_rtt = de_rtt d\<rparr>))))"

section \<open>The connect loop\<close>

text \<open>\<open>dial c p\<close> is the outcome of one attempt with carrier \<open>c\<close> on port \<open>p\<close>, 0 for the carrier's own.\<close>

fun first_carrier :: "(string \<Rightarrow> int \<Rightarrow> dial_error + handshake_result) \<Rightarrow> string list \<Rightarrow> handshake_result option" where
  "first_carrier dial [] = None"
| "first_carrier dial (c # cs) = (case dial c 0 of Inl _ \<Rightarrow> first_carrier dial cs | Inr r \<Rightarrow> Some r)"

fun first_port ::
    "(string \<Rightarrow> int \<Rightarrow> dial_error + handshake_result) \<Rightarrow> string \<Rightarrow> int list \<Rightarrow> dial_error option
      \<Rightarrow> dial_error option + handshake_result" where
  "first_port dial car [] err = Inl err"
| "first_port dial car (p # ps) err =
     (case dial car p of Inl x \<Rightarrow> first_port dial car ps (Some x) | Inr r \<Rightarrow> Inr r)"

definition master_host :: "string \<Rightarrow> string" where
  "master_host addr = (case split_host_port addr of None \<Rightarrow> addr | Some (h, _) \<Rightarrow> h)"

datatype loop_error = NoCarrier | FixedFailed "dial_error option"

definition choose_handshake ::
    "(string \<Rightarrow> int \<Rightarrow> dial_error + handshake_result) \<Rightarrow> engine \<Rightarrow> (loop_error + handshake_result) \<times> engine" where
  "choose_handshake dial e =
     (if c_transport e = ''auto'' then
        (case first_carrier dial (auto_order (c_last_good e)) of
           None \<Rightarrow> (Inl NoCarrier, e)
         | Some r \<Rightarrow> (Inr r, e\<lparr>c_last_good := hr_carrier r\<rparr>))
      else
        (case first_port dial (c_transport e) (if c_ports e = [] then [0] else c_ports e) None of
           Inl err \<Rightarrow> (Inl (FixedFailed err), e)
         | Inr r \<Rightarrow> (Inr r, e)))"

section \<open>Bringing the tunnel up\<close>

definition slave_endpoint_ips :: "endpoint list \<Rightarrow> ip list" where
  "slave_endpoint_ips slaves = filter (\<lambda>a. a \<noteq> []) (map ep_ip slaves)"

fun dedupe :: "string list \<Rightarrow> ip list \<Rightarrow> ip list" where
  "dedupe seen [] = []"
| "dedupe seen (a # as) =
     (if a = [] then dedupe seen as
      else if ip_string a \<in> set seen then dedupe seen as
      else a # dedupe (ip_string a # seen) as)"

definition dedupe_ips :: "ip list \<Rightarrow> ip list" where
  "dedupe_ips ips = dedupe [] ips"

datatype platform = Windows | OtherOS

record up_env =
  ue_platform :: platform
  ue_ip_route :: "string option"
  ue_next_hop :: "string option"
  ue_ok :: "os_action \<Rightarrow> bool"
  ue_rnd1 :: "bytes option"
  ue_rnd2 :: "bytes option"

datatype up_error = DialDataPort | AeadInit | SlaveAead | SlaveListen

text \<open>The move of the uplink to the session's data port.\<close>

definition hop_to_data_port :: "up_env \<Rightarrow> handshake_result \<Rightarrow> engine \<Rightarrow> (up_error option \<times> os_action list) \<times> engine" where
  "hop_to_data_port u r e =
     (let port = w_data_port (hr_welcome r);
          addr = \<lparr>uip = uip (hr_master r), uport = unat port\<rparr>
      in if c_quic e \<or> port = 0 \<or> port = of_nat (uport (hr_master r)) then ((None, []), e)
         else if \<not> ue_ok u (DialData addr) then ((Some DialDataPort, [DialData addr]), e)
         else ((None, [DialData addr, CloseControl]), e\<lparr>c_master := Some addr\<rparr>))"

definition exclude_ips :: "handshake_result \<Rightarrow> ip list" where
  "exclude_ips r = dedupe_ips ([uip (hr_master r), w_slave_ip (hr_welcome r)] @ slave_endpoint_ips (w_slaves (hr_welcome r)))"

text \<open>Adapter, DNS and routes; without an adapter the tunnel runs bare.\<close>

definition open_adapter :: "up_env \<Rightarrow> handshake_result \<Rightarrow> engine \<Rightarrow> os_action list \<times> engine" where
  "open_adapter u r e =
     (if \<not> ue_ok u OpenTun then ([OpenTun], e)
      else let e1 = e\<lparr>c_tun := True\<rparr>;
               dns = (if c_secure e then [SetDNS tun_gateway, LockDNS tun_gateway, FlushDNS] else []);
               setup = (case ue_platform u of
                  Windows \<Rightarrow> setup_routing_windows (ue_ok u) (default_gateway (ue_next_hop u)) (exclude_ips r) e1
                | OtherOS \<Rightarrow> setup_routing_other (ue_ok u) (default_gateway_linux (ue_ip_route u)) (exclude_ips r) e1)
           in if c_full e
              then ([OpenTun, Configure (w_assigned (hr_welcome r))] @ dns @ fst setup @ [BlockIPv6],
                    e1\<lparr>c_cleanup := Some (snd setup)\<rparr>)
              else ([OpenTun, Configure (w_assigned (hr_welcome r))] @ dns, e1))"

text \<open>
  \<open>bringUp\<close> up to the wait on the stop channel. An error leaves the state it has reached, as the
  code does; the caller then sets the error state.
\<close>

definition bring_up :: "up_env \<Rightarrow> handshake_result \<Rightarrow> engine \<Rightarrow> (up_error option \<times> os_action list) \<times> engine" where
  "bring_up u r e =
     (let w = hr_welcome r;
          e1 = e\<lparr>c_master := Some (hr_master r), c_tr := hr_tr r, c_quic := (hr_carrier r = ''quic''),
                 c_active := tr_name (hr_tr r)\<rparr>;
          key = session_key (c_token e) (w_assigned w)
      in case hop_to_data_port u r e1 of ((err, hop), e2) \<Rightarrow>
         (if err \<noteq> None then ((err, hop), e2)
          else case new_aead key (ue_rnd1 u) of
            None \<Rightarrow> ((Some AeadInit, hop), e2)
          | Some a \<Rightarrow>
              (case new_aead key (ue_rnd2 u) of
                 None \<Rightarrow> ((Some SlaveAead, hop), e2)
               | Some b \<Rightarrow>
                   (let e3 = stats_reset (e2\<lparr>c_tun_ip := w_assigned w,
                          c_slave_addr := Some \<lparr>uip = w_slave_ip w, uport = unat (w_slave_port w)\<rparr>,
                          c_aead := Some a, c_slave_aead := Some b\<rparr>)
                    in case open_adapter u r e3 of (acts, e4) \<Rightarrow>
                       (if \<not> ue_ok u ListenSlave then ((Some SlaveListen, hop @ acts @ [ListenSlave]), e4)
                        else ((None, hop @ acts @ [ListenSlave, Hook StateConnected]),
                              e4\<lparr>c_slave_open := True, c_rtt := - 1, c_pongs := Some [],
                                 c_state := StateConnected\<rparr>))))))"

text \<open>The goroutine of \<open>Connect\<close>: an error of the loop puts the engine in the error state.\<close>

definition connect_goroutine ::
    "up_env \<Rightarrow> (string \<Rightarrow> int \<Rightarrow> dial_error + handshake_result) \<Rightarrow> engine \<Rightarrow> os_action list \<times> engine" where
  "connect_goroutine u dial e =
     (case choose_handshake dial e of
        (Inl _, e1) \<Rightarrow> ([Hook StateError], e1\<lparr>c_state := StateError\<rparr>)
      | (Inr r, e1) \<Rightarrow>
          (case bring_up u r e1 of
             ((None, acts), e2) \<Rightarrow> (acts, e2)
           | ((Some _, acts), e2) \<Rightarrow> (acts @ [Hook StateError], e2\<lparr>c_state := StateError\<rparr>)))"

section \<open>The uplink loop\<close>

text \<open>Which packets of the adapter are sent; the empty packet is an index out of range.\<close>

definition tun_accepts :: "bytes \<Rightarrow> bool option" where
  "tun_accepts pkt =
     (if pkt = [] then None
      else Some (let version = drop_bit 4 (pkt ! 0) in
        if length pkt < 20 \<or> version \<noteq> 4 \<and> version \<noteq> 6 then False
        else if version = 4 then \<not> (pkt ! 16 \<ge> 224 \<or> pkt ! 16 = 0)
        else pkt ! 8 AND 0xF0 \<noteq> 0xE0))"

datatype tun_step = TunPanic | TunSkip | TunStop | TunSent uplink

definition tun_read :: "cipher \<Rightarrow> wenv \<Rightarrow> bytes \<Rightarrow> engine \<Rightarrow> tun_step \<times> engine" where
  "tun_read C env pkt e =
     (case tun_accepts pkt of
        None \<Rightarrow> (TunPanic, e)
      | Some False \<Rightarrow> (TunSkip, e)
      | Some True \<Rightarrow>
          (case c_aead e of
             None \<Rightarrow> (TunSkip, e)
           | Some a \<Rightarrow>
               (case aead_seal C a pkt of
                  (Inl _, a') \<Rightarrow> (TunStop, e\<lparr>c_aead := Some a'\<rparr>)
                | (Inr ct, a') \<Rightarrow>
                    (case tr_wrap env (c_tr e) PktTypeData ct of (f, tr') \<Rightarrow>
                       (let e1 = e\<lparr>c_aead := Some a', c_tr := tr'\<rparr>; s = send_uplink f e1 in
                        if uplink_ok s then (TunSent s, e1\<lparr>c_up := c_up e1 + of_nat (length pkt)\<rparr>)
                        else (TunStop, e1))))))"

text \<open>
  The two timers of a connected engine. Each builds its frame once and sends it again at every
  tick: the keepalive to the uplink of that moment, the punch to the slave the session began with.
\<close>

definition keepalive_frame :: "wenv \<Rightarrow> engine \<Rightarrow> bytes \<times> engine" where
  "keepalive_frame env e = (case tr_wrap env (c_tr e) PktTypeKeepalive [] of (f, tr) \<Rightarrow> (f, e\<lparr>c_tr := tr\<rparr>))"

definition keepalive_tick :: "bytes \<Rightarrow> engine \<Rightarrow> uplink" where
  "keepalive_tick frame e = send_uplink frame e"

definition punch_frame :: "wenv \<Rightarrow> ip \<Rightarrow> engine \<Rightarrow> bytes \<times> engine" where
  "punch_frame env tun e =
     (case tr_wrap env (c_tr e) PktTypePunch (four_bytes tun) of (f, tr) \<Rightarrow> (f, e\<lparr>c_tr := tr\<rparr>))"

definition punch_loop :: "wenv \<Rightarrow> nat \<Rightarrow> ip \<Rightarrow> engine \<Rightarrow> (udpaddr \<times> bytes) list \<times> engine" where
  "punch_loop env ticks tun e =
     (case c_slave_addr e of
        None \<Rightarrow> ([], e)
      | Some a \<Rightarrow> (case punch_frame env tun e of (f, e1) \<Rightarrow> (replicate (3 + ticks) (a, f), e1)))"

section \<open>The downlink loop\<close>

text \<open>The pong channel holds eight; a pong for a full channel is dropped.\<close>

definition push_pong :: "bytes \<Rightarrow> bytes list \<Rightarrow> bytes list" where
  "push_pong p ch = (if length ch < 8 then ch @ [p] else ch)"

text \<open>What is written to the adapter, if anything.\<close>

definition downlink_read :: "cipher \<Rightarrow> bytes \<Rightarrow> engine \<Rightarrow> bytes option \<times> engine" where
  "downlink_read C buf e =
     (case tr_unwrap (c_tr e) buf of
        None \<Rightarrow> (None, e)
      | Some (t, payload) \<Rightarrow>
          if t = PktTypePong then
            (None, e\<lparr>c_pongs := map_option (push_pong payload) (c_pongs e)\<rparr>)
          else
            (case (case c_slave_aead e of None \<Rightarrow> Inr payload | Some a \<Rightarrow> aead_open C a payload) of
               Inl _ \<Rightarrow> (None, e)
             | Inr pkt \<Rightarrow>
                 (if c_tun e then Some pkt else None, e\<lparr>c_down := c_down e + of_nat (length pkt)\<rparr>)))"

section \<open>Probing and choosing a slave\<close>

definition ping_payload :: "ip \<Rightarrow> u64 \<Rightarrow> bytes" where
  "ping_payload tun now = put_ip4 tun @ put64 now"

text \<open>The best time after one more pong, read at clock \<open>now\<close>. Clock differences are 64-bit.\<close>

definition better_rtt :: "bytes \<Rightarrow> u64 \<Rightarrow> int \<Rightarrow> int" where
  "better_rtt p now best =
     (if 12 \<le> length p
      then let rtt = quot (sint (now - get64 (slice 4 12 p))) 1000000
           in if 0 \<le> rtt \<and> (best < 0 \<or> rtt < best) then rtt else best
      else best)"

text \<open>
  A round of \<open>probeAddr\<close>: whether the stop channel is closed before it, the clock of its ping, whether
  the ping is written, the pongs the read loop queues meanwhile, and what the round then waits
  for. A wait for a pong that is not queued ends with the timer.
\<close>

datatype round_end = EndStop | EndTimer | EndPong u64

record round =
  rd_stop :: bool
  rd_env :: wenv
  rd_sent :: u64
  rd_ok :: bool
  rd_pongs :: "bytes list"
  rd_end :: round_end

fun probe_rounds :: "ip \<Rightarrow> round list \<Rightarrow> engine \<Rightarrow> int \<Rightarrow> bytes list \<times> engine \<times> int" where
  "probe_rounds tun [] e best = ([], e, best)"
| "probe_rounds tun (r # rs) e best =
     (if rd_stop r then ([], e, best)
      else case tr_wrap (rd_env r) (c_tr e) PktTypePing (ping_payload tun (rd_sent r)) of (f, tr) \<Rightarrow>
        (let e1 = e\<lparr>c_tr := tr\<rparr> in
         if \<not> rd_ok r then ([], e1, best)
         else let ch = fold push_pong (rd_pongs r) (case c_pongs e of None \<Rightarrow> [] | Some c \<Rightarrow> c) in
           case rd_end r of
             EndStop \<Rightarrow> ([f], e1\<lparr>c_pongs := Some ch\<rparr>, best)
           | EndTimer \<Rightarrow> (case probe_rounds tun rs (e1\<lparr>c_pongs := Some ch\<rparr>) best of (out, x) \<Rightarrow> (f # out, x))
           | EndPong now \<Rightarrow>
               (case probe_rounds tun rs (e1\<lparr>c_pongs := Some (tl ch)\<rparr>)
                       (if ch = [] then best else better_rtt (hd ch) now best) of (out, x) \<Rightarrow> (f # out, x))))"

text \<open>\<open>pb_warm\<close> is how many of the three first punches are sent before a stop, 3 without one.\<close>

record probe =
  pb_stop :: bool
  pb_env :: wenv
  pb_warm :: nat
  pb_rounds :: "round list"

definition probe_addr :: "nat \<Rightarrow> probe \<Rightarrow> ip \<Rightarrow> engine \<Rightarrow> bytes list \<times> engine \<times> int" where
  "probe_addr rounds p tun e =
     (if c_pongs e = None then ([], e, - 1)
      else case punch_frame (pb_env p) tun e of (g, e1) \<Rightarrow>
        if pb_warm p < 3 then (replicate (pb_warm p) g, e1, - 1)
        else case probe_rounds tun (take rounds (pb_rounds p)) (e1\<lparr>c_pongs := Some []\<rparr>) (- 1) of
          (out, x) \<Rightarrow> (replicate 3 g @ out, x))"

definition probe_rtt :: "probe \<Rightarrow> ip \<Rightarrow> engine \<Rightarrow> (udpaddr \<times> bytes) list \<times> engine" where
  "probe_rtt p tun e =
     (case c_slave_addr e of
        None \<Rightarrow> ([], e)
      | Some a \<Rightarrow>
          (case probe_addr 5 p tun e of (out, e1, best) \<Rightarrow>
             (map (Pair a) out, if best \<ge> 0 then e1\<lparr>c_rtt := best\<rparr> else e1)))"

text \<open>The nearest of the slaves that replied, the first of several equally near.\<close>

definition closer :: "udpaddr \<Rightarrow> int \<Rightarrow> (udpaddr \<times> int) option \<Rightarrow> (udpaddr \<times> int) option" where
  "closer a rtt best =
     (if rtt < 0 then best
      else case best of None \<Rightarrow> Some (a, rtt) | Some (_, r) \<Rightarrow> if rtt < r then Some (a, rtt) else best)"

definition endpoint_addr :: "endpoint \<Rightarrow> udpaddr" where
  "endpoint_addr s = \<lparr>uip = ep_ip s, uport = unat (ep_port s)\<rparr>"

text \<open>The loop over the candidates; the flag says that a stop ended it.\<close>

fun probe_slaves ::
    "(endpoint \<times> probe) list \<Rightarrow> ip \<Rightarrow> engine \<Rightarrow> (udpaddr \<times> int) option
      \<Rightarrow> (udpaddr \<times> bytes) list \<times> engine \<times> bool \<times> (udpaddr \<times> int) option" where
  "probe_slaves [] tun e best = ([], e, False, best)"
| "probe_slaves ((s, p) # ps) tun e best =
     (if pb_stop p then ([], e, True, best)
      else case probe_addr 3 p tun e of (out, e1, rtt) \<Rightarrow>
        (case probe_slaves ps tun e1 (closer (endpoint_addr s) rtt best) of
           (outs, x) \<Rightarrow> (map (Pair (endpoint_addr s)) out @ outs, x)))"

text \<open>
  \<open>probeAndChooseSlave\<close> with one probe for each candidate. The choice goes to the connection it is
  given, whose peer is \<open>ctrl\<close>; the punch goes to the slave chosen.
\<close>

record choose_env =
  ce_probes :: "probe list"
  ce_stop :: bool
  ce_env1 :: wenv
  ce_env2 :: wenv

definition probe_and_choose ::
    "choose_env \<Rightarrow> welcome_msg \<Rightarrow> udpaddr \<Rightarrow> engine \<Rightarrow> (udpaddr \<times> bytes) list \<times> engine" where
  "probe_and_choose c w ctrl e =
     (case probe_slaves (zip (w_slaves w) (ce_probes c)) (w_assigned w) e None of
        (outs, e1, halted, best) \<Rightarrow>
          (if halted then (outs, e1)
           else case best of
             None \<Rightarrow> (outs, e1)
           | Some (addr, rtt) \<Rightarrow>
               if ce_stop c then (outs, e1)
               else
                 (let choice = \<lparr>sc_tunnel_ip = w_assigned w, sc_slave_ip = uip addr, sc_slave_port = of_nat (uport addr)\<rparr>;
                      (f, tr1) = tr_wrap (ce_env1 c) (c_tr e1) PktTypeControl (choice_marshal choice);
                      (g, tr2) = tr_wrap (ce_env2 c) tr1 PktTypePunch (four_bytes (w_assigned w))
                  in (outs @ [(ctrl, f), (addr, g)], e1\<lparr>c_slave_addr := Some addr, c_rtt := rtt, c_tr := tr2\<rparr>))))"

text \<open>
  The goroutine of \<open>bringUp\<close>, 700 ms after it. The connection handed to the choice is the one the
  uplink has moved to; \<open>start\<close> says that the engine was not stopped while it waited.
\<close>

definition select_node ::
    "bool \<Rightarrow> choose_env \<Rightarrow> handshake_result \<Rightarrow> udpaddr \<Rightarrow> engine \<Rightarrow> (udpaddr \<times> bytes) list \<times> engine" where
  "select_node start c r conn e =
     (if \<not> start then ([], e)
      else if length (w_slaves (hr_welcome r)) > 1 then probe_and_choose c (hr_welcome r) conn e
      else (case ce_probes c of
              [] \<Rightarrow> ([], e)
            | p # _ \<Rightarrow> probe_rtt p (w_assigned (hr_welcome r)) e))"

end
