(* ===== verification/ClientTheorems.thy ===== *)
theory ClientTheorems
  imports Client
begin

text \<open>
  What the client engine does, by itself: the choice of carrier and port, bringing the tunnel up
  and down in every order, the packet filter and the loops, the round-trip probe and the choice of
  the nearest slave.
\<close>

section \<open>The choice of carrier\<close>

lemma first_carrier_none: "first_carrier dial cs = None \<longleftrightarrow> (\<forall>c \<in> set cs. \<exists>x. dial c 0 = Inl x)"
  by (induction cs) (auto split: sum.splits)

lemma first_carrier_some:
  "first_carrier dial cs = Some r \<Longrightarrow>
     \<exists>i < length cs. dial (cs ! i) 0 = Inr r \<and> (\<forall>j < i. \<exists>x. dial (cs ! j) 0 = Inl x)"
proof (induction cs)
  case (Cons c cs)
  show ?case
  proof (cases "dial c 0")
    case (Inl x)
    with Cons obtain i where "i < length cs" "dial (cs ! i) 0 = Inr r" "\<forall>j < i. \<exists>x. dial (cs ! j) 0 = Inl x"
      by auto
    with Inl show ?thesis
      by (intro exI[of _ "Suc i"]) (auto simp: nth_Cons split: nat.splits)
  next
    case (Inr q)
    with Cons.prems show ?thesis by (intro exI[of _ 0]) auto
  qed
qed simp

lemma first_port_ok:
  "first_port dial car ps err = Inr r \<Longrightarrow>
     \<exists>i < length ps. dial car (ps ! i) = Inr r \<and> (\<forall>j < i. \<exists>x. dial car (ps ! j) = Inl x)"
proof (induction ps arbitrary: err)
  case (Cons p ps)
  show ?case
  proof (cases "dial car p")
    case (Inl x)
    with Cons.prems Cons.IH[of "Some x"] obtain i where
      "i < length ps" "dial car (ps ! i) = Inr r" "\<forall>j < i. \<exists>x. dial car (ps ! j) = Inl x"
      by auto
    with Inl show ?thesis
      by (intro exI[of _ "Suc i"]) (auto simp: nth_Cons split: nat.splits)
  next
    case (Inr q)
    with Cons.prems show ?thesis by (intro exI[of _ 0]) auto
  qed
qed simp

lemma first_port_error:
  "first_port dial car ps err = Inl err' \<Longrightarrow> (\<forall>p \<in> set ps. \<exists>x. dial car p = Inl x)
     \<and> (case ps of [] \<Rightarrow> err' = err | _ \<Rightarrow> \<exists>x. dial car (last ps) = Inl x \<and> err' = Some x)"
proof (induction ps arbitrary: err)
  case (Cons p ps)
  then obtain x where x: "dial car p = Inl x" "first_port dial car ps (Some x) = Inl err'"
    by (auto split: sum.splits)
  from Cons.IH[OF x(2)] x(1) show ?case by (cases ps) auto
qed simp

lemma auto_order_set: "set (auto_order c) = (if c = [] then {} else {c}) \<union> set auto_carrier_order"
  by (auto simp: auto_order_def auto_carrier_order_def)

lemma auto_order_distinct: "distinct (auto_order c)"
  by (auto simp: auto_order_def auto_carrier_order_def)

lemma carriers_known: "c \<in> set auto_carrier_order \<Longrightarrow> by_name seed c \<noteq> None \<and> carrier_control_port c \<noteq> 0"
  by (auto simp: auto_carrier_order_def by_name_def carrier_control_port_def)

section \<open>Bringing the tunnel down\<close>

lemma run_cleanup_no_close: "CloseTun \<notin> set (run_cleanup c e)"
  by (cases c) (auto simp: run_cleanup_def clear_split_default_route_def)

lemma stopped_disconnect: "c_stop e \<noteq> None \<Longrightarrow> stopped (snd (disconnect e))"
  by (auto simp: disconnect_def stopped_def Let_def)

lemma disconnect_twice: "disconnect (snd (disconnect e)) = ([Hook StateDisconnected], snd (disconnect e))"
  by (auto simp: disconnect_def Let_def insert_absorb split: option.splits)

text \<open>What the routing set-up of each platform leaves for the disconnect.\<close>

lemma disconnect_other:
  "c_cleanup e = Some (CleanOther dev ex) \<Longrightarrow> DelRoute s \<notin> set (fst (disconnect e))
     \<and> (dev \<longrightarrow> Unexclude ` set ex \<subseteq> set (fst (disconnect e)))"
  by (auto simp: disconnect_def run_cleanup_def clear_split_default_route_def Let_def)

lemma disconnect_windows:
  "c_cleanup e = Some (CleanWindows ex) \<Longrightarrow>
     DelRoute ` set split_halves \<union> RouteDelete ` set ex \<subseteq> set (fst (disconnect e))"
  by (auto simp: disconnect_def run_cleanup_def Let_def)

section \<open>Bringing the tunnel up\<close>

text \<open>Where the uplink goes after the move to the data port.\<close>

definition uplink_addr :: "bool \<Rightarrow> handshake_result \<Rightarrow> udpaddr" where
  "uplink_addr quic r =
     (let port = w_data_port (hr_welcome r)
      in if quic \<or> port = 0 \<or> port = of_nat (uport (hr_master r)) then hr_master r
         else \<lparr>uip = uip (hr_master r), uport = unat port\<rparr>)"

lemma hop_fields:
  assumes "hop_to_data_port u r e = ((err, acts), e')"
  shows "e' = e\<lparr>c_master := c_master e'\<rparr>"
    "err = None \<Longrightarrow> c_master e = Some (hr_master r) \<Longrightarrow> c_master e' = Some (uplink_addr (c_quic e) r)"
  using assms by (auto simp: hop_to_data_port_def uplink_addr_def Let_def split: if_splits)

lemma open_adapter_fields:
  assumes "open_adapter u r e = (acts, e')"
  shows "e' = e\<lparr>c_tun := c_tun e', c_cleanup := c_cleanup e'\<rparr> \<and> (ue_ok u OpenTun \<longrightarrow> c_tun e')"
  using assms by (auto simp: open_adapter_def Let_def split: if_splits platform.splits)

text \<open>What a finished \<open>bring_up\<close> leaves, with the randomness of its two ciphers.\<close>

lemma bring_up_ok:
  assumes "bring_up u r e = ((None, acts), e')"
  obtains p q where "ue_rnd1 u = Some p" "ue_rnd2 u = Some q"
    "c_aead e' = Some \<lparr>a_key = session_key (c_token e) (w_assigned (hr_welcome r)), a_prefix = p, a_counter = 0\<rparr>"
    "c_slave_aead e' = Some \<lparr>a_key = session_key (c_token e) (w_assigned (hr_welcome r)), a_prefix = q, a_counter = 0\<rparr>"
    "c_state e' = StateConnected" "c_stop e' = c_stop e" "c_closed e' = c_closed e" "c_slave_open e'"
    "ue_ok u OpenTun \<longrightarrow> c_tun e'" "c_pongs e' = Some []" "c_tun_ip e' = w_assigned (hr_welcome r)"
    "c_slave_addr e' = Some \<lparr>uip = w_slave_ip (hr_welcome r), uport = unat (w_slave_port (hr_welcome r))\<rparr>"
    "c_tr e' = hr_tr r" "c_quic e' \<longleftrightarrow> hr_carrier r = ''quic''" "c_up e' = 0" "c_down e' = 0"
    "c_master e' = Some (uplink_addr (hr_carrier r = ''quic'') r)"
proof -
  let ?e1 = "e\<lparr>c_master := Some (hr_master r), c_tr := hr_tr r, c_quic := (hr_carrier r = ''quic''),
                 c_active := tr_name (hr_tr r)\<rparr>"
  obtain err hop e2 where h: "hop_to_data_port u r ?e1 = ((err, hop), e2)"
    by (metis prod.exhaust)
  from assms h obtain a b where ab: "err = None"
      "new_aead (session_key (c_token e) (w_assigned (hr_welcome r))) (ue_rnd1 u) = Some a"
      "new_aead (session_key (c_token e) (w_assigned (hr_welcome r))) (ue_rnd2 u) = Some b"
    by (auto simp: bring_up_def Let_def split: if_splits option.splits)
  let ?e3 = "stats_reset (e2\<lparr>c_tun_ip := w_assigned (hr_welcome r),
      c_slave_addr := Some \<lparr>uip = w_slave_ip (hr_welcome r), uport = unat (w_slave_port (hr_welcome r))\<rparr>,
      c_aead := Some a, c_slave_aead := Some b\<rparr>)"
  obtain acts4 e4 where o: "open_adapter u r ?e3 = (acts4, e4)"
    by (metis prod.exhaust)
  have e': "ue_ok u ListenSlave" "e' = e4\<lparr>c_slave_open := True, c_rtt := - 1, c_pongs := Some [], c_state := StateConnected\<rparr>"
    using assms by (auto simp: bring_up_def Let_def h ab o split: if_splits)
  obtain p q where pq: "ue_rnd1 u = Some p" "ue_rnd2 u = Some q"
    using ab by (auto simp: new_aead_def split: option.splits)
  note e2 = hop_fields[OF h] and e4 = open_adapter_fields[OF o]
  have 2: "c_token e2 = c_token e" "c_stop e2 = c_stop e" "c_closed e2 = c_closed e" "c_tr e2 = hr_tr r"
    "c_quic e2 \<longleftrightarrow> hr_carrier r = ''quic''"
    by (subst e2(1), simp)+
  have m2: "c_master e2 = Some (uplink_addr (hr_carrier r = ''quic'') r)"
    using e2(2)[OF ab(1)] by simp
  have 4: "c_token e4 = c_token ?e3" "c_stop e4 = c_stop ?e3" "c_closed e4 = c_closed ?e3" "c_tr e4 = c_tr ?e3"
    "c_quic e4 = c_quic ?e3" "c_aead e4 = c_aead ?e3" "c_slave_aead e4 = c_slave_aead ?e3" "c_tun_ip e4 = c_tun_ip ?e3"
    "c_slave_addr e4 = c_slave_addr ?e3" "c_up e4 = c_up ?e3" "c_down e4 = c_down ?e3" "c_master e4 = c_master ?e3"
    by (subst conjunct1[OF e4], simp)+
  show thesis
    using ab pq by (intro that[of p q]) (simp_all add: e' 2 4 m2 conjunct2[OF e4] stats_reset_def new_aead_def)
qed

section \<open>Routes\<close>

lemma dedupe_result:
  "distinct (map ip_string (dedupe seen as)) \<and> [] \<notin> set (dedupe seen as)
   \<and> ip_string ` set (dedupe seen as) = ip_string ` (set as - {[]}) - set seen
   \<and> set (dedupe seen as) \<subseteq> set as"
proof (induction seen as rule: dedupe.induct)
  case (2 seen a as)
  then show ?case by (cases "a = []"; cases "ip_string a \<in> set seen") auto
qed simp

lemma excluded_hosts:
  "ip_string ` set (exclude_ips r) = ip_string ` (({uip (hr_master r), w_slave_ip (hr_welcome r)}
     \<union> ep_ip ` set (w_slaves (hr_welcome r))) - {[]})"
  using dedupe_result[of "[]" "[uip (hr_master r), w_slave_ip (hr_welcome r)] @ slave_endpoint_ips (w_slaves (hr_welcome r))"]
  by (auto simp: exclude_ips_def dedupe_ips_def slave_endpoint_ips_def)

lemma gateway_scan_last:
  assumes "fs \<noteq> []" and "last fs \<noteq> ''via''" and "last fs \<noteq> ''dev''" and "g \<noteq> ''via''" and "g \<noteq> ''dev''"
  shows "gateway_scan (fs @ [''via'', g, ''dev'', i]) x = (parse_ip g, i)"
  using assms(1-3)
proof (induction fs arbitrary: x)
  case (Cons a fs)
  obtain gw iface where x: "x = (gw, iface)" by (cases x)
  show ?case
  proof (cases fs)
    case Nil
    with Cons.prems assms(4,5) x show ?thesis by simp
  next
    case (Cons b bs)
    then show ?thesis
      using Cons.prems Cons.IH x by (simp only: append_Cons gateway_scan.simps) simp
  qed
qed simp

lemma fields_from_end: "\<forall>c \<in> set w. \<not> is_space c \<Longrightarrow> acc @ w \<noteq> [] \<Longrightarrow> fields_from acc w = [acc @ w]"
  by (induction w arbitrary: acc) auto

lemma fields_from_space: "is_space d \<Longrightarrow> fields_from acc (s @ d # t) = fields_from acc s @ fields_from [] t"
  by (induction acc s rule: fields_from.induct) auto

lemma fields_word: "is_space d \<Longrightarrow> \<forall>c \<in> set w. \<not> is_space c \<Longrightarrow> w \<noteq> [] \<Longrightarrow> go_fields (w @ d # s) = w # go_fields s"
  using fields_from_space[of d "[]" w s] fields_from_end[of w "[]"] by (simp add: go_fields_def)

lemma fields_line: "is_space d \<Longrightarrow> go_fields (s @ d # t) = go_fields s @ go_fields t"
  using fields_from_space[of d "[]" s t] by (simp add: go_fields_def)

text \<open>A route line of \<open>ip route show default\<close>.\<close>

definition route_line :: "string \<Rightarrow> string \<Rightarrow> string" where
  "route_line g i = ''default via '' @ g @ '' dev '' @ i"

lemma fields_route_line:
  assumes "g \<noteq> []" "i \<noteq> []" "\<forall>c \<in> set g. \<not> is_space c" "\<forall>c \<in> set i. \<not> is_space c"
  shows "go_fields (route_line g i) = [''default'', ''via'', g, ''dev'', i]"
proof -
  have sp: "is_space CHR '' ''" by (simp add: is_space_def)
  have "go_fields i = [i]"
    using fields_from_end[of i "[]"] assms by (simp add: go_fields_def)
  then have "go_fields (''dev'' @ CHR '' '' # i) = [''dev'', i]"
    by (subst fields_word[OF sp]) (auto simp: is_space_def)
  then have "go_fields (g @ CHR '' '' # ''dev'' @ CHR '' '' # i) = [g, ''dev'', i]"
    using assms by (subst fields_word[OF sp]) simp_all
  then have "go_fields (''via'' @ CHR '' '' # g @ CHR '' '' # ''dev'' @ CHR '' '' # i) = [''via'', g, ''dev'', i]"
    by (subst fields_word[OF sp]) (auto simp: is_space_def)
  then have "go_fields (''default'' @ CHR '' '' # ''via'' @ CHR '' '' # g @ CHR '' '' # ''dev'' @ CHR '' '' # i)
      = [''default'', ''via'', g, ''dev'', i]"
    by (subst fields_word[OF sp]) (auto simp: is_space_def)
  then show ?thesis by (simp add: route_line_def)
qed

text \<open>The routes a set-up installs, and what the disconnect that follows takes back.\<close>

lemma windows_routes_undone:
  assumes "c_tun e" and "setup_routing_windows ok gw ips e = (acts, c)"
    and "d = fst (disconnect (e\<lparr>c_cleanup := Some c\<rparr>))"
  shows "\<forall>p. AddRoute p \<in> set acts \<longrightarrow> DelRoute p \<in> set d"
    "\<forall>s g. RouteAdd s g \<in> set acts \<and> ok (RouteAdd s g) \<longrightarrow> RouteDelete s \<in> set d"
proof -
  let ?hosts = "if gw \<noteq> [] then map host4 (filter (\<lambda>a. a \<noteq> []) ips) else []"
  have acts: "acts = map (\<lambda>s. RouteAdd s gw) ?hosts @ map AddRoute split_halves"
    and c: "c = CleanWindows (filter (\<lambda>s. ok (RouteAdd s gw)) ?hosts)"
    using assms(1,2) by (simp_all add: setup_routing_windows_def Let_def)
  have "DelRoute ` set split_halves \<union> RouteDelete ` set (filter (\<lambda>s. ok (RouteAdd s gw)) ?hosts) \<subseteq> set d"
    unfolding assms(3) by (rule disconnect_windows) (simp add: c)
  then show "\<forall>p. AddRoute p \<in> set acts \<longrightarrow> DelRoute p \<in> set d"
    "\<forall>s g. RouteAdd s g \<in> set acts \<and> ok (RouteAdd s g) \<longrightarrow> RouteDelete s \<in> set d"
    unfolding acts by auto
qed

lemma linux_routes_undone:
  assumes "c_tun e" and "setup_routing_other ok route ips e = (acts, c)"
    and "d = fst (disconnect (e\<lparr>c_cleanup := Some c\<rparr>))"
  shows "\<forall>a g i. Exclude a g i \<in> set acts \<and> ok (Exclude a g i) \<longrightarrow> Unexclude a \<in> set d"
    "\<forall>p. DelRoute p \<notin> set d"
proof -
  let ?hosts = "filter (\<lambda>a. a \<noteq> []) ips" and ?x = "\<lambda>a. Exclude a (fst route) (snd route)"
  have acts: "acts = map ?x ?hosts @ add_routes ok split_halves"
    and c: "c = CleanOther True (filter (\<lambda>a. ok (?x a)) ?hosts)"
    using assms(1,2) by (simp_all add: setup_routing_other_def set_split_default_route_def Let_def)
  have "Exclude a g i \<notin> set (add_routes ok ps)" for a g i ps
    by (induction ps) auto
  moreover have "Unexclude ` set (filter (\<lambda>a. ok (?x a)) ?hosts) \<subseteq> set d" "\<forall>p. DelRoute p \<notin> set d"
    using disconnect_other[of "e\<lparr>c_cleanup := Some c\<rparr>" True "filter (\<lambda>a. ok (?x a)) ?hosts"]
    by (simp_all add: c assms(3))
  ultimately show "\<forall>a g i. Exclude a g i \<in> set acts \<and> ok (Exclude a g i) \<longrightarrow> Unexclude a \<in> set d"
    "\<forall>p. DelRoute p \<notin> set d"
    unfolding acts by auto
qed

section \<open>The probe\<close>

text \<open>The round-trip times the candidates are compared by.\<close>

fun slave_rtts :: "(endpoint \<times> probe) list \<Rightarrow> ip \<Rightarrow> engine \<Rightarrow> int list" where
  "slave_rtts [] tun e = []"
| "slave_rtts ((s, p) # ps) tun e =
     (case probe_addr 3 p tun e of (out, e1, rtt) \<Rightarrow> rtt # slave_rtts ps tun e1)"

lemma length_slave_rtts [simp]: "length (slave_rtts ps tun e) = length ps"
  by (induction ps tun e rule: slave_rtts.induct) (auto split: prod.split)

text \<open>\<open>least rs i\<close>: the first of the least nonnegative times.\<close>

definition least :: "int list \<Rightarrow> nat \<Rightarrow> bool" where
  "least rs i \<longleftrightarrow> i < length rs \<and> 0 \<le> rs ! i \<and> (\<forall>j < length rs. 0 \<le> rs ! j \<longrightarrow> rs ! i \<le> rs ! j)
     \<and> (\<forall>j < i. 0 \<le> rs ! j \<longrightarrow> rs ! i < rs ! j)"

fun closest :: "(udpaddr \<times> int) list \<Rightarrow> (udpaddr \<times> int) option \<Rightarrow> (udpaddr \<times> int) option" where
  "closest [] best = best"
| "closest ((a, rtt) # cs) best = closest cs (closer a rtt best)"

lemma probe_slaves_closest:
  "probe_slaves ps tun e best = (outs, e', False, b) \<Longrightarrow>
     b = closest (zip (map (\<lambda>x. endpoint_addr (fst x)) ps) (slave_rtts ps tun e)) best"
proof (induction ps tun e best arbitrary: outs e' b rule: probe_slaves.induct)
  case (2 s p ps tun e best)
  obtain out e1 rtt where pa: "probe_addr 3 p tun e = (out, e1, rtt)"
    by (metis prod.exhaust)
  obtain outs' x where ps: "probe_slaves ps tun e1 (closer (endpoint_addr s) rtt best) = (outs', x)"
    by (metis prod.exhaust)
  have stop: "\<not> pb_stop p" "x = (e', False, b)"
    using "2.prems" by (auto simp: pa ps split: if_splits)
  show ?case
    using "2.IH"[OF stop(1) pa[symmetric] refl ps[unfolded stop(2)]] by (simp add: pa)
qed simp

lemma closest_snoc: "closest (cs @ [(a, rtt)]) best = closer a rtt (closest cs best)"
  by (induction cs best rule: closest.induct) simp_all

lemma least_keep:
  assumes "least rs i" and "x < 0 \<or> rs ! i \<le> x"
  shows "least (rs @ [x]) i"
proof -
  have i: "i < length rs" "0 \<le> rs ! i" "\<And>j. j < length rs \<Longrightarrow> 0 \<le> rs ! j \<Longrightarrow> rs ! i \<le> rs ! j"
    "\<And>j. j < i \<Longrightarrow> 0 \<le> rs ! j \<Longrightarrow> rs ! i < rs ! j"
    using assms(1) unfolding least_def by blast+
  show ?thesis
    unfolding least_def
  proof (intro conjI allI impI)
    fix j assume "j < length (rs @ [x])" "0 \<le> (rs @ [x]) ! j"
    then show "(rs @ [x]) ! i \<le> (rs @ [x]) ! j"
      using i(1) i(3)[of j] assms(2) by (cases "j = length rs") (auto simp: nth_append)
  next
    fix j assume "j < i" "0 \<le> (rs @ [x]) ! j"
    then show "(rs @ [x]) ! i < (rs @ [x]) ! j"
      using i(1) i(4)[of j] by (simp add: nth_append)
  qed (use i(1,2) in \<open>simp_all add: nth_append\<close>)
qed

lemma least_new:
  assumes "0 \<le> x" and "\<And>j. j < length rs \<Longrightarrow> 0 \<le> rs ! j \<Longrightarrow> x < rs ! j"
  shows "least (rs @ [x]) (length rs)"
  unfolding least_def
proof (intro conjI allI impI)
  fix j assume "j < length (rs @ [x])" "0 \<le> (rs @ [x]) ! j"
  then show "(rs @ [x]) ! length rs \<le> (rs @ [x]) ! j"
    using assms(2)[of j] by (cases "j = length rs") (simp_all add: nth_append)
next
  fix j assume "j < length rs" "0 \<le> (rs @ [x]) ! j"
  then show "(rs @ [x]) ! length rs < (rs @ [x]) ! j"
    using assms(2)[of j] by (simp add: nth_append)
qed (use assms(1) in simp_all)

lemma closest_least:
  "case closest cs None of
     None \<Rightarrow> \<forall>x \<in> set cs. snd x < 0
   | Some x \<Rightarrow> \<exists>i. least (map snd cs) i \<and> cs ! i = x"
proof (induction cs rule: rev_induct)
  case (snoc c cs)
  obtain a rtt where c: "c = (a, rtt)" by (cases c)
  show ?case
  proof (cases "closest cs None")
    case None
    with snoc have neg: "\<forall>x \<in> set cs. snd x < 0" by simp
    have "least (map snd cs @ [rtt]) (length cs)" if "0 \<le> rtt"
      using least_new[OF that, of "map snd cs"] neg by (auto simp: not_le[symmetric])
    with None neg show ?thesis
      by (auto simp: c closest_snoc closer_def intro!: exI[of _ "length cs"])
  next
    case (Some x)
    with snoc obtain i where i: "least (map snd cs) i" "cs ! i = x" by auto
    obtain b r where x: "x = (b, r)" by (cases x)
    have r: "i < length cs" "map snd cs ! i = r"
      using i x by (auto simp: least_def)
    show ?thesis
    proof (cases "0 \<le> rtt \<and> rtt < r")
      case True
      have "rtt < map snd cs ! j" if "j < length (map snd cs)" "0 \<le> map snd cs ! j" for j
        using i(1) that r(2) True unfolding least_def by fastforce
      then have "least (map snd cs @ [rtt]) (length cs)"
        using least_new[of rtt "map snd cs"] True by simp
      with Some True x show ?thesis
        by (auto simp: c closest_snoc closer_def intro!: exI[of _ "length cs"])
    next
      case False
      then have "least (map snd cs @ [rtt]) i"
        using i(1) r(2) by (intro least_keep) auto
      with Some False i(2) x r(1) show ?thesis
        by (auto simp: c closest_snoc closer_def nth_append intro!: exI[of _ i])
    qed
  qed
qed simp

lemma probe_slaves_least:
  assumes "probe_slaves ps tun e None = (outs, e', False, b)"
  shows "case b of
     None \<Rightarrow> \<forall>rtt \<in> set (slave_rtts ps tun e). rtt < 0
   | Some (a, rtt) \<Rightarrow> \<exists>i. least (slave_rtts ps tun e) i \<and> a = endpoint_addr (fst (ps ! i)) \<and> rtt = slave_rtts ps tun e ! i"
proof -
  let ?cs = "zip (map (\<lambda>x. endpoint_addr (fst x)) ps) (slave_rtts ps tun e)"
  have b: "b = closest ?cs None"
    by (rule probe_slaves_closest[OF assms])
  have snd: "map snd ?cs = slave_rtts ps tun e" by simp
  show ?thesis
  proof (cases b)
    case None
    then have "\<forall>x \<in> set ?cs. snd x < 0"
      using closest_least[of ?cs] b by simp
    then have "\<forall>rtt \<in> set (map snd ?cs). rtt < 0" unfolding set_map by blast
    then show ?thesis unfolding snd using None by simp
  next
    case (Some x)
    then obtain i where i: "least (map snd ?cs) i" "?cs ! i = x"
      using closest_least[of ?cs] b by auto
    with Some show ?thesis
      unfolding snd by (auto simp: least_def intro!: exI[of _ i] split: prod.split)
  qed
qed

section \<open>A concrete client\<close>

definition two_slaves :: welcome_msg where
  "two_slaves = \<lparr>w_assigned = [10, 8, 0, 2], w_slave_ip = [192, 0, 2, 9], w_slave_port = 7, w_data_port = 40000,
     w_server_id = replicate 8 0,
     w_slaves = [\<lparr>ep_ip = [192, 0, 2, 9], ep_port = 7\<rparr>, \<lparr>ep_ip = [192, 0, 2, 10], ep_port = 7\<rparr>]\<rparr>"

definition sample_result :: handshake_result where
  "sample_result = \<lparr>hr_master = \<lparr>uip = [198, 51, 100, 1], uport = 7000\<rparr>, hr_tr = CS2, hr_carrier = ''cs2'',
     hr_welcome = two_slaves, hr_rtt = 20\<rparr>"

definition sample_upenv :: up_env where
  "sample_upenv = \<lparr>ue_platform = OtherOS, ue_ip_route = Some (route_line ''192.0.2.1'' ''eth0''), ue_next_hop = None,
     ue_ok = (\<lambda>_. True), ue_rnd1 = Some (replicate 8 0), ue_rnd2 = Some (replicate 8 1)\<rparr>"

definition sample_dial :: "string \<Rightarrow> int \<Rightarrow> dial_error + handshake_result" where
  "sample_dial c p = (if c = ''webrtc'' then Inr (sample_result\<lparr>hr_carrier := c\<rparr>) else Inl NoReply)"

definition connecting :: engine where
  "connecting = snd (connect (\<lambda>_. Some []) [] new_engine)"

lemma connecting_fields: "c_state connecting = StateConnecting" "c_stop connecting = Some 0" "c_closed connecting = {}"
  by (simp_all add: connecting_def connect_def new_engine_def)

lemma sample_bring_up: "\<exists>acts e'. bring_up sample_upenv r e = ((None, acts), e')"
  by (auto simp: bring_up_def hop_to_data_port_def sample_upenv_def new_aead_def Let_def open_adapter_def
      split: prod.splits)

section \<open>Properties\<close>





text \<open>C28. A disconnect during the handshake is lost: \<open>bringUp\<close> never looks at the stop channel before it is
  done, so a handshake that completes after the disconnect still opens the sockets and the adapter
  and leaves the engine connected, its stop channel closed and no loop running, and a new connect
  is refused.\<close>

theorem disconnect_lost_in_handshake:
  assumes "c_stop e = Some ch" and "bring_up u r (snd (disconnect e)) = ((None, acts), e')"
  shows "c_state e' = StateConnected \<and> stopped e' \<and> c_slave_open e' \<and> (ue_ok u OpenTun \<longrightarrow> c_tun e')
    \<and> connect decode tok e' = (Some AlreadyConnected, e')"
proof -
  obtain p q where b: "c_state e' = StateConnected" "c_stop e' = c_stop (snd (disconnect e))"
      "c_closed e' = c_closed (snd (disconnect e))" "c_slave_open e'" "ue_ok u OpenTun \<longrightarrow> c_tun e'"
    by (rule bring_up_ok[OF assms(2)])
  have "stopped (snd (disconnect e))"
    by (rule stopped_disconnect) (simp add: assms(1))
  with b show ?thesis by (auto simp: stopped_def connect_def split: option.splits)
qed

theorem disconnect_lost_in_handshake_witness:
  "\<exists>acts e'. bring_up sample_upenv sample_result (snd (disconnect connecting)) = ((None, acts), e')
     \<and> c_state e' = StateConnected \<and> stopped e' \<and> c_tun e'"
proof -
  obtain acts e' where "bring_up sample_upenv sample_result (snd (disconnect connecting)) = ((None, acts), e')"
    using sample_bring_up by blast
  with disconnect_lost_in_handshake[OF connecting_fields(2) this, of "\<lambda>_. None" "[]"] show ?thesis
    by (auto simp: sample_upenv_def)
qed

text \<open>C29. The nearest slave: when the probes run to their end, the slave chosen is the first of those with the
  least round-trip time among the candidates that answered, and none is chosen only when none
  answered; the choice and a punch are then sent, and the engine talks to that slave.\<close>

theorem nearest_slave_pinned:
  assumes "probe_slaves (zip (w_slaves w) (ce_probes c)) (w_assigned w) e None = (outs, e1, False, best)"
    and "rtts = slave_rtts (zip (w_slaves w) (ce_probes c)) (w_assigned w) e" and "\<not> ce_stop c"
  shows "case best of
      None \<Rightarrow> (\<forall>t \<in> set rtts. t < 0) \<and> probe_and_choose c w ctrl e = (outs, e1)
    | Some (a, t) \<Rightarrow> (\<exists>i. least rtts i \<and> t = rtts ! i
          \<and> a = endpoint_addr (fst (zip (w_slaves w) (ce_probes c) ! i)))
        \<and> (\<exists>f g. fst (probe_and_choose c w ctrl e) = outs @ [(ctrl, f), (a, g)])
        \<and> c_slave_addr (snd (probe_and_choose c w ctrl e)) = Some a
        \<and> c_rtt (snd (probe_and_choose c w ctrl e)) = t"
proof (cases best)
  case None
  then show ?thesis
    using probe_slaves_least[OF assms(1)] assms by (simp add: probe_and_choose_def)
next
  case (Some x)
  then show ?thesis
    using probe_slaves_least[OF assms(1)] assms
    by (auto simp: probe_and_choose_def Let_def split: prod.splits)
qed

definition sample_probe :: "u64 \<Rightarrow> probe" where
  "sample_probe t = \<lparr>pb_stop = False, pb_env = sample_env, pb_warm = 3, pb_rounds =
     [\<lparr>rd_stop = False, rd_env = sample_env, rd_sent = 0, rd_ok = True, rd_pongs = [replicate 12 0], rd_end = EndPong t\<rparr>]\<rparr>"

lemma sample_times: "better_rtt (replicate 12 0) 5000000 (- 1) = 5" "better_rtt (replicate 12 0) 3000000 (- 1) = 3"
  by (simp_all add: better_rtt_def slice_def get64_def get32_def quot_def Let_def)

lemma sample_probe_runs: "\<not> pb_stop (sample_probe t)"
  by (simp add: sample_probe_def)

lemma sample_probe_rtt:
  assumes "c_pongs e = Some ch" and "c_tr e = CS2"
  shows "\<exists>out e'. probe_addr 3 (sample_probe t) tun e = (out, e', better_rtt (replicate 12 0) t (- 1))
     \<and> c_pongs e' = Some [] \<and> c_tr e' = CS2"
  using assms by (simp add: probe_addr_def sample_probe_def punch_frame_def push_pong_def)

text \<open>Two candidates, the second nearer.\<close>

lemma sample_two_probes:
  assumes e: "c_pongs e = Some []" "c_tr e = CS2"
  shows "\<exists>outs e1. probe_slaves (zip (w_slaves two_slaves) [sample_probe 5000000, sample_probe 3000000])
    (w_assigned two_slaves) e None = (outs, e1, False, Some (\<lparr>uip = [192, 0, 2, 10], uport = 7\<rparr>, 3))"
proof -
  let ?a = "\<lparr>ep_ip = [192, 0, 2, 9], ep_port = 7\<rparr>" and ?b = "\<lparr>ep_ip = [192, 0, 2, 10], ep_port = 7\<rparr>"
  obtain o1 e1 where 1: "probe_addr 3 (sample_probe 5000000) [10, 8, 0, 2] e = (o1, e1, 5)" "c_pongs e1 = Some []" "c_tr e1 = CS2"
    using sample_probe_rtt[OF e, of 5000000 "[10, 8, 0, 2]"] by (auto simp: sample_times)
  obtain o2 e2 where 2: "probe_addr 3 (sample_probe 3000000) [10, 8, 0, 2] e1 = (o2, e2, 3)"
    using sample_probe_rtt[OF 1(2,3), of 3000000 "[10, 8, 0, 2]"] by (auto simp: sample_times)
  have z: "zip (w_slaves two_slaves) [sample_probe 5000000, sample_probe 3000000]
      = [(?a, sample_probe 5000000), (?b, sample_probe 3000000)]" "w_assigned two_slaves = [10, 8, 0, 2]"
    by (simp_all add: two_slaves_def)
  show ?thesis
    using 1(1) 2 by (simp add: z closer_def sample_probe_runs endpoint_addr_def)
qed

theorem nearest_slave_pinned_witness:
  "c_slave_addr (snd (probe_and_choose \<lparr>ce_probes = [sample_probe 5000000, sample_probe 3000000], ce_stop = False,
      ce_env1 = sample_env, ce_env2 = sample_env\<rparr> two_slaves \<lparr>uip = [198, 51, 100, 1], uport = 40000\<rparr>
      (new_engine\<lparr>c_pongs := Some []\<rparr>))) = Some \<lparr>uip = [192, 0, 2, 10], uport = 7\<rparr>"
proof -
  let ?c = "\<lparr>ce_probes = [sample_probe 5000000, sample_probe 3000000], ce_stop = False,
      ce_env1 = sample_env, ce_env2 = sample_env\<rparr>" and ?e = "new_engine\<lparr>c_pongs := Some []\<rparr>"
  have "c_pongs ?e = Some []" "c_tr ?e = CS2"
    by (simp_all add: new_engine_def)
  then obtain outs e1 where p: "probe_slaves (zip (w_slaves two_slaves) (ce_probes ?c)) (w_assigned two_slaves) ?e None
      = (outs, e1, False, Some (\<lparr>uip = [192, 0, 2, 10], uport = 7\<rparr>, 3))"
    using sample_two_probes by fastforce
  show ?thesis
    using nearest_slave_pinned[OF p refl, of "\<lparr>uip = [198, 51, 100, 1], uport = 40000\<rparr>"] by simp
qed

text \<open>The uplink filter: a packet is sent if and only if it has 20 bytes and is IPv4 with a first
  destination byte from 1 to 223, or is IPv6 with a ninth byte, the first of its source, outside
  e0 to ef; the empty packet is an index out of range. So IPv6 multicast is not filtered: the
  destination of an IPv6 packet starts at its 25th byte and is not looked at.\<close>

theorem uplink_filter_exact:
  "tun_accepts pkt = (if pkt = [] then None else Some (20 \<le> length pkt
      \<and> (unat (pkt ! 0) div 16 = 4 \<and> 0 < unat (pkt ! 16) \<and> unat (pkt ! 16) < 224
         \<or> unat (pkt ! 0) div 16 = 6 \<and> unat (pkt ! 8) div 16 \<noteq> 14)))
   \<and> (\<exists>p. length p = 40 \<and> unat (p ! 0) div 16 = 6 \<and> p ! 24 = 0xFF \<and> tun_accepts p = Some True)"
proof
  show "tun_accepts pkt = (if pkt = [] then None else Some (20 \<le> length pkt
      \<and> (unat (pkt ! 0) div 16 = 4 \<and> 0 < unat (pkt ! 16) \<and> unat (pkt ! 16) < 224
         \<or> unat (pkt ! 0) div 16 = 6 \<and> unat (pkt ! 8) div 16 \<noteq> 14)))"
    using unat_gt_0[of "pkt ! 16"]
    by (auto simp: tun_accepts_def Let_def high_nibble nibble word_le_nat_alt not_le not_less)
  let ?p = "0x60 # replicate 23 0 @ 0xFF # replicate 15 0 :: bytes"
  have "length ?p = 40 \<and> unat (?p ! 0) div 16 = 6 \<and> ?p ! 24 = 0xFF \<and> tun_accepts ?p = Some True"
    by (simp add: tun_accepts_def Let_def high_nibble nibble nth_append)
  then show "\<exists>p. length p = 40 \<and> unat (p ! 0) div 16 = 6 \<and> p ! 24 = 0xFF \<and> tun_accepts p = Some True"
    by blast
qed

text \<open>C30. Routes installed and undone: on Windows the disconnect takes back every route the full-tunnel
  set-up installed, host routes and both halves; elsewhere it takes back every host route, but
  neither half: the clean-up asks the engine for its adapter, which the disconnect has already
  cleared.\<close>

theorem routes_undone:
  assumes "c_tun e" and "setup_routing_windows ok gw ips e = (wacts, wc)"
    and "setup_routing_other ok route ips e = (oacts, oc)"
    and "wd = fst (disconnect (e\<lparr>c_cleanup := Some wc\<rparr>))" and "od = fst (disconnect (e\<lparr>c_cleanup := Some oc\<rparr>))"
  shows "(\<forall>p. AddRoute p \<in> set wacts \<longrightarrow> DelRoute p \<in> set wd)
    \<and> (\<forall>s g. RouteAdd s g \<in> set wacts \<and> ok (RouteAdd s g) \<longrightarrow> RouteDelete s \<in> set wd)
    \<and> (\<forall>a g i. Exclude a g i \<in> set oacts \<and> ok (Exclude a g i) \<longrightarrow> Unexclude a \<in> set od)
    \<and> AddRoute ''0.0.0.0/1'' \<in> set oacts \<and> (\<forall>p. DelRoute p \<notin> set od)"
proof -
  have "AddRoute ''0.0.0.0/1'' \<in> set oacts"
    using assms(1,3) by (auto simp: setup_routing_other_def set_split_default_route_def split_halves_def Let_def)
  then show ?thesis
    using windows_routes_undone[OF assms(1,2,4)] linux_routes_undone[OF assms(1,3,5)] by blast
qed

theorem routes_undone_witness:
  "DelRoute ''0.0.0.0/1'' \<in> set (fst (disconnect (new_engine\<lparr>c_tun := True, c_cleanup := Some (CleanWindows [])\<rparr>)))
   \<and> DelRoute ''0.0.0.0/1'' \<notin> set (fst (disconnect (new_engine\<lparr>c_tun := True, c_cleanup := Some (CleanOther True [])\<rparr>)))"
proof -
  have "setup_routing_windows (\<lambda>_. True) [] [] (new_engine\<lparr>c_tun := True\<rparr>) = (map AddRoute split_halves, CleanWindows [])"
    by (simp add: setup_routing_windows_def)
  moreover have "setup_routing_other (\<lambda>_. True) (None, []) [] (new_engine\<lparr>c_tun := True\<rparr>)
      = (map AddRoute split_halves, CleanOther True [])"
    by (simp add: setup_routing_other_def set_split_default_route_def split_halves_def)
  ultimately show ?thesis
    using routes_undone[of "new_engine\<lparr>c_tun := True\<rparr>"] by (fastforce simp: split_halves_def)
qed

text \<open>The hosts kept out of the tunnel: no host twice, and the hosts are those of the master, the slave
  of the welcome and every candidate slave, each that has an address.\<close>

theorem exclusions_exact:
  "distinct (map ip_string (exclude_ips r))
   \<and> ip_string ` set (exclude_ips r) = ip_string ` (({uip (hr_master r), w_slave_ip (hr_welcome r)}
       \<union> ep_ip ` set (w_slaves (hr_welcome r))) - {[]})"
  using excluded_hosts[of r] dedupe_result by (auto simp: exclude_ips_def dedupe_ips_def)

text \<open>The default gateway on Linux: whatever routes \<open>ip route show default\<close> lists before it, the last one
  is used, which the tool prints last because it has the largest metric.\<close>

theorem last_default_route_used:
  assumes "parse_ip g = Some a" and "\<forall>c \<in> set g. \<not> is_space c" and "i \<noteq> []" and "\<forall>c \<in> set i. \<not> is_space c"
    and "go_fields s \<noteq> []" and "last (go_fields s) \<notin> {''via'', ''dev''}"
  shows "default_gateway_linux (Some (s @ CHR 0x0A # route_line g i)) = (Some a, i)"
proof -
  have word: "g \<noteq> []" "g \<noteq> ''via''" "g \<noteq> ''dev''"
    using assms(1) by (auto simp: parse_ip_def)
  have "go_fields (s @ CHR 0x0A # route_line g i) = (go_fields s @ [''default'']) @ [''via'', g, ''dev'', i]"
    using fields_line[of "CHR 0x0A" s "route_line g i"] fields_route_line[OF word(1) assms(3,2,4)]
    by (simp add: is_space_def)
  then show ?thesis
    using gateway_scan_last[of "go_fields s @ [''default'']" g i "(None, [])"] word(2,3) assms(1)
    by (simp add: default_gateway_linux_def)
qed

theorem last_default_route_used_witness:
  "default_gateway_linux (Some (route_line ''192.0.2.1'' ''eth0'' @ CHR 0x0A # route_line ''10.0.0.1'' ''wlan0''))
    = (Some (to16 [10, 0, 0, 1]), ''wlan0'')"
proof -
  have "parse_ip ''10.0.0.1'' = Some (to16 [10, 0, 0, 1])"
    using parse_ip_string[of "[10, 0, 0, 1]" "[10, 0, 0, 1]"] by (simp add: ip_string_def ip4_string_def dec.simps digit_def char_of_def bit_Suc_0_iff)
  then show ?thesis
    using fields_route_line[of "''192.0.2.1''" "''eth0''"]
    by (intro last_default_route_used) (auto simp: is_space_def)
qed

end
