(* ===== verification/Connect.thy ===== *)
theory Connect
  imports EndToEnd ClientTheorems
begin

text \<open>
  The client engine against the master and the slave: the handshake from the client's dial to the
  session on both sides, the first packet over the data port, what becomes of the slave choice and
  of keepalives, and the downlink up to the client's adapter.
\<close>

section \<open>The client's side of the handshake\<close>

lemma signed_is_client_hello: "signed_hello token unix n = client_hello token HelloVersion3 unix n"
  by (simp add: signed_hello_def client_hello_def)

text \<open>A dial that reaches the socket.\<close>

definition dial_ready :: "dial_env \<Rightarrow> string \<Rightarrow> string \<Rightarrow> int \<Rightarrow> transport \<Rightarrow> udpaddr \<Rightarrow> bytes \<Rightarrow> bool" where
  "dial_ready d host car port tr addr n \<longleftrightarrow>
     by_name (de_seed d) car = Some tr \<and> 16 \<le> length (de_seed d)
   \<and> de_resolve d (join_host_port host (sprint (handshake_port car port))) = Some addr
   \<and> de_dial_ok d \<and> de_nonce d = Some n \<and> length n = 16 \<and> de_send_ok d \<and> wf_env (de_wrap d)"

lemma dial_sends:
  assumes "dial_ready d host car port tr addr n"
  shows "fst (dial_and_handshake d host car port e) = Some (addr, fst (tr_wrap (de_wrap d) tr PktTypeHandshake
     (hello_marshal (client_hello (c_token e) HelloVersion3 (de_unix d) n))))"
  using assms
  by (auto simp: dial_ready_def dial_and_handshake_def signed_is_client_hello Let_def split: prod.splits option.splits)

lemma dial_reads:
  assumes "dial_ready d host car port tr addr n"
    and "tr_unwrap tr g = Some (PktTypeControl, W)" and "parse_welcome W = Inr w"
    and "W ! 0 = CtrlWelcome" and "W \<noteq> []"
  shows "snd (dial_and_handshake (d\<lparr>de_reply := Some g\<rparr>) host car port e) = Inr \<lparr>hr_master = addr,
     hr_tr = snd (tr_wrap (de_wrap d) tr PktTypeHandshake (hello_marshal (client_hello (c_token e) HelloVersion3 (de_unix d) n))),
     hr_carrier = car, hr_welcome = w, hr_rtt = de_rtt d\<rparr>"
proof -
  let ?h = "hello_marshal (client_hello (c_token e) HelloVersion3 (de_unix d) n)"
  obtain f tr1 where f: "tr_wrap (de_wrap d) tr PktTypeHandshake ?h = (f, tr1)"
    by (metis prod.exhaust)
  have "tr_unwrap tr1 g = tr_unwrap tr g"
    using tr_unwrap_kind tr_wrap_kind[of "de_wrap d" tr PktTypeHandshake ?h] f by (metis snd_conv)
  then have "read_welcome tr1 g = Inr w"
    using assms(2-5) by (cases W) (simp_all add: read_welcome_def)
  with assms(1) f show ?thesis
    by (simp add: dial_ready_def dial_and_handshake_def signed_is_client_hello)
qed

section \<open>The handshake from both sides\<close>

text \<open>A master that can open a session for a hello: a slave, an address, randomness, a fresh nonce.\<close>

definition master_ready :: "mcfg \<Rightarrow> henv \<Rightarrow> u64 \<Rightarrow> bytes \<Rightarrow> ip \<Rightarrow> udpaddr \<Rightarrow> master \<Rightarrow> bool" where
  "master_ready cfg h ts n tun su m \<longleftrightarrow>
     hello_in_window (he_unix h) ts \<and> cache_inv (replays (world m))
   \<and> (\<forall>t. map_of (replays (world m)) n = Some t \<longrightarrow> t < sint (he_unix h) - retention)
   \<and> (\<exists>c. fst (pick (he_pick h) (ctrl (world m))) = Some c
        \<and> mc_resolve cfg (sl_udp (conns (ctrl (world m)) ! c)) = Some su)
   \<and> fst (pool_allocate (pool (world m))) = Some tun \<and> to4 tun = Some tun
   \<and> he_id h \<noteq> None \<and> he_rnd h \<noteq> None \<and> env_ok h m \<and> length (mc_server_id cfg) = 8 \<and> table_inv m"

text \<open>What both sides hold when the handshake is over.\<close>

record joined =
  j_frame :: bytes
  j_tr :: transport
  j_master :: master
  j_reply :: bytes
  j_result :: handshake_result
  j_aead :: aead

definition handshake_joins ::
    "mcfg \<Rightarrow> henv \<Rightarrow> dial_env \<Rightarrow> string \<Rightarrow> string \<Rightarrow> int \<Rightarrow> engine \<Rightarrow> udpaddr \<Rightarrow> udpaddr \<Rightarrow> transport \<Rightarrow> transport
      \<Rightarrow> ip \<Rightarrow> udpaddr \<Rightarrow> master \<Rightarrow> joined \<Rightarrow> bool" where
  "handshake_joins cfg h d host car port e addr src tr mtr tun su m j \<longleftrightarrow>
     fst (dial_and_handshake d host car port e) = Some (addr, j_frame j)
   \<and> serve cfg h True src (j_frame j) mtr m = Some (j_tr j, j_master j)
   \<and> (\<exists>es. events (world (j_master j)) = events (world m) @ es @ [Datagram src (j_reply j)])
   \<and> snd (dial_and_handshake (d\<lparr>de_reply := Some (j_reply j)\<rparr>) host car port e) = Inr (j_result j)
   \<and> hr_master (j_result j) = addr \<and> hr_carrier (j_result j) = car \<and> same_kind (hr_tr (j_result j)) tr
   \<and> wf_transport (hr_tr (j_result j))
   \<and> w_assigned (hr_welcome (j_result j)) = tun
   \<and> w_data_port (hr_welcome (j_result j)) = (case he_port h of None \<Rightarrow> 0 | Some q \<Rightarrow> of_nat q)
   \<and> w_slave_ip (hr_welcome (j_result j)) = put_ip4 (uip su)
   \<and> w_slave_port (hr_welcome (j_result j)) = of_nat (uport su)
   \<and> live (j_master j) (length (heap m)) \<and> find_tun (ip_string tun) (j_master j) = Some (length (heap m))
   \<and> s_tun (heap (j_master j) ! length (heap m)) = tun \<and> s_client (heap (j_master j) ! length (heap m)) = src
   \<and> s_key (heap (j_master j) ! length (heap m)) = session_key (c_token e) tun
   \<and> new_aead (session_key (c_token e) tun) (he_rnd h) = Some (j_aead j)
   \<and> socks (world (j_master j)) = socks (world m) @ sock_of h mtr (length (heap m)) (j_aead j)"

lemma handshake_joined:
  assumes d: "dial_ready d host car port tr addr n" and token: "c_token e = mc_token cfg"
    and m: "master_ready cfg h (de_unix d) n tun su m" and tr: "wf_transport mtr" "same_kind tr mtr"
  shows "\<exists>j. handshake_joins cfg h d host car port e addr src tr mtr tun su m j"
proof -
  let ?hello = "client_hello (mc_token cfg) HelloVersion3 (de_unix d) n"
  let ?payload = "hello_marshal ?hello"
  let ?f = "fst (tr_wrap (de_wrap d) tr PktTypeHandshake ?payload)"
  let ?tr1 = "snd (tr_wrap (de_wrap d) tr PktTypeHandshake ?payload)"
  have n: "length n = 16" and env: "wf_env (de_wrap d)" and seed: "16 \<le> length (de_seed d)"
    and named: "by_name (de_seed d) car = Some tr"
    using d by (simp_all add: dial_ready_def)
  have wf: "wf_transport tr"
    by (rule by_name_wf[OF seed named])
  obtain c where c: "fst (pick (he_pick h) (ctrl (world m))) = Some c"
      "mc_resolve cfg (sl_udp (conns (ctrl (world m)) ! c)) = Some su"
    using m by (auto simp: master_ready_def)
  obtain p' where alloc: "pool_allocate (pool (world m)) = (Some tun, p')" and tun: "to4 tun = Some tun"
    using m by (cases "pool_allocate (pool (world m))") (auto simp: master_ready_def)
  obtain sid rnd where env': "he_id h = Some sid" "he_rnd h = Some rnd" "env_ok h m"
    using m by (auto simp: master_ready_def)
  have sid: "length (mc_server_id cfg) = 8" and inv: "table_inv m"
    using m by (simp_all add: master_ready_def)
  have guard: "fst (hello_guard (mc_token cfg) (he_unix h) ?payload (replays (world m))) = Inr ?hello"
    using m by (intro client_hello_accepted[OF n]) (simp_all add: master_ready_def)
  have v3: "h_version ?hello = HelloVersion3"
    by (simp add: client_hello_def Let_def)
  have unwrap: "tr_unwrap mtr ?f = Some (PktTypeHandshake, ?payload)"
    using tr_unwrap_wrap[OF env wf, of PktTypeHandshake ?payload] tr_unwrap_kind[OF tr(2), of ?f] by simp
  obtain tr' m' es g W a where r: "handle_handshake cfg h src ?payload mtr m = Some (tr', m')"
      "events (world m') = events (world m) @ es @ [Datagram src g]"
      "tr_unwrap mtr g = Some (PktTypeControl, W)"
      "parse_welcome W = Inr (canon_welcome (welcome_for cfg h (h_version ?hello = HelloVersion3) su tun
         (snd (pick (he_pick h) (ctrl (world m))))))"
      "live m' (length (heap m))" "s_tun (heap m' ! length (heap m)) = tun"
      "s_client (heap m' ! length (heap m)) = src" "s_key (heap m' ! length (heap m)) = session_key (mc_token cfg) tun"
      "find_tun (ip_string tun) m' = Some (length (heap m))" "W ! 0 = CtrlWelcome" "W \<noteq> []"
      "new_aead (session_key (mc_token cfg) tun) (Some rnd) = Some a"
      "socks (world m') = socks (world m) @ sock_of h mtr (length (heap m)) a"
    by (rule handshake_reply[OF guard c(1) alloc env' c(2) tr(1) sid inv])
  let ?w = "canon_welcome (welcome_for cfg h True su tun (snd (pick (he_pick h) (ctrl (world m)))))"
  let ?r = "\<lparr>hr_master = addr, hr_tr = ?tr1, hr_carrier = car, hr_welcome = ?w, hr_rtt = de_rtt d\<rparr>"
  let ?j = "\<lparr>j_frame = ?f, j_tr = tr', j_master = m', j_reply = g, j_result = ?r, j_aead = a\<rparr>"
  have served: "serve cfg h True src ?f mtr m = Some (tr', m')"
    using unwrap r(1) by (simp add: serve_def)
  have "tr_unwrap tr g = Some (PktTypeControl, W)"
    using r(3) tr_unwrap_kind[OF tr(2)] by simp
  then have read: "snd (dial_and_handshake (d\<lparr>de_reply := Some g\<rparr>) host car port e) = Inr ?r"
    using dial_reads[OF d _ _ r(10,11)] r(4) v3 token by simp
  have put: "put_ip4 tun = tun"
    using tun by (simp add: put_ip4_def)
  have "handshake_joins cfg h d host car port e addr src tr mtr tun su m ?j"
    using dial_sends[OF d, of e] served read r(2,5-9,12,13) token put env'
      tr_wrap_kind[of "de_wrap d" tr] tr_wrap_wf[OF env wf]
    by (simp add: handshake_joins_def canon_welcome_def welcome_for_def put_ip4_four)
  then show ?thesis by blast
qed

section \<open>Uplink on the data port\<close>

lemma deliver_events:
  "src_matches_tunnel pkt t \<Longrightarrow> events (deliver pkt t w) = events w @ [Inject pkt]"
  by (simp add: deliver_def emit_def bump_def)

lemma tun_read_sends:
  assumes "tun_accepts pkt = Some True" and "c_aead e = Some a" and "wf_aead a" and "a_counter a \<le> 0xFFFFFFFF"
    and "\<not> c_quic e" and "c_master e = Some addr"
  obtains ct a' e' where "aead_seal C a pkt = (Inr ct, a')"
    "tun_read C env pkt e = (TunSent (ToMasterAddr addr (fst (tr_wrap env (c_tr e) PktTypeData ct))), e')"
    "c_up e' = c_up e + of_nat (length pkt)"
proof -
  obtain ct a' where s: "aead_seal C a pkt = (Inr ct, a')"
    using assms(4) by (auto simp: aead_seal_def aead_nonce_def Let_def not_less)
  obtain f tr where f: "tr_wrap env (c_tr e) PktTypeData ct = (f, tr)"
    by (metis prod.exhaust)
  let ?e' = "e\<lparr>c_aead := Some a', c_tr := tr, c_up := c_up e + of_nat (length pkt)\<rparr>"
  show thesis
    using assms s f
    by (intro that[of ct a' ?e']) (simp_all add: tun_read_def Let_def send_uplink_def uplink_ok_def)
qed

lemma serve_data_delivers:
  assumes "cipher_ok (mc_cipher cfg)" and "wf_aead a" and "a_key (ds_aead ds) = a_key a"
    and "aead_seal (mc_cipher cfg) a pkt = (Inr ct, a')"
    and "tr_unwrap (ds_tr ds) f = Some (PktTypeData, ct)" and "ds_sess ds < length (heap m)"
    and "src_matches_tunnel pkt (s_tun (heap m ! ds_sess ds))"
  shows "events (world (serve_data cfg now ds f m)) = events (world m) @ [Inject pkt]"
  using aead_open_seal(1)[OF assms(1-4)] assms(5-7) touch_tun[of "ds_sess ds" m now "ds_sess ds"]
  by (simp add: serve_data_def Let_def deliver_events)

text \<open>The client's tunnel once it is up, in the terms of the joined session.\<close>

lemma joined_uplink:
  assumes j: "handshake_joins cfg h d host car port e addr src tr mtr tun su m j" and q: "he_port h = Some q"
    and u: "bring_up u (j_result j) e0 = ((None, acts), e')" and token: "c_token e0 = c_token e"
    and kind: "same_kind tr mtr" and rnd: "\<forall>p. ue_rnd1 u = Some p \<longrightarrow> length p = 8"
    and quic: "car \<noteq> ''quic''" and hop: "0 < q" "q < 65536" "q \<noteq> uport addr" "uport addr < 65536"
  obtains a where "c_aead e' = Some a" "wf_aead a" "a_counter a = 0" "a_key a = a_key (j_aead j)" "\<not> c_quic e'"
    "c_master e' = Some \<lparr>uip = uip addr, uport = q\<rparr>" "same_kind (c_tr e') mtr" "wf_transport (c_tr e')" "c_up e' = 0"
proof -
  let ?r = "j_result j"
  have joined: "hr_master ?r = addr" "hr_carrier ?r = car" "same_kind (hr_tr ?r) tr" "wf_transport (hr_tr ?r)"
    "w_assigned (hr_welcome ?r) = tun" "w_data_port (hr_welcome ?r) = of_nat q"
    "new_aead (session_key (c_token e) tun) (he_rnd h) = Some (j_aead j)"
    using j q by (simp_all add: handshake_joins_def)
  obtain p where p: "ue_rnd1 u = Some p" "c_aead e' = Some \<lparr>a_key = session_key (c_token e0) tun, a_prefix = p, a_counter = 0\<rparr>"
      "c_tr e' = hr_tr ?r" "c_quic e' \<longleftrightarrow> car = ''quic''" "c_up e' = 0" "c_master e' = Some (uplink_addr (car = ''quic'') ?r)"
    by (rule bring_up_ok[OF u]) (simp add: joined)
  have key: "a_key (j_aead j) = session_key (c_token e) tun"
    using joined(7) by (cases "he_rnd h") (simp_all add: new_aead_def, metis aead.select_convs(1))
  have "of_nat q \<noteq> (0 :: u16)" "of_nat q \<noteq> (of_nat (uport addr) :: u16)" "unat (of_nat q :: u16) = q"
    using hop by (simp_all add: unat_of_nat word_unat_eq_iff)
  then have "c_master e' = Some \<lparr>uip = uip addr, uport = q\<rparr>"
    using p(6) quic by (simp add: uplink_addr_def joined(1,6) Let_def)
  moreover have "same_kind (c_tr e') mtr"
    using joined(3) kind p(3) by (simp add: same_kind_def)
  ultimately show thesis
    using p quic rnd token key joined(4) by (intro that[of "\<lparr>a_key = session_key (c_token e0) tun, a_prefix = p, a_counter = 0\<rparr>"])
      (simp_all add: wf_aead_def)
qed

lemma first_packet:
  assumes C: "cipher_ok (mc_cipher cfg)" and j: "handshake_joins cfg h d host car port e addr src tr mtr tun su m j"
    and q: "he_port h = Some q" and u: "bring_up u (j_result j) e = ((None, acts), e')"
    and kind: "same_kind tr mtr" and rnd: "\<forall>p. ue_rnd1 u = Some p \<longrightarrow> length p = 8"
    and quic: "car \<noteq> ''quic''" and hop: "0 < q" "q < 65536" "q \<noteq> uport addr" "uport addr < 65536"
    and env: "wf_env env" and pkt: "tun_accepts pkt = Some True" "src_matches_tunnel pkt tun"
  shows "\<exists>ds f e''. ds \<in> set (socks (world (j_master j))) \<and> ds_port ds = q
    \<and> tun_read (mc_cipher cfg) env pkt e' = (TunSent (ToMasterAddr \<lparr>uip = uip addr, uport = q\<rparr> f), e'')
    \<and> c_up e'' = of_nat (length pkt)
    \<and> events (world (serve_data cfg now ds f (j_master j))) = events (world (j_master j)) @ [Inject pkt]"
proof -
  let ?m = "j_master j" and ?p = "length (heap m)"
  let ?ds = "\<lparr>ds_port = q, ds_sess = ?p, ds_aead = j_aead j, ds_tr = mtr\<rparr>"
  have sess: "live ?m ?p" "s_tun (heap ?m ! ?p) = tun" "?ds \<in> set (socks (world ?m))"
    using j q by (simp_all add: handshake_joins_def sock_of_def)
  have live: "?p < length (heap ?m)"
    using sess(1) by (simp add: live_def)
  obtain a where a: "c_aead e' = Some a" "wf_aead a" "a_counter a = 0" "a_key a = a_key (j_aead j)" "\<not> c_quic e'"
      "c_master e' = Some \<lparr>uip = uip addr, uport = q\<rparr>" "same_kind (c_tr e') mtr" "wf_transport (c_tr e')" "c_up e' = 0"
    by (rule joined_uplink[OF j q u refl kind rnd quic hop])
  obtain ct a' e'' where s: "aead_seal (mc_cipher cfg) a pkt = (Inr ct, a')"
      "tun_read (mc_cipher cfg) env pkt e' = (TunSent (ToMasterAddr \<lparr>uip = uip addr, uport = q\<rparr>
         (fst (tr_wrap env (c_tr e') PktTypeData ct))), e'')" "c_up e'' = c_up e' + of_nat (length pkt)"
    by (rule tun_read_sends[OF pkt(1) a(1,2) _ a(5,6)]) (simp add: a(3))
  let ?f = "fst (tr_wrap env (c_tr e') PktTypeData ct)"
  have "tr_unwrap (ds_tr ?ds) ?f = Some (PktTypeData, ct)"
    using tr_unwrap_wrap[OF env a(8), of PktTypeData ct] tr_unwrap_kind[OF a(7), of ?f] by simp
  then have "events (world (serve_data cfg now ?ds ?f ?m)) = events (world ?m) @ [Inject pkt]"
    using serve_data_delivers[OF C a(2) _ s(1), of ?ds ?f ?m now] a(4) live sess(2) pkt(2) by simp
  with s(2,3) a(9) sess(3) show ?thesis
    by (intro exI[of _ ?ds] exI[of _ ?f] exI[of _ e'']) simp
qed

text \<open>A data frame of the slave reaches the adapter.\<close>

lemma downlink_read_data:
  "tr_unwrap (c_tr c) f = Some (PktTypeData, ct) \<Longrightarrow> c_slave_aead c = Some a \<Longrightarrow> aead_open C a ct = Inr pkt \<Longrightarrow>
     c_tun c \<Longrightarrow> downlink_read C f c = (Some pkt, c\<lparr>c_down := c_down c + of_nat (length pkt)\<rparr>)"
  by (simp add: downlink_read_def PktTypeData_def PktTypePong_def)

section \<open>What the slave and the data port do not look at\<close>

text \<open>Node selection only wraps, so the carrier stays the same.\<close>

lemma probe_rounds_kind: "same_kind (c_tr (fst (snd (probe_rounds tun rs e b)))) (c_tr e)"
proof (induction rs arbitrary: e b)
  case (Cons r rs)
  obtain f tr where f: "tr_wrap (rd_env r) (c_tr e) PktTypePing (ping_payload tun (rd_sent r)) = (f, tr)"
    by (metis prod.exhaust)
  then have k: "same_kind tr (c_tr e)"
    using tr_wrap_kind[of "rd_env r" "c_tr e" PktTypePing "ping_payload tun (rd_sent r)"] by simp
  have rest: "same_kind (c_tr (fst (snd (probe_rounds tun rs (e\<lparr>c_tr := tr, c_pongs := ch\<rparr>) x)))) (c_tr e)" for ch x
    using Cons.IH[of "e\<lparr>c_tr := tr, c_pongs := ch\<rparr>" x] k by (simp add: same_kind_def)
  show ?case
    using k rest by (cases "rd_end r") (simp_all add: f Let_def case_prod_beta same_kind_def)
qed (simp add: same_kind_def)

lemma probe_addr_kind: "same_kind (c_tr (fst (snd (probe_addr n p tun e)))) (c_tr e)"
proof -
  obtain g e1 where g: "punch_frame (pb_env p) tun e = (g, e1)"
    by (metis prod.exhaust)
  then have "same_kind (c_tr e1) (c_tr e)"
    using tr_wrap_kind[of "pb_env p" "c_tr e" PktTypePunch "four_bytes tun"] by (auto simp: punch_frame_def case_prod_beta)
  then show ?thesis
    using probe_rounds_kind[of tun "take n (pb_rounds p)" "e1\<lparr>c_pongs := Some []\<rparr>" "- 1"] g
    by (simp add: probe_addr_def case_prod_beta same_kind_def)
qed

lemma probe_slaves_kind: "same_kind (c_tr (fst (snd (probe_slaves ps tun e best)))) (c_tr e)"
proof (induction ps arbitrary: e best)
  case (Cons x ps)
  obtain s p where x: "x = (s, p)" by (cases x)
  show ?case
    using Cons.IH[of "fst (snd (probe_addr 3 p tun e))"] probe_addr_kind[of 3 p tun e]
    by (simp add: x case_prod_beta same_kind_def)
qed (simp add: same_kind_def)

text \<open>Only data and keepalives matter on a session's data port.\<close>

lemma serve_data_types:
  "tr_unwrap (ds_tr ds) f = Some (t, p) \<Longrightarrow> t \<notin> {PktTypeData, PktTypeKeepalive} \<Longrightarrow> serve_data cfg now ds f m = m"
  by (simp add: serve_data_def)

lemma stateless_wf: "tr_name a \<noteq> ''quic'' \<Longrightarrow> wf_transport a"
  by (cases a) simp_all

lemma choice_frame_ignored:
  assumes "probe_and_choose c w peer e = (outs @ [(peer, f), x], e')"
    and "probe_slaves (zip (w_slaves w) (ce_probes c)) (w_assigned w) e None = (outs, e1, False, Some b)"
    and "\<not> ce_stop c" and "wf_env (ce_env1 c)" and "tr_name (c_tr e) \<noteq> ''quic''" and "same_kind (c_tr e) (ds_tr ds)"
  shows "serve_data cfg now ds f m = m"
proof -
  obtain a t where b: "b = (a, t)" by (cases b)
  let ?choice = "\<lparr>sc_tunnel_ip = w_assigned w, sc_slave_ip = uip a, sc_slave_port = of_nat (uport a)\<rparr>"
  have f: "f = fst (tr_wrap (ce_env1 c) (c_tr e1) PktTypeControl (choice_marshal ?choice))"
    using assms(1-3) by (simp add: probe_and_choose_def b Let_def case_prod_beta)
  have k: "same_kind (c_tr e1) (ds_tr ds)"
    using probe_slaves_kind[of "zip (w_slaves w) (ce_probes c)" "w_assigned w" e None] assms(2,6)
    by (simp add: same_kind_def)
  moreover have "wf_transport (c_tr e1)"
    using k assms(5,6) by (intro stateless_wf) (simp add: same_kind_def)
  ultimately have "tr_unwrap (ds_tr ds) f = Some (PktTypeControl, choice_marshal ?choice)"
    using tr_unwrap_wrap[OF assms(4), of "c_tr e1" PktTypeControl "choice_marshal ?choice"] tr_unwrap_kind f by metis
  then show ?thesis
    by (rule serve_data_types) (simp add: pkt_types)
qed

section \<open>A concrete handshake\<close>

definition sample_dial_env :: dial_env where
  "sample_dial_env = \<lparr>de_seed = replicate 16 3, de_resolve = (\<lambda>_. Some \<lparr>uip = [198, 51, 100, 1], uport = 7000\<rparr>),
     de_dial_ok = True, de_nonce = Some (replicate 16 5), de_unix = 1700000000, de_wrap = sample_env,
     de_send_ok = True, de_reply = None, de_rtt = 20\<rparr>"

lemma sample_dial_ready:
  "dial_ready sample_dial_env ''vpn.example'' ''cs2'' 0 CS2 \<lparr>uip = [198, 51, 100, 1], uport = 7000\<rparr> (replicate 16 5)"
  by (simp add: dial_ready_def sample_dial_env_def by_name_def)

lemma sample_master_ready:
  "master_ready sample_cfg sample_henv 1700000000 (replicate 16 5) [10, 8, 0, 2] sample_addr sample_up"
  using sample_pick sample_alloc sample_env_ok master_invD(1)[OF sample_up_inv]
  by (simp add: master_ready_def sample_up_fields cache_inv_def to4_def hello_in_window_iff)
     (simp add: sample_henv_def hello_in_window_iff)

definition path_engine :: engine where
  "path_engine = new_engine\<lparr>c_tun := True, c_slave_aead := Some (sample_aead (session_key [] [10, 8, 0, 2]))\<rparr>"

lemma path_engine_fields:
  "c_tr path_engine = CS2" "c_slave_aead path_engine = Some (sample_aead (session_key [] [10, 8, 0, 2]))" "c_tun path_engine"
  by (simp_all add: path_engine_def new_engine_def)

section \<open>Properties\<close>

text \<open>C1. The handshake from the client's dial to a session on both sides: with the token the two share, a
  clock in the window, a fresh nonce, a slave and a free address, the one frame the dial sends
  makes the master open a session for the sender's address and answer with one datagram, last of
  what it sends; the dial that reads it returns the welcome with the session's tunnel address, its
  data port and its slave, and the key the client derives from it is the session's.\<close>

theorem handshake_end_to_end:
  assumes "dial_ready d host car port tr addr n" and "c_token e = mc_token cfg"
    and "master_ready cfg h (de_unix d) n tun su m" and "wf_transport mtr" and "same_kind tr mtr"
  shows "\<exists>f mtr' m' es g r p.
      fst (dial_and_handshake d host car port e) = Some (addr, f)
    \<and> serve cfg h True src f mtr m = Some (mtr', m')
    \<and> events (world m') = events (world m) @ es @ [Datagram src g]
    \<and> snd (dial_and_handshake (d\<lparr>de_reply := Some g\<rparr>) host car port e) = Inr r
    \<and> find_tun (ip_string (w_assigned (hr_welcome r))) m' = Some p \<and> live m' p
    \<and> s_tun (heap m' ! p) = w_assigned (hr_welcome r) \<and> s_client (heap m' ! p) = src
    \<and> s_key (heap m' ! p) = session_key (c_token e) (w_assigned (hr_welcome r))
    \<and> w_data_port (hr_welcome r) = (case he_port h of None \<Rightarrow> 0 | Some q \<Rightarrow> of_nat q)
    \<and> w_slave_ip (hr_welcome r) = put_ip4 (uip su) \<and> w_slave_port (hr_welcome r) = of_nat (uport su)"
proof -
  obtain j where "handshake_joins cfg h d host car port e addr src tr mtr tun su m j"
    using handshake_joined[OF assms] by blast
  then show ?thesis
    by (auto simp: handshake_joins_def
        intro!: exI[of _ "j_frame j"] exI[of _ "j_reply j"] exI[of _ "j_result j"] exI[of _ "length (heap m)"])
qed

theorem handshake_end_to_end_witness:
  "\<exists>f mtr' m' g r. fst (dial_and_handshake sample_dial_env ''vpn.example'' ''cs2'' 0 new_engine)
       = Some (\<lparr>uip = [198, 51, 100, 1], uport = 7000\<rparr>, f)
     \<and> serve sample_cfg sample_henv True sample_addr f CS2 sample_up = Some (mtr', m')
     \<and> snd (dial_and_handshake (sample_dial_env\<lparr>de_reply := Some g\<rparr>) ''vpn.example'' ''cs2'' 0 new_engine) = Inr r
     \<and> w_data_port (hr_welcome r) = 40000"
  using handshake_end_to_end[OF sample_dial_ready _ _ _ _, of new_engine sample_cfg sample_henv "[10, 8, 0, 2]"
      sample_addr sample_up CS2 sample_addr] sample_master_ready
  by (simp add: new_engine_def sample_dial_env_def same_kind_def) (auto simp: sample_henv_def)

text \<open>C4. Downlink from end to end: an IPv4 packet of the network stack for the tunnel address of a live
  session leaves the master as one datagram to the session's slave, the slave turns it into one
  datagram to the client's address, and the client engine with that session's key and carrier
  writes exactly that packet to its adapter and counts its bytes.\<close>

theorem downlink_end_to_end:
  assumes "cipher_ok (mc_cipher cfg)" and "master_inv token all m" and "live m p"
    and "20 \<le> length pkt" and "length pkt \<le> 65000" and "drop_bit 4 (pkt ! 0) = 4"
    and "slice 16 20 pkt = s_tun (heap m ! p)"
    and "dp_inv (dp (world m))" and "dslaves (dp (world m)) (s_slave (heap m ! p)) = Some k"
    and "sd_aead (dconns (dp (world m)) ! k) = Some a" and "a_counter a \<le> 0xFFFFFFFF"
    and "a_key da = slave_key (dkey (dp (world m))) (s_slave (heap m ! p))"
    and "slave_inv s" and "stoken s = token" and "map_of (ssessions s) (ip_string (s_tun (heap m ! p))) = Some q"
    and "cs_tun (sheap s ! q) = s_tun (heap m ! p)" and "cs_aead (sheap s ! q) = Some b"
    and "a_counter b \<le> 0xFFFFFFFF" and "cs_addr (sheap s ! q) = Some dst"
    and "wf_env e" and "same_kind (str s) tr" and "a_key ca = session_key token (s_tun (heap m ! p))"
    and "c_tr c = tr" and "c_slave_aead c = Some ca" and "c_tun c"
  shows "\<exists>g m' f s'. ns_output cfg pkt m = Some (Some (SentTo (sd_addr (dconns (dp (world m)) ! k)) g), m')
    \<and> data_plane_read (mc_cipher cfg) da e g s = ([ToClient dst f], s')
    \<and> downlink_read (mc_cipher cfg) f c = (Some pkt, c\<lparr>c_down := c_down c + of_nat (length pkt)\<rparr>)"
proof -
  obtain g m' f ct s' where "ns_output cfg pkt m = Some (Some (SentTo (sd_addr (dconns (dp (world m)) ! k)) g), m')"
      "data_plane_read (mc_cipher cfg) da e g s = ([ToClient dst f], s')"
      "tr_unwrap tr f = Some (PktTypeData, ct)" "aead_open (mc_cipher cfg) ca ct = Inr pkt"
    using downlink_path[OF assms(1-22)] by blast
  then show ?thesis
    using downlink_read_data[of c f ct ca "mc_cipher cfg" pkt] assms(23-25) by blast
qed

theorem downlink_end_to_end_witness:
  "\<exists>m g m' f. live m 0 \<and> ns_output sample_cfg path_packet m = Some (Some (SentTo sample_addr g), m')
     \<and> fst (data_plane_read null_cipher (sample_aead path_relay_key) sample_env g path_slave) = [ToClient path_client f]
     \<and> fst (downlink_read null_cipher f path_engine) = Some path_packet"
proof -
  obtain tr' m where m: "(mstep sample_cfg)\<^sup>*\<^sup>* (new_master (mc_token sample_cfg) sample_pool) m" "live m 0"
    "s_tun (heap m ! 0) = [10, 8, 0, 2]" "s_slave (heap m ! 0) = ''a''" "dp (world m) = dp (world sample_up)"
    by (rule sample_session)
  have inv: "master_inv [] (pool_free sample_pool) m"
    using sample_uplinks[OF m(1)] by simp
  have sess: "map_of (ssessions path_slave) (ip_string (s_tun (heap m ! 0))) = Some 0"
    "cs_tun (sheap path_slave ! 0) = s_tun (heap m ! 0)"
    "cs_aead (sheap path_slave ! 0) = Some (sample_aead (session_key [] [10, 8, 0, 2]))"
    "cs_addr (sheap path_slave ! 0) = Some path_client" "same_kind (str path_slave) CS2"
    by (simp_all add: path_slave_fields sample_slave_fields m(3) path_client_def same_kind_def)
  have master: "dp_inv (dp (world m))" "dslaves (dp (world m)) (s_slave (heap m ! 0)) = Some 0"
    "sd_aead (dconns (dp (world m)) ! 0) = Some (sample_aead path_relay_key)"
    "sd_addr (dconns (dp (world m)) ! 0) = sample_addr"
    "slave_key (dkey (dp (world m))) (s_slave (heap m ! 0)) = path_relay_key"
    by (simp_all add: m(4,5) sample_dp_up sample_dp_up_inv)
  show ?thesis
    using downlink_end_to_end[OF _ inv m(2) _ _ _ _ master(1-3) _ _ path_slave_inv path_slave_fields(6) sess(1-3)
        _ sess(4) _ sess(5) _ path_engine_fields, of sample_cfg path_packet "sample_aead path_relay_key" sample_env]
    by (simp add: null_cipher_ok path_packet_facts m(2,3) master(4,5) path_aead) (metis fst_conv m(2))
qed



text \<open>The slave choice is lost after the move to the data port: node selection is handed the connection of
  the uplink, so the choice goes to the session's data port, and the master's socket there ignores
  control packets: its session keeps the slave it had, while the client already talks to another.\<close>

theorem slave_choice_lost:
  assumes "bring_up u r e0 = ((None, acts), e)" and "hr_carrier r \<noteq> ''quic''" and "tr_name (hr_tr r) \<noteq> ''quic''"
    and "w_data_port (hr_welcome r) \<noteq> 0" and "w_data_port (hr_welcome r) \<noteq> of_nat (uport (hr_master r))"
    and "c_master e = Some peer" and "length (w_slaves (hr_welcome r)) > 1"
    and "probe_slaves (zip (w_slaves (hr_welcome r)) (ce_probes c)) (w_assigned (hr_welcome r)) e None
      = (outs, e1, False, Some (a, t))"
    and "\<not> ce_stop c" and "wf_env (ce_env1 c)" and "same_kind (hr_tr r) (ds_tr ds)"
  shows "\<exists>f g e'. select_node True c r peer e = (outs @ [(peer, f), (a, g)], e')
    \<and> peer = \<lparr>uip = uip (hr_master r), uport = unat (w_data_port (hr_welcome r))\<rparr>
    \<and> c_slave_addr e' = Some a \<and> serve_data cfg now ds f m = m"
proof -
  have e: "c_tr e = hr_tr r" "c_master e = Some (uplink_addr (hr_carrier r = ''quic'') r)"
    by (rule bring_up_ok[OF assms(1)], simp)+
  obtain f g e' where s: "probe_and_choose c (hr_welcome r) peer e = (outs @ [(peer, f), (a, g)], e')"
      "c_slave_addr e' = Some a"
    using assms(8,9) by (auto simp: probe_and_choose_def Let_def case_prod_beta)
  moreover have "serve_data cfg now ds f m = m"
    using assms(3,11) by (intro choice_frame_ignored[OF s(1) assms(8-10)]) (simp_all add: e(1))
  moreover have "peer = \<lparr>uip = uip (hr_master r), uport = unat (w_data_port (hr_welcome r))\<rparr>"
    using e(2) assms(2,4-6) by (simp add: uplink_addr_def Let_def)
  ultimately show ?thesis
    using assms(7) by (simp add: select_node_def)
qed

theorem slave_choice_lost_witness:
  "\<exists>acts e outs f g e'. bring_up sample_upenv sample_result new_engine = ((None, acts), e)
     \<and> select_node True \<lparr>ce_probes = [sample_probe 5000000, sample_probe 3000000], ce_stop = False,
         ce_env1 = sample_env, ce_env2 = sample_env\<rparr> sample_result \<lparr>uip = [198, 51, 100, 1], uport = 40000\<rparr> e
       = (outs @ [(\<lparr>uip = [198, 51, 100, 1], uport = 40000\<rparr>, f), g], e')
     \<and> serve_data sample_cfg 0 \<lparr>ds_port = 40000, ds_sess = 0, ds_aead = sample_aead [], ds_tr = CS2\<rparr> f sample_up = sample_up"
proof -
  let ?c = "\<lparr>ce_probes = [sample_probe 5000000, sample_probe 3000000], ce_stop = False,
         ce_env1 = sample_env, ce_env2 = sample_env\<rparr>"
  obtain acts e where b: "bring_up sample_upenv sample_result new_engine = ((None, acts), e)"
    using sample_bring_up by blast
  have e: "c_pongs e = Some []" "c_tr e = CS2" "c_master e = Some \<lparr>uip = [198, 51, 100, 1], uport = 40000\<rparr>"
    by (rule bring_up_ok[OF b], simp add: sample_result_def uplink_addr_def two_slaves_def Let_def)+
  obtain outs e1 where p: "probe_slaves (zip (w_slaves (hr_welcome sample_result)) (ce_probes ?c))
      (w_assigned (hr_welcome sample_result)) e None = (outs, e1, False, Some (\<lparr>uip = [192, 0, 2, 10], uport = 7\<rparr>, 3))"
    using sample_two_probes[OF e(1,2)] by (auto simp: sample_result_def)
  show ?thesis
    using slave_choice_lost[OF b _ _ _ _ e(3) _ p, of "\<lparr>ds_port = 40000, ds_sess = 0, ds_aead = sample_aead [], ds_tr = CS2\<rparr>"
        sample_cfg 0 sample_up] b
    by (auto simp: sample_result_def two_slaves_def same_kind_def)
qed

text \<open>Keepalives of a QUIC session reach nobody: the keepalive goes to the slave, which drops every type
  it does not know without an answer and without a change, and nothing is sent to the master, so a
  session that only keeps alive is never touched and is reaped.\<close>

theorem quic_keepalive_dropped:
  assumes "c_quic e" and "c_slave_addr e = Some a" and "c_slave_open e" and "wf_env env" and "wf_transport (c_tr e)"
    and "same_kind (c_tr e) (str s)" and "keepalive_frame env e = (f, e')"
  shows "keepalive_tick f e' = ToSlave a f \<and> punch_read C env' src f s = ([], s)"
proof -
  have f: "f = fst (tr_wrap env (c_tr e) PktTypeKeepalive [])" "e' = e\<lparr>c_tr := c_tr e'\<rparr>"
    using assms(7) by (auto simp: keepalive_frame_def split: prod.splits)
  have "tr_unwrap (str s) f = Some (PktTypeKeepalive, [])"
    using tr_unwrap_wrap[OF assms(4,5), of PktTypeKeepalive "[]"] tr_unwrap_kind[OF assms(6), of f] f(1) by simp
  then have "tr_unwrap (str s) (take 2048 f) = Some (PktTypeKeepalive, [])"
    using frame_uncut[OF assms(4,5), of "[]" PktTypeKeepalive] f(1) by simp
  then have "punch_read C env' src f s = ([], s)"
    by (rule punch_read_types) (simp add: pkt_types)
  moreover have "keepalive_tick f e' = ToSlave a f"
    using assms(1-3) by (subst f(2)) (simp add: keepalive_tick_def send_uplink_def)
  ultimately show ?thesis by blast
qed

theorem quic_keepalive_dropped_witness:
  "\<exists>f e'. keepalive_frame sample_env (new_engine\<lparr>c_quic := True, c_slave_open := True, c_slave_addr := Some sample_addr,
        c_tr := QUIC (new_quic (replicate 16 1))\<rparr>) = (f, e')
     \<and> keepalive_tick f e' = ToSlave sample_addr f
     \<and> punch_read null_cipher sample_env path_client f (path_slave\<lparr>str := QUIC (new_quic (replicate 16 2))\<rparr>)
         = ([], path_slave\<lparr>str := QUIC (new_quic (replicate 16 2))\<rparr>)"
proof -
  let ?e = "new_engine\<lparr>c_quic := True, c_slave_open := True, c_slave_addr := Some sample_addr,
        c_tr := QUIC (new_quic (replicate 16 1))\<rparr>"
  obtain f e' where f: "keepalive_frame sample_env ?e = (f, e')"
    by (metis prod.exhaust)
  have "wf_transport (QUIC (new_quic (replicate 16 1)))"
    using by_name_wf[of "replicate 16 1" "''quic''"] by (simp add: by_name_def)
  then show ?thesis
    using quic_keepalive_dropped[OF _ _ _ _ _ _ f, of sample_addr "path_slave\<lparr>str := QUIC (new_quic (replicate 16 2))\<rparr>"
        null_cipher sample_env path_client] f
    by (simp add: same_kind_def)
qed

end
