(* ===== verification/Config.thy ===== *)
theory Config
  imports NetAddr
begin

text \<open>
  Configuration, \<open>common/config\<close>: the configuration records with their defaults, the token check and
  the loading of files. Base64 is the standard encoding of \<open>encoding/base64\<close>; what
  \<open>encoding/json\<close> makes of a file is an argument.
\<close>

section \<open>Base64\<close>

definition b64_digit :: "nat \<Rightarrow> char" where
  "b64_digit n = char_of (if n < 26 then n + 65 else if n < 52 then n + 71 else if n < 62 then n - 4
     else if n = 62 then 43 else 47)"

definition b64_value :: "char \<Rightarrow> nat option" where
  "b64_value c = (let n = of_char c in
     if 65 \<le> n \<and> n \<le> 90 then Some (n - 65) else if 97 \<le> n \<and> n \<le> 122 then Some (n - 71)
     else if 48 \<le> n \<and> n \<le> 57 then Some (n + 4) else if n = 43 then Some 62 else if n = 47 then Some 63 else None)"

fun encode64 :: "bytes \<Rightarrow> string" where
  "encode64 [] = []"
| "encode64 [a] = [b64_digit (unat a div 4), b64_digit (unat a mod 4 * 16), CHR ''='', CHR ''='']"
| "encode64 [a, b] = [b64_digit (unat a div 4), b64_digit (unat a mod 4 * 16 + unat b div 16),
     b64_digit (unat b mod 16 * 4), CHR ''='']"
| "encode64 (a # b # c # bs) = [b64_digit (unat a div 4), b64_digit (unat a mod 4 * 16 + unat b div 16),
     b64_digit (unat b mod 16 * 4 + unat c div 64), b64_digit (unat c mod 64)] @ encode64 bs"

text \<open>Quanta of four after the newlines are gone; the bits behind the padding are not checked.\<close>

fun decode_quanta :: "string \<Rightarrow> bytes option" where
  "decode_quanta [] = Some []"
| "decode_quanta (a # b # c # d # s) =
     (case (b64_value a, b64_value b) of
        (Some x, Some y) \<Rightarrow>
          (if c = CHR ''='' then
             (if d = CHR ''='' \<and> s = [] then Some [of_nat (x * 4 + y div 16)] else None)
           else case b64_value c of
             None \<Rightarrow> None
           | Some z \<Rightarrow>
               if d = CHR ''='' then
                 (if s = [] then Some [of_nat (x * 4 + y div 16), of_nat (y mod 16 * 16 + z div 4)] else None)
               else (case (b64_value d, decode_quanta s) of
                   (Some w, Some bs) \<Rightarrow> Some ([of_nat (x * 4 + y div 16), of_nat (y mod 16 * 16 + z div 4),
                       of_nat (z mod 4 * 64 + w)] @ bs)
                 | _ \<Rightarrow> None))
      | _ \<Rightarrow> None)"
| "decode_quanta _ = None"

definition decode64 :: "string \<Rightarrow> bytes option" where
  "decode64 s = decode_quanta (filter (\<lambda>c. c \<noteq> CHR 0x0A \<and> c \<noteq> CHR 0x0D) s)"

section \<open>Tokens\<close>

datatype token_error = TokenEmpty | TokenNotBase64 | TokenShort nat

definition min_token_bytes :: nat where "min_token_bytes = 16"

definition validate_token :: "string \<Rightarrow> token_error option" where
  "validate_token tok =
     (if tok = [] then Some TokenEmpty
      else case decode64 tok of
        None \<Rightarrow> Some TokenNotBase64
      | Some raw \<Rightarrow> if length raw < min_token_bytes then Some (TokenShort (length raw)) else None)"

section \<open>Records\<close>

record control_port =
  cp_port :: int
  cp_transport :: string

record slave_entry =
  se_id :: string
  se_address :: string

record master_config =
  mf_listen_udp :: string
  mf_listen_control :: string
  mf_subnet :: string
  mf_tunnel_ip :: string
  mf_token :: string
  mf_server_id :: string
  mf_slaves :: "slave_entry list"
  mf_cert :: string
  mf_key :: string
  mf_listen_dp :: string
  mf_dns_mode :: string
  mf_dns_upstream :: string
  mf_dns_doh :: string
  mf_suppress :: "bool option"
  mf_metrics :: string
  mf_transport :: string
  mf_ports :: "control_port list"
  mf_log :: string

record slave_config =
  sf_master :: string
  sf_listen_udp :: string
  sf_listen_dp :: string
  sf_token :: string
  sf_ca :: string
  sf_log :: string
  sf_id :: string
  sf_transport :: string
  sf_master_dp :: string

record profile =
  pf_name :: string
  pf_master :: string
  pf_token :: string
  pf_auto :: bool
  pf_transport :: string
  pf_ports :: "int list"

record ui_prefs =
  up_theme :: string
  up_colors :: "string list"
  up_lang :: string

record client_config =
  cf_profiles :: "profile list"
  cf_active :: string
  cf_dns :: string
  cf_log :: string
  cf_ui :: "ui_prefs option"

definition default_master_config :: master_config where
  "default_master_config = \<lparr>mf_listen_udp = ''0.0.0.0:7000'', mf_listen_control = ''0.0.0.0:7001'',
     mf_subnet = ''10.8.0.0/24'', mf_tunnel_ip = ''10.8.0.1'', mf_token = [], mf_server_id = [], mf_slaves = [],
     mf_cert = [], mf_key = [], mf_listen_dp = [], mf_dns_mode = ''plain'', mf_dns_upstream = ''8.8.8.8:53'',
     mf_dns_doh = [], mf_suppress = Some True, mf_metrics = ''127.0.0.1:9090'', mf_transport = [], mf_ports = [],
     mf_log = ''info''\<rparr>"

definition default_slave_config :: slave_config where
  "default_slave_config = \<lparr>sf_master = [], sf_listen_udp = ''0.0.0.0:7002'', sf_listen_dp = ''0.0.0.0:7004'',
     sf_token = [], sf_ca = [], sf_log = ''info'', sf_id = [], sf_transport = [], sf_master_dp = []\<rparr>"

section \<open>Loading\<close>

text \<open>The file is \<open>None\<close> when it cannot be opened; \<open>decode\<close> is the JSON decoder on its content.\<close>

datatype load_error = NoFile | BadJson | BadToken token_error

definition load_checked :: "('c \<Rightarrow> string) \<Rightarrow> (bytes \<Rightarrow> 'c option) \<Rightarrow> bytes option \<Rightarrow> load_error + 'c" where
  "load_checked token decode file =
     (case file of
        None \<Rightarrow> Inl NoFile
      | Some b \<Rightarrow>
          (case decode b of
             None \<Rightarrow> Inl BadJson
           | Some c \<Rightarrow> (case validate_token (token c) of None \<Rightarrow> Inr c | Some e \<Rightarrow> Inl (BadToken e))))"

definition load_master_config :: "(bytes \<Rightarrow> master_config option) \<Rightarrow> bytes option \<Rightarrow> load_error + master_config" where
  "load_master_config decode file = load_checked mf_token decode file"

definition load_slave_config :: "(bytes \<Rightarrow> slave_config option) \<Rightarrow> bytes option \<Rightarrow> load_error + slave_config" where
  "load_slave_config decode file = load_checked sf_token decode file"

definition load_client_config :: "(bytes \<Rightarrow> client_config option) \<Rightarrow> bytes option \<Rightarrow> load_error + client_config" where
  "load_client_config decode file =
     (case file of None \<Rightarrow> Inl NoFile
      | Some b \<Rightarrow> (case decode b of None \<Rightarrow> Inl BadJson | Some c \<Rightarrow> Inr c))"

section \<open>The encoding is read back\<close>

lemma b64_value_digit: "n < 64 \<Longrightarrow> b64_value (b64_digit n) = Some n"
  by (auto simp: b64_value_def b64_digit_def Let_def)

lemma b64_value_pad: "b64_value (CHR ''='') = None"
  by (simp add: b64_value_def)

lemma b64_digit_plain: "n < 64 \<Longrightarrow> b64_digit n \<noteq> CHR ''='' \<and> b64_digit n \<noteq> CHR 0x0A \<and> b64_digit n \<noteq> CHR 0x0D"
  using b64_value_digit[of n] by (auto simp: b64_value_pad b64_value_def)

lemma small_parts:
  fixes a :: byte
  shows "unat a div 16 < 16" "unat a div 64 < 4" "unat a div 4 < 64"
  using unat_byte_less[of a] by simp_all

lemma split_parts:
  "k < 16 \<Longrightarrow> (m * 16 + k) div 16 = (m :: nat)" "k < 16 \<Longrightarrow> (m * 16 + k) mod 16 = k"
  "k < 4 \<Longrightarrow> (m * 4 + k) div 4 = m" "k < 4 \<Longrightarrow> (m * 4 + k) mod 4 = k"
  by simp_all

lemma bytes_of_quantum:
  fixes a b c :: byte
  shows "of_nat (unat a div 4 * 4 + (unat a mod 4 * 16 + unat b div 16) div 16) = a"
    "of_nat ((unat a mod 4 * 16 + unat b div 16) mod 16 * 16 + (unat b mod 16 * 4 + unat c div 64) div 4) = b"
    "of_nat ((unat b mod 16 * 4 + unat c div 64) mod 4 * 64 + unat c mod 64) = c"
  unfolding split_parts(1,2)[OF small_parts(1)] split_parts(3,4)[OF small_parts(2)] div_mult_mod_eq
  by simp_all

lemma quantum_digits:
  fixes a b c :: byte
  shows "unat a div 4 < 64" "unat a mod 4 * 16 + unat b div 16 < 64" "unat b mod 16 * 4 + unat c div 64 < 64"
    "unat c mod 64 < 64" "unat a mod 4 * 16 < 64" "unat b mod 16 * 4 < 64"
proof -
  have "unat a mod 4 < 4" "unat b mod 16 < 16" by simp_all
  then show "unat a mod 4 * 16 + unat b div 16 < 64" "unat b mod 16 * 4 + unat c div 64 < 64"
    "unat a mod 4 * 16 < 64" "unat b mod 16 * 4 < 64"
    using small_parts(1)[of b] small_parts(2)[of c] by linarith+
qed (simp_all add: small_parts)

lemma encode64_plain: "c \<in> set (encode64 bs) \<Longrightarrow> c \<noteq> CHR 0x0A \<and> c \<noteq> CHR 0x0D"
  by (induction bs rule: encode64.induct) (auto simp: b64_digit_plain quantum_digits)

lemma decode_encode64: "decode_quanta (encode64 bs) = Some bs"
proof (induction bs rule: encode64.induct)
  case (2 a)
  then show ?case
    using bytes_of_quantum(1)[where a = a and b = 0] by (simp add: b64_value_digit quantum_digits)
next
  case (3 a b)
  then show ?case
    using bytes_of_quantum(1)[where a = a and b = b] bytes_of_quantum(2)[where a = a and b = b and c = 0]
    by (simp add: b64_value_digit b64_digit_plain quantum_digits)
next
  case (4 a b c bs)
  then show ?case
    using bytes_of_quantum(1)[of a b] bytes_of_quantum(2)[of a b c] bytes_of_quantum(3)[of b c]
    by (simp add: b64_value_digit b64_digit_plain quantum_digits)
qed simp

lemma base64_inverse: "decode64 (encode64 bs) = Some bs"
proof -
  have "filter (\<lambda>c. c \<noteq> CHR 0x0A \<and> c \<noteq> CHR 0x0D) (encode64 bs) = encode64 bs"
    by (rule filter_True) (simp add: encode64_plain)
  then show ?thesis by (simp add: decode64_def decode_encode64)
qed

lemma encode64_nil [simp]: "encode64 bs = [] \<longleftrightarrow> bs = []"
  by (cases bs rule: encode64.cases) simp_all

end
