(* ===== verification/Netfw.thy ===== *)
theory Netfw
  imports Prelude
begin

text \<open>
  The server's firewall abstraction, \<open>common/netfw\<close>: the detection of a backend and what each
  backend runs for each operation. A command is a program and its arguments; what the system
  answers to a command after those run so far is an argument, \<open>None\<close> for a failed command.
\<close>

section \<open>Commands\<close>

type_synonym cmd = "string \<times> string list"

type_synonym runner = "cmd list \<Rightarrow> cmd \<Rightarrow> string option"

definition run_cmd :: "runner \<Rightarrow> cmd \<Rightarrow> cmd list \<Rightarrow> bool \<times> cmd list" where
  "run_cmd run c h = (run h c \<noteq> None, h @ [c])"

text \<open>Commands run in order up to the first that fails.\<close>

fun run_all :: "runner \<Rightarrow> cmd list \<Rightarrow> cmd list \<Rightarrow> bool \<times> cmd list" where
  "run_all run [] h = (True, h)"
| "run_all run (c # cs) h =
     (case run_cmd run c h of (ok, h') \<Rightarrow> if ok then run_all run cs h' else (False, h'))"

text \<open>\<open>strings.Contains\<close>.\<close>

fun contains :: "string \<Rightarrow> string \<Rightarrow> bool" where
  "contains [] p = (p = [])"
| "contains (c # cs) p = (take (length p) (c # cs) = p \<or> contains cs p)"

section \<open>Backends\<close>

datatype proto = UDP | TCP

fun proto_name :: "proto \<Rightarrow> string" where
  "proto_name UDP = ''udp''"
| "proto_name TCP = ''tcp''"

datatype backend = Nft | Firewalld | Ufw | Noop

fun backend_name :: "backend \<Rightarrow> string" where
  "backend_name Nft = ''nft''"
| "backend_name Firewalld = ''firewalld''"
| "backend_name Ufw = ''ufw''"
| "backend_name Noop = ''noop''"

definition detect :: "runner \<Rightarrow> cmd list \<Rightarrow> backend \<times> cmd list" where
  "detect run h =
     (let c1 = (''nft'', [''--version'']); c2 = (''firewall-cmd'', [''--state'']); c3 = (''ufw'', [''status'']);
          h1 = h @ [c1]; h2 = h1 @ [c2]; h3 = h2 @ [c3] in
      if run h c1 \<noteq> None then (Nft, h1)
      else if (case run h1 c2 of None \<Rightarrow> False | Some out \<Rightarrow> contains out ''running'') then (Firewalld, h2)
      else if run h2 c3 \<noteq> None then (Ufw, h3)
      else (Noop, h3))"

definition tag :: string where "tag = ''mini-tun-asymmetric''"
definition nft_family :: string where "nft_family = ''inet''"
definition nft_table :: string where "nft_table = ''mini_tun_asymmetric''"
definition nft_chain :: string where "nft_chain = ''input''"
definition nft_dyn_set :: string where "nft_dyn_set = ''dyn_dports''"

definition describe_port :: "proto \<Rightarrow> int \<Rightarrow> string" where
  "describe_port p port = proto_name p @ ''/'' @ sprint port"

definition port_proto :: "int \<Rightarrow> proto \<Rightarrow> string" where
  "port_proto port p = sprint port @ ''/'' @ proto_name p"

definition quote :: "string \<Rightarrow> string" where
  "quote s = [CHR 0x22] @ s @ [CHR 0x22]"

definition nft :: "string list \<Rightarrow> cmd" where "nft args = (''nft'', args)"
definition fw :: "string list \<Rightarrow> cmd" where "fw args = (''firewall-cmd'', args)"
definition ufw :: "string list \<Rightarrow> cmd" where "ufw args = (''ufw'', args)"

section \<open>nftables\<close>

definition nft_delete :: cmd where
  "nft_delete = nft [''delete'', ''table'', nft_family, nft_table]"

definition nft_reconcile :: "runner \<Rightarrow> cmd list \<Rightarrow> bool \<times> cmd list" where
  "nft_reconcile run h = (True, snd (run_cmd run nft_delete h))"

definition nft_setup :: "cmd list" where
  "nft_setup =
       [nft [''add'', ''table'', nft_family, nft_table],
        nft ([''add'', ''chain'', nft_family, nft_table, nft_chain, ''{'', ''type'', ''filter'', ''hook'', ''input'',
          ''priority'', ''0'', '';'', ''policy'', ''accept'', '';'', ''}'']),
        nft ([''add'', ''set'', nft_family, nft_table, nft_dyn_set, ''{'', ''type'', ''inet_service'', '';'', ''}'']),
        nft ([''add'', ''rule'', nft_family, nft_table, nft_chain, ''udp'', ''dport'', ''@'' @ nft_dyn_set, ''accept'',
          ''comment'', quote (tag @ ''-dyn'')])]"

definition nft_ensure :: "runner \<Rightarrow> cmd list \<Rightarrow> bool \<times> cmd list" where
  "nft_ensure run h = run_all run nft_setup (snd (run_cmd run nft_delete h))"

definition nft_open :: "proto \<Rightarrow> int \<Rightarrow> cmd" where
  "nft_open p port = nft [''add'', ''rule'', nft_family, nft_table, nft_chain, proto_name p, ''dport'', sprint port,
     ''accept'', ''comment'', quote (tag @ ''-'' @ describe_port p port)]"

definition nft_add_dyn :: "int \<Rightarrow> cmd" where
  "nft_add_dyn port = nft [''add'', ''element'', nft_family, nft_table, nft_dyn_set, ''{'', sprint port, ''}'']"

definition nft_del_dyn :: "int \<Rightarrow> cmd" where
  "nft_del_dyn port = nft [''delete'', ''element'', nft_family, nft_table, nft_dyn_set, ''{'', sprint port, ''}'']"

section \<open>firewalld\<close>

definition firewalld_open :: "proto \<Rightarrow> int \<Rightarrow> cmd list" where
  "firewalld_open p port =
     [fw [''--permanent'', ''--add-port'', port_proto port p], fw [''--add-port'', port_proto port p], fw [''--reload'']]"

text \<open>The first two failures of closing are ignored.\<close>

definition firewalld_close :: "runner \<Rightarrow> proto \<Rightarrow> int \<Rightarrow> cmd list \<Rightarrow> bool \<times> cmd list" where
  "firewalld_close run p port h =
     run_cmd run (fw [''--reload''])
       (h @ [fw [''--permanent'', ''--remove-port'', port_proto port p], fw [''--remove-port'', port_proto port p]])"

definition firewalld_add_dyn :: "int \<Rightarrow> cmd" where
  "firewalld_add_dyn port = fw [''--add-port'', port_proto port UDP]"

definition firewalld_del_dyn :: "int \<Rightarrow> cmd" where
  "firewalld_del_dyn port = fw [''--remove-port'', port_proto port UDP]"

section \<open>ufw\<close>

definition ufw_open :: "proto \<Rightarrow> int \<Rightarrow> cmd" where
  "ufw_open p port = ufw [''allow'', port_proto port p]"

definition ufw_close :: "proto \<Rightarrow> int \<Rightarrow> cmd" where
  "ufw_close p port = ufw [''delete'', ''allow'', port_proto port p]"

definition ufw_add_dyn :: "int \<Rightarrow> cmd" where
  "ufw_add_dyn port = ufw [''allow'', port_proto port UDP]"

definition ufw_del_dyn :: "int \<Rightarrow> cmd" where
  "ufw_del_dyn port = ufw [''delete'', ''allow'', port_proto port UDP]"

section \<open>The interface\<close>

definition fw_reconcile :: "runner \<Rightarrow> backend \<Rightarrow> cmd list \<Rightarrow> bool \<times> cmd list" where
  "fw_reconcile run b h = (case b of Nft \<Rightarrow> nft_reconcile run h | _ \<Rightarrow> (True, h))"

definition fw_ensure :: "runner \<Rightarrow> backend \<Rightarrow> cmd list \<Rightarrow> bool \<times> cmd list" where
  "fw_ensure run b h = (case b of Nft \<Rightarrow> nft_ensure run h | _ \<Rightarrow> (True, h))"

definition fw_teardown :: "runner \<Rightarrow> backend \<Rightarrow> cmd list \<Rightarrow> bool \<times> cmd list" where
  "fw_teardown run b h = (case b of Nft \<Rightarrow> run_cmd run nft_delete h | _ \<Rightarrow> (True, h))"

definition fw_open :: "runner \<Rightarrow> backend \<Rightarrow> proto \<Rightarrow> int \<Rightarrow> cmd list \<Rightarrow> bool \<times> cmd list" where
  "fw_open run b p port h =
     (case b of
        Nft \<Rightarrow> run_cmd run (nft_open p port) h
      | Firewalld \<Rightarrow> run_all run (firewalld_open p port) h
      | Ufw \<Rightarrow> run_cmd run (ufw_open p port) h
      | Noop \<Rightarrow> (True, h))"

definition fw_close :: "runner \<Rightarrow> backend \<Rightarrow> proto \<Rightarrow> int \<Rightarrow> cmd list \<Rightarrow> bool \<times> cmd list" where
  "fw_close run b p port h =
     (case b of
        Nft \<Rightarrow> (True, h)
      | Firewalld \<Rightarrow> firewalld_close run p port h
      | Ufw \<Rightarrow> run_cmd run (ufw_close p port) h
      | Noop \<Rightarrow> (True, h))"

definition fw_add_dyn :: "runner \<Rightarrow> backend \<Rightarrow> int \<Rightarrow> cmd list \<Rightarrow> bool \<times> cmd list" where
  "fw_add_dyn run b port h =
     (case b of
        Nft \<Rightarrow> run_cmd run (nft_add_dyn port) h
      | Firewalld \<Rightarrow> run_cmd run (firewalld_add_dyn port) h
      | Ufw \<Rightarrow> run_cmd run (ufw_add_dyn port) h
      | Noop \<Rightarrow> (True, h))"

definition fw_del_dyn :: "runner \<Rightarrow> backend \<Rightarrow> int \<Rightarrow> cmd list \<Rightarrow> bool \<times> cmd list" where
  "fw_del_dyn run b port h =
     (case b of
        Nft \<Rightarrow> run_cmd run (nft_del_dyn port) h
      | Firewalld \<Rightarrow> run_cmd run (firewalld_del_dyn port) h
      | Ufw \<Rightarrow> run_cmd run (ufw_del_dyn port) h
      | Noop \<Rightarrow> (True, h))"

text \<open>A run of operations, whatever each returns.\<close>

datatype fw_op = Reconcile | Ensure | Teardown | OpenPort proto int | ClosePort proto int | AddDyn int | DelDyn int

fun fw_do :: "runner \<Rightarrow> backend \<Rightarrow> fw_op \<Rightarrow> cmd list \<Rightarrow> bool \<times> cmd list" where
  "fw_do run b Reconcile h = fw_reconcile run b h"
| "fw_do run b Ensure h = fw_ensure run b h"
| "fw_do run b Teardown h = fw_teardown run b h"
| "fw_do run b (OpenPort p port) h = fw_open run b p port h"
| "fw_do run b (ClosePort p port) h = fw_close run b p port h"
| "fw_do run b (AddDyn port) h = fw_add_dyn run b port h"
| "fw_do run b (DelDyn port) h = fw_del_dyn run b port h"

fun fw_run :: "runner \<Rightarrow> backend \<Rightarrow> fw_op list \<Rightarrow> cmd list \<Rightarrow> cmd list" where
  "fw_run run b [] h = h"
| "fw_run run b (x # xs) h = fw_run run b xs (snd (fw_do run b x h))"

section \<open>Commands stay in the table\<close>

lemma run_cmd_snd [simp]: "snd (run_cmd run c h) = h @ [c]"
  by (simp add: run_cmd_def)

lemma run_all_prefix: "\<exists>cs'. snd (run_all run cs h) = h @ cs' \<and> set cs' \<subseteq> set cs"
proof (induction cs arbitrary: h)
  case (Cons c cs)
  show ?case
  proof (cases "run h c = None")
    case True
    then show ?thesis by (intro exI[of _ "[c]"]) (simp add: run_cmd_def)
  next
    case False
    obtain cs' where "snd (run_all run cs (h @ [c])) = (h @ [c]) @ cs'" "set cs' \<subseteq> set cs"
      using Cons by blast
    with False show ?thesis by (intro exI[of _ "c # cs'"]) (auto simp: run_cmd_def)
  qed
qed simp

definition scoped :: "cmd \<Rightarrow> bool" where
  "scoped c \<longleftrightarrow> fst c = ''nft'' \<and> hd (snd c) \<in> {''add'', ''delete''} \<and> 4 \<le> length (snd c)
     \<and> snd c ! 2 = nft_family \<and> snd c ! 3 = nft_table"

lemma scoped_cmds:
  "scoped nft_delete" "scoped (nft_open p port)" "scoped (nft_add_dyn port)" "scoped (nft_del_dyn port)"
  by (simp_all add: scoped_def nft_delete_def nft_def nft_open_def nft_add_dyn_def nft_del_dyn_def)

lemma nft_setup_scoped: "list_all scoped nft_setup"
  by (simp add: scoped_def nft_setup_def nft_def)

lemma nft_ensure_scoped: "\<exists>cs. snd (nft_ensure run h) = h @ cs \<and> list_all scoped cs"
proof -
  obtain cs where "snd (nft_ensure run h) = (h @ [nft_delete]) @ cs" "set cs \<subseteq> set nft_setup"
    using run_all_prefix[of run nft_setup "h @ [nft_delete]"] by (auto simp: nft_ensure_def)
  then show ?thesis
    using nft_setup_scoped by (intro exI[of _ "nft_delete # cs"]) (auto simp: scoped_cmds list_all_iff)
qed

lemma fw_do_scoped: "\<exists>cs. snd (fw_do run Nft x h) = h @ cs \<and> list_all scoped cs"
proof (cases x)
  case Ensure
  with nft_ensure_scoped show ?thesis by (simp add: fw_ensure_def)
qed (simp_all add: fw_reconcile_def nft_reconcile_def fw_teardown_def fw_open_def fw_close_def fw_add_dyn_def
    fw_del_dyn_def scoped_cmds)

lemma fw_run_append: "fw_run run b (xs @ ys) h = fw_run run b ys (fw_run run b xs h)"
  by (induction xs arbitrary: h) simp_all

lemma fw_run_scoped: "\<exists>cs. fw_run run Nft xs h = h @ cs \<and> list_all scoped cs"
proof (induction xs arbitrary: h)
  case (Cons x xs)
  obtain c1 where 1: "snd (fw_do run Nft x h) = h @ c1" "list_all scoped c1"
    using fw_do_scoped by blast
  obtain c2 where "fw_run run Nft xs (h @ c1) = (h @ c1) @ c2" "list_all scoped c2"
    using Cons by blast
  with 1 show ?case by (intro exI[of _ "c1 @ c2"]) simp
qed simp

section \<open>The dynamic ports\<close>

text \<open>What a run of operations should leave open, and what a tool must do for it to be so.\<close>

fun dyn_after :: "fw_op list \<Rightarrow> int set \<Rightarrow> int set" where
  "dyn_after [] S = S"
| "dyn_after (AddDyn p # xs) S = dyn_after xs (insert p S)"
| "dyn_after (DelDyn p # xs) S = dyn_after xs (S - {p})"
| "dyn_after (OpenPort q p # xs) S = dyn_after xs S"
| "dyn_after (ClosePort q p # xs) S = dyn_after xs S"
| "dyn_after (Reconcile # xs) S = dyn_after xs {}"
| "dyn_after (Ensure # xs) S = dyn_after xs {}"
| "dyn_after (Teardown # xs) S = dyn_after xs {}"

locale nft_tool =
  fixes held :: "cmd list \<Rightarrow> int set"
  assumes held_add: "held (h @ [nft_add_dyn p]) = insert p (held h)"
    and held_del: "held (h @ [nft_del_dyn p]) = held h - {p}"
    and held_delete: "held (h @ [nft_delete]) = {}"
    and held_open: "held (h @ [nft_open q p]) = held h"
    and held_setup: "held h = {} \<Longrightarrow> held (h @ nft_setup) = {}"
begin

lemma held_do:
  assumes ok: "\<And>h c. run h c \<noteq> None"
  shows "held (snd (fw_do run Nft x h)) = dyn_after [x] (held h)"
proof -
  have all: "run_all run cs h = (True, h @ cs)" for cs h
    by (induction cs arbitrary: h) (simp_all add: run_cmd_def ok)
  show ?thesis
  proof (cases x)
    case Ensure
    then show ?thesis
      using held_setup[OF held_delete, of h] by (simp add: fw_ensure_def nft_ensure_def all)
  qed (simp_all add: fw_reconcile_def nft_reconcile_def fw_teardown_def fw_open_def fw_close_def fw_add_dyn_def
      fw_del_dyn_def held_add held_del held_delete held_open)
qed

lemma held_run:
  assumes "\<And>h c. run h c \<noteq> None"
  shows "held (fw_run run Nft xs h) = dyn_after xs (held h)"
proof (induction xs arbitrary: h)
  case (Cons x xs)
  have "dyn_after xs (dyn_after [x] S) = dyn_after (x # xs) S" for S
    by (cases x) simp_all
  then show ?case
    using Cons held_do[where run = run and x = x and h = h] assms by simp
qed simp

end

text \<open>The elements of the set after a history of commands.\<close>

definition parse_sprint :: "string \<Rightarrow> int" where
  "parse_sprint s = (if s \<noteq> [] \<and> hd s = CHR ''-'' then - int (undec (tl s)) else int (undec s))"

lemma parse_sprint [simp]: "parse_sprint (sprint n) = n"
proof (cases "n < 0")
  case False
  have "hd (dec (nat n)) \<noteq> CHR ''-''"
    using dec_digits[of "hd (dec (nat n))" "nat n"] by (auto simp: is_digit_def)
  with False show ?thesis by (simp add: sprint_def parse_sprint_def)
qed (simp add: sprint_def parse_sprint_def)

definition set_effect :: "cmd \<Rightarrow> int set \<Rightarrow> int set" where
  "set_effect c S =
     (let a = snd c in
      if take 2 a = [''add'', ''element''] then insert (parse_sprint (a ! 6)) S
      else if take 2 a = [''delete'', ''element''] then S - {parse_sprint (a ! 6)}
      else if take 2 a = [''delete'', ''table''] then {}
      else S)"

definition set_after :: "cmd list \<Rightarrow> int set" where
  "set_after h = fold set_effect h {}"

interpretation nft_set: nft_tool set_after
  by unfold_locales
    (simp_all add: set_after_def set_effect_def nft_add_dyn_def nft_del_dyn_def nft_delete_def nft_open_def
      nft_setup_def nft_def)

section \<open>Properties\<close>

text \<open>Everything the nftables backend runs, in any order of operations with any answers, is a command
  of nft that adds or deletes an object of the program's own table and nothing else.\<close>

theorem nft_commands_scoped:
  "\<exists>cs. fw_run run Nft xs h = h @ cs \<and> (\<forall>c \<in> set cs. fst c = ''nft'' \<and> hd (snd c) \<in> {''add'', ''delete''}
     \<and> snd c ! 2 = ''inet'' \<and> snd c ! 3 = ''mini_tun_asymmetric'')"
proof -
  obtain cs where "fw_run run Nft xs h = h @ cs" "list_all scoped cs"
    using fw_run_scoped by blast
  then show ?thesis
    by (intro exI[of _ cs]) (auto simp: list_all_iff scoped_def nft_family_def nft_table_def)
qed

text \<open>Tear-down: with nftables the last command deletes the table; with firewalld and ufw a tear-down, and a
  reconciliation at the next start, run nothing, so every port opened stays open.\<close>

theorem teardown_contract:
  "last (fw_run run Nft (xs @ [Teardown]) h) = (''nft'', [''delete'', ''table'', ''inet'', ''mini_tun_asymmetric''])
   \<and> fw_run run Firewalld (xs @ [Teardown, Reconcile, Ensure]) h = fw_run run Firewalld xs h
   \<and> fw_run run Ufw (xs @ [Teardown, Reconcile, Ensure]) h = fw_run run Ufw xs h"
  by (simp add: fw_run_append fw_teardown_def fw_reconcile_def fw_ensure_def nft_delete_def nft_def
      nft_family_def nft_table_def)

text \<open>The dynamic set: for a tool that adds, deletes and clears the elements of the set as its commands
  say and fails no command, what the set holds after any run of operations are the data ports
  opened and not closed since the table was last made new.\<close>

theorem dynamic_ports_tracked:
  assumes "\<And>h p. held (h @ [nft_add_dyn p]) = insert p (held h)" and "\<And>h p. held (h @ [nft_del_dyn p]) = held h - {p}"
    and "\<And>h. held (h @ [nft_delete]) = {}" and "\<And>h q p. held (h @ [nft_open q p]) = held h"
    and "\<And>h. held h = {} \<Longrightarrow> held (h @ nft_setup) = {}" and "\<And>h c. run h c \<noteq> None"
  shows "held (fw_run run Nft xs h) = dyn_after xs (held h)"
  by (rule nft_tool.held_run[OF nft_tool.intro[OF assms(1-5)] assms(6)])

theorem dynamic_ports_tracked_witness:
  "set_after (fw_run (\<lambda>_ _. Some []) Nft [Reconcile, Ensure, AddDyn 40000, OpenPort UDP 7000, AddDyn 40001, DelDyn 40000] [])
    = {40001}"
proof -
  have "set_after (fw_run (\<lambda>_ _. Some []) Nft xs []) = dyn_after xs (set_after [])" for xs
    by (rule dynamic_ports_tracked)
      (simp_all add: nft_set.held_add nft_set.held_del nft_set.held_delete nft_set.held_open nft_set.held_setup)
  then have "set_after (fw_run (\<lambda>_ _. Some []) Nft
      [Reconcile, Ensure, AddDyn 40000, OpenPort UDP 7000, AddDyn 40001, DelDyn 40000] []) = insert 40001 {40000} - {40000}"
    by (simp only: dyn_after.simps)
  also have "\<dots> = {40001}" by auto
  finally show ?thesis .
qed

end
