(* ===== verification/Dns.thy ===== *)
theory Dns
  imports Session
begin

text \<open>
  The master's DNS forwarder, \<open>master/dns\<close>: the resolver and its three upstream transports, the
  parsing of questions, the empty answer for suppressed AAAA queries, the least TTL of an answer
  and the TTL cache. Names and keys are byte lists. What the upstream does in one query, the
  clock and the lowering of a label that is not ASCII are arguments.
\<close>

section \<open>Resolver\<close>

datatype dns_error = BadMsg | UnknownMode string | NoDohUrl | NoUpstream | UpstreamFailed | DohStatus nat

record dns_config =
  dc_mode :: string
  dc_upstream :: string
  dc_doh :: string
  dc_suppress :: bool

record cache_entry =
  ce_resp :: bytes
  ce_expires :: time

record resolver =
  rs_mode :: string
  rs_upstream :: string
  rs_doh :: string
  rs_suppress :: bool
  rs_cache :: "(bytes \<times> cache_entry) list"

definition ModePlain :: string where "ModePlain = ''plain''"
definition ModeDoT :: string where "ModeDoT = ''dot''"
definition ModeDoH :: string where "ModeDoH = ''doh''"
definition qtypeAAAA :: u16 where "qtypeAAAA = 28"
definition max_msg :: nat where "max_msg = 4096"

definition new_resolver :: "dns_config \<Rightarrow> dns_error + resolver" where
  "new_resolver cfg =
     (if dc_mode cfg \<noteq> [] \<and> dc_mode cfg \<noteq> ModePlain \<and> dc_mode cfg \<noteq> ModeDoT \<and> dc_mode cfg \<noteq> ModeDoH
      then Inl (UnknownMode (dc_mode cfg))
      else let mode = (if dc_mode cfg = [] then ModePlain else dc_mode cfg) in
        if mode = ModeDoH \<and> dc_doh cfg = [] then Inl NoDohUrl
        else if (mode = ModePlain \<or> mode = ModeDoT) \<and> dc_upstream cfg = [] then Inl NoUpstream
        else Inr \<lparr>rs_mode = mode, rs_upstream = dc_upstream cfg, rs_doh = dc_doh cfg,
                  rs_suppress = dc_suppress cfg, rs_cache = []\<rparr>)"

section \<open>Questions\<close>

definition ascii_lower :: "byte \<Rightarrow> byte" where
  "ascii_lower b = (if 65 \<le> b \<and> b \<le> 90 then b + 32 else b)"

text \<open>\<open>bytes.ToLower\<close>; \<open>u\<close> is what it does to a label with a byte outside ASCII.\<close>

definition to_lower :: "(bytes \<Rightarrow> bytes) \<Rightarrow> bytes \<Rightarrow> bytes" where
  "to_lower u l = (if list_all (\<lambda>b. b < 128) l then map ascii_lower l else u l)"

function question_name :: "(bytes \<Rightarrow> bytes) \<Rightarrow> bytes \<Rightarrow> nat \<Rightarrow> bytes \<Rightarrow> (bytes \<times> nat) option" where
  "question_name u msg off acc =
     (if length msg \<le> off then None
      else let l = unat (msg ! off) in
        if l = 0 then Some (acc, off + 1)
        else if msg ! off AND 0xC0 \<noteq> 0 then None
        else if off + 1 + l > length msg then None
        else question_name u msg (off + 1 + l) (acc @ to_lower u (slice (off + 1) (off + 1 + l) msg) @ [0x2E]))"
  by pat_completeness auto
termination by (relation "measure (\<lambda>(u, msg, off, acc). length msg - off)") auto

declare question_name.simps [simp del]

definition parse_question :: "(bytes \<Rightarrow> bytes) \<Rightarrow> bytes \<Rightarrow> (bytes \<times> u16) option" where
  "parse_question u msg =
     (if length msg < 12 then None
      else if get16 (slice 4 6 msg) < 1 then None
      else case question_name u msg 12 [] of
        None \<Rightarrow> None
      | Some (name, off) \<Rightarrow>
          if off + 4 > length msg then None else Some (name, get16 (slice off (off + 2) msg)))"

section \<open>The empty answer\<close>

function question_end :: "bytes \<Rightarrow> nat \<Rightarrow> nat" where
  "question_end q e =
     (if length q \<le> e then e
      else let l = unat (q ! e) in
        if l = 0 then e + 1
        else if q ! e AND 0xC0 \<noteq> 0 then e + 2
        else question_end q (e + 1 + l))"
  by pat_completeness auto
termination by (relation "measure (\<lambda>(q, e). length q - e)") auto

declare question_end.simps [simp del]

definition empty_answer :: "bytes \<Rightarrow> bytes" where
  "empty_answer q =
     (let out = take (min (question_end q 12 + 4) (length q)) q;
          out = out[2 := out ! 2 OR 0x80, 3 := out ! 3 OR 0x80]
      in take 4 out @ put16 1 @ put16 0 @ put16 0 @ put16 0 @ drop 12 out)"

section \<open>The least TTL\<close>

function skip_name :: "bytes \<Rightarrow> nat \<Rightarrow> nat option" where
  "skip_name msg off =
     (if length msg \<le> off then None
      else let l = unat (msg ! off) in
        if l = 0 then Some (off + 1)
        else if msg ! off AND 0xC0 = 0xC0 then Some (off + 2)
        else skip_name msg (off + 1 + l))"
  by pat_completeness auto
termination by (relation "measure (\<lambda>(msg, off). length msg - off)") auto

declare skip_name.simps [simp del]

primrec skip_questions :: "bytes \<Rightarrow> nat \<Rightarrow> nat \<Rightarrow> nat option" where
  "skip_questions msg 0 off = Some off"
| "skip_questions msg (Suc n) off =
     (case skip_name msg off of
        None \<Rightarrow> None
      | Some p \<Rightarrow> if p + 4 > length msg then None else skip_questions msg n (p + 4))"

text \<open>The answer loop; \<open>m\<close> is the least TTL so far, \<open>None\<close> before the first record.\<close>

primrec ttl_loop :: "bytes \<Rightarrow> nat \<Rightarrow> nat \<Rightarrow> u32 option \<Rightarrow> u32" where
  "ttl_loop msg 0 off m = (case m of None \<Rightarrow> 0 | Some x \<Rightarrow> x)"
| "ttl_loop msg (Suc n) off m =
     (case skip_name msg off of
        None \<Rightarrow> (case m of None \<Rightarrow> 0 | Some x \<Rightarrow> x)
      | Some p \<Rightarrow>
          if p + 10 > length msg then (case m of None \<Rightarrow> 0 | Some x \<Rightarrow> x)
          else let ttl = get32 (slice (p + 4) (p + 8) msg); rdlen = unat (get16 (slice (p + 8) (p + 10) msg))
               in ttl_loop msg n (p + 10 + rdlen)
                    (Some (case m of None \<Rightarrow> ttl | Some x \<Rightarrow> if ttl < x then ttl else x)))"

definition min_ttl :: "bytes \<Rightarrow> u32" where
  "min_ttl msg =
     (if length msg < 12 then 0
      else let an = get16 (slice 6 8 msg) in
        if an = 0 then 0
        else case skip_questions msg (unat (get16 (slice 4 6 msg))) 12 of
          None \<Rightarrow> 0
        | Some off \<Rightarrow> ttl_loop msg (unat an) off None)"

section \<open>The cache\<close>

definition cache_key :: "bytes \<Rightarrow> u16 \<Rightarrow> bytes" where
  "cache_key name t = name @ [0x7C] @ str_bytes (dec (unat t))"

definition hour :: time where "hour = 3600 * second"

definition cache_get :: "bytes \<Rightarrow> time \<Rightarrow> (bytes \<times> cache_entry) list \<Rightarrow> bytes option" where
  "cache_get key now c =
     (case map_of c key of
        None \<Rightarrow> None
      | Some e \<Rightarrow> if now > ce_expires e then None else Some (ce_resp e))"

definition cache_put ::
    "bytes \<Rightarrow> bytes \<Rightarrow> time \<Rightarrow> time \<Rightarrow> (bytes \<times> cache_entry) list \<Rightarrow> (bytes \<times> cache_entry) list" where
  "cache_put key resp ttl now c =
     (if ttl \<le> 0 then c
      else let ttl = (if ttl > hour then hour else ttl);
               c = (if length c > 4096 then [] else c)
           in aput key \<lparr>ce_resp = resp, ce_expires = now + ttl\<rparr> c)"

section \<open>Upstream\<close>

text \<open>
  What one query meets: whether the connection is made and written, the datagrams that arrive
  before the deadline, the bytes of the TLS connection, the HTTP status and body, and the time
  the answer is complete.
\<close>

record upstream =
  up_open :: bool
  up_datagrams :: "bytes list"
  up_stream :: bytes
  up_http :: "(nat \<times> bytes) option"
  up_done :: time

fun plain_answer :: "bytes \<Rightarrow> bytes list \<Rightarrow> dns_error + bytes" where
  "plain_answer query [] = Inl UpstreamFailed"
| "plain_answer query (d # ds) =
     (let b = take max_msg d in
      if length b \<ge> 2 \<and> b ! 0 = query ! 0 \<and> b ! 1 = query ! 1 then Inr b
      else plain_answer query ds)"

definition write_tcp_msg :: "bytes \<Rightarrow> bytes" where
  "write_tcp_msg msg = put16 (of_nat (length msg)) @ msg"

definition read_tcp_msg :: "bytes \<Rightarrow> (bytes \<times> bytes) option" where
  "read_tcp_msg b =
     (if length b < 2 then None
      else let n = unat (get16 (take 2 b)) in
        if length b < 2 + n then None else Some (slice 2 (2 + n) b, drop (2 + n) b))"

definition forward_plain :: "upstream \<Rightarrow> bytes \<Rightarrow> dns_error + bytes" where
  "forward_plain up query = (if up_open up then plain_answer query (up_datagrams up) else Inl UpstreamFailed)"

definition forward_dot :: "upstream \<Rightarrow> dns_error + bytes" where
  "forward_dot up =
     (if up_open up then (case read_tcp_msg (up_stream up) of None \<Rightarrow> Inl UpstreamFailed | Some (m, _) \<Rightarrow> Inr m)
      else Inl UpstreamFailed)"

definition forward_doh :: "upstream \<Rightarrow> dns_error + bytes" where
  "forward_doh up =
     (case up_http up of
        None \<Rightarrow> Inl UpstreamFailed
      | Some (status, body) \<Rightarrow> if status \<noteq> 200 then Inl (DohStatus status) else Inr (take max_msg body))"

definition forward :: "string \<Rightarrow> upstream \<Rightarrow> bytes \<Rightarrow> dns_error + bytes" where
  "forward mode up query =
     (if mode = ModePlain then forward_plain up query
      else if mode = ModeDoT then forward_dot up
      else if mode = ModeDoH then forward_doh up
      else Inl (UnknownMode mode))"

definition dns_query ::
    "(bytes \<Rightarrow> bytes) \<Rightarrow> upstream \<Rightarrow> time \<Rightarrow> bytes \<Rightarrow> resolver \<Rightarrow> (dns_error + bytes) \<times> resolver" where
  "dns_query u up now query r =
     (if length query < 12 then (Inl BadMsg, r)
      else case parse_question u query of
        None \<Rightarrow> (forward (rs_mode r) up query, r)
      | Some (name, t) \<Rightarrow>
          if rs_suppress r \<and> t = qtypeAAAA then (Inr (empty_answer query), r)
          else let key = cache_key name t in
            case cache_get key now (rs_cache r) of
              Some resp \<Rightarrow> (Inr (take 2 query @ drop 2 resp), r)
            | None \<Rightarrow>
                (case forward (rs_mode r) up query of
                   Inl e \<Rightarrow> (Inl e, r)
                 | Inr resp \<Rightarrow>
                     (Inr resp,
                      if min_ttl resp > 0
                      then r\<lparr>rs_cache := cache_put key resp (int (unat (min_ttl resp)) * second) (up_done up) (rs_cache r)\<rparr>
                      else r)))"

text \<open>A run of queries, each with its upstream and the time it is looked up.\<close>

fun dns_run ::
    "(bytes \<Rightarrow> bytes) \<Rightarrow> (upstream \<times> time \<times> bytes) list \<Rightarrow> resolver \<Rightarrow> resolver" where
  "dns_run u [] r = r"
| "dns_run u ((up, now, q) # es) r = dns_run u es (snd (dns_query u up now q r))"

section \<open>The cache contract\<close>

text \<open>
  A cache of values with a time to live: a stored value is found until its time is up and not
  after, and storing under one key gives another key nothing new.
\<close>

locale ttl_cache =
  fixes lookup :: "'k \<Rightarrow> time \<Rightarrow> 'c \<Rightarrow> 'v option"
    and store :: "'k \<Rightarrow> 'v \<Rightarrow> time \<Rightarrow> time \<Rightarrow> 'c \<Rightarrow> 'c"
    and cap :: time
  assumes hit: "0 < ttl \<Longrightarrow> now' \<le> now + min ttl cap \<Longrightarrow> lookup k now' (store k v ttl now c) = Some v"
    and expired: "0 < ttl \<Longrightarrow> now + min ttl cap < now' \<Longrightarrow> lookup k now' (store k v ttl now c) = None"
    and other: "k \<noteq> k' \<Longrightarrow> lookup k' now' (store k v ttl now c) = Some w \<Longrightarrow> lookup k' now' c = Some w"
    and no_ttl: "ttl \<le> 0 \<Longrightarrow> store k v ttl now c = c"
begin

fun store_all :: "('k \<times> 'v \<times> time \<times> time) list \<Rightarrow> 'c \<Rightarrow> 'c" where
  "store_all [] c = c"
| "store_all ((k, v, ttl, now) # ss) c = store_all ss (store k v ttl now c)"

text \<open>What is found was there before or was stored under that key and is not yet expired.\<close>

lemma store_source:
  assumes "lookup k now (store k' v ttl t c) = Some w"
  shows "lookup k now c = Some w \<or> k' = k \<and> v = w \<and> 0 < ttl \<and> now \<le> t + min ttl cap"
proof (cases "0 < ttl")
  case True
  then show ?thesis
    using assms hit[of ttl now t k' v c] expired[of ttl t now k' v c] other[of k' k now v ttl t c w]
    by (cases "k' = k"; cases "now \<le> t + min ttl cap") auto
next
  case False
  with assms show ?thesis by (simp add: no_ttl)
qed

lemma found_was_stored:
  assumes "lookup k now (store_all ss c) = Some w"
  shows "lookup k now c = Some w \<or> (\<exists>ttl t. (k, w, ttl, t) \<in> set ss \<and> 0 < ttl \<and> now \<le> t + min ttl cap)"
  using assms
proof (induction ss c rule: store_all.induct)
  case (2 k' v ttl t ss c)
  then have "lookup k now (store k' v ttl t c) = Some w
      \<or> (\<exists>ttl t. (k, w, ttl, t) \<in> set ss \<and> 0 < ttl \<and> now \<le> t + min ttl cap)"
    by simp
  then show ?case
    using store_source[of k now k' v ttl t c w] by auto
qed simp

end

interpretation answers: ttl_cache cache_get "\<lambda>k v ttl now. cache_put k v ttl now" hour
proof unfold_locales
  fix ttl now' now k v c
  show "0 < ttl \<Longrightarrow> now' \<le> now + min ttl hour \<Longrightarrow> cache_get k now' (cache_put k v ttl now c) = Some v"
    by (simp add: cache_get_def cache_put_def Let_def min_def split: if_splits)
  show "0 < ttl \<Longrightarrow> now + min ttl hour < now' \<Longrightarrow> cache_get k now' (cache_put k v ttl now c) = None"
    by (simp add: cache_get_def cache_put_def Let_def min_def split: if_splits)
  show "ttl \<le> 0 \<Longrightarrow> cache_put k v ttl now c = c"
    by (simp add: cache_put_def)
next
  fix k k' now' v ttl now c w
  show "k \<noteq> k' \<Longrightarrow> cache_get k' now' (cache_put k v ttl now c) = Some w \<Longrightarrow> cache_get k' now' c = Some w"
    by (auto simp: cache_get_def cache_put_def Let_def split: if_splits option.splits)
qed

text \<open>The cache never holds more than 4097 answers.\<close>

lemma cache_put_bounded: "length c \<le> 4097 \<Longrightarrow> length (cache_put k v ttl now c) \<le> 4097"
  by (auto simp: cache_put_def Let_def length_aput)

lemma cache_key_inj: "cache_key n t = cache_key n' t' \<longleftrightarrow> n = n' \<and> t = t'"
proof
  assume eq: "cache_key n t = cache_key n' t'"
  have "(0x7C :: byte) \<notin> set (str_bytes (dec k))" for k
  proof
    assume "(0x7C :: byte) \<in> set (str_bytes (dec k))"
    then obtain c where c: "c \<in> set (dec k)" "of_char c = (0x7C :: byte)"
      by (auto simp: str_bytes_def)
    have "is_digit c" by (rule dec_digits[OF c(1)])
    with c(2) show False
      using unat_of_char[of c] by (auto simp: is_digit_def)
  qed
  then have "n = n' \<and> str_bytes (dec (unat t)) = str_bytes (dec (unat t'))"
    using eq append_sep_eq_last[of "0x7C :: byte" "str_bytes (dec (unat t))" "str_bytes (dec (unat t'))" n n']
    by (simp add: cache_key_def)
  then show "n = n' \<and> t = t'" by (simp add: word_unat_eq_iff)
qed simp

section \<open>Answers\<close>

text \<open>What a cached answer goes back to: an upstream answer to a query with the same question.\<close>

definition answered ::
    "(bytes \<Rightarrow> bytes) \<Rightarrow> string \<Rightarrow> bytes \<Rightarrow> u16 \<Rightarrow> bytes \<Rightarrow> time \<Rightarrow> upstream \<times> time \<times> bytes \<Rightarrow> bool" where
  "answered u mode name t resp now e = (case e of (up, _, q) \<Rightarrow>
     parse_question u q = Some (name, t) \<and> forward mode up q = Inr resp \<and> 0 < min_ttl resp
     \<and> now \<le> up_done up + min (int (unat (min_ttl resp)) * second) hour)"

lemma dns_query_mode [simp]: "rs_mode (snd (dns_query u up now q r)) = rs_mode r"
  by (simp add: dns_query_def Let_def split: option.split sum.split)

lemma dns_run_mode [simp]: "rs_mode (dns_run u es r) = rs_mode r"
  by (induction u es r rule: dns_run.induct) simp_all

lemma query_cache:
  "rs_cache (snd (dns_query u up now q r)) = rs_cache r
   \<or> (\<exists>name t resp. parse_question u q = Some (name, t) \<and> forward (rs_mode r) up q = Inr resp \<and> 0 < min_ttl resp
       \<and> rs_cache (snd (dns_query u up now q r)) =
           cache_put (cache_key name t) resp (int (unat (min_ttl resp)) * second) (up_done up) (rs_cache r))"
  by (simp add: dns_query_def Let_def split: option.split sum.split)

lemma run_cache_source:
  assumes "cache_get (cache_key name t) now (rs_cache (dns_run u es r)) = Some resp"
  shows "cache_get (cache_key name t) now (rs_cache r) = Some resp
    \<or> (\<exists>e \<in> set es. answered u (rs_mode r) name t resp now e)"
  using assms
proof (induction u es r rule: dns_run.induct)
  case (2 u up now' q es r)
  let ?r = "snd (dns_query u up now' q r)"
  have IH: "cache_get (cache_key name t) now (rs_cache ?r) = Some resp
      \<or> (\<exists>e \<in> set es. answered u (rs_mode r) name t resp now e)"
    using 2 by simp
  show ?case
  proof (cases "\<exists>e \<in> set es. answered u (rs_mode r) name t resp now e")
    case True
    then show ?thesis by auto
  next
    case False
    with IH have got: "cache_get (cache_key name t) now (rs_cache ?r) = Some resp" by blast
    from query_cache[of u up now' q r] show ?thesis
    proof
      assume "rs_cache ?r = rs_cache r"
      with got show ?thesis by simp
    next
      assume "\<exists>n' t' resp'. parse_question u q = Some (n', t') \<and> forward (rs_mode r) up q = Inr resp' \<and> 0 < min_ttl resp'
        \<and> rs_cache ?r = cache_put (cache_key n' t') resp' (int (unat (min_ttl resp')) * second) (up_done up) (rs_cache r)"
      then obtain n' t' resp' where put: "parse_question u q = Some (n', t')" "forward (rs_mode r) up q = Inr resp'"
          "0 < min_ttl resp'"
          "rs_cache ?r = cache_put (cache_key n' t') resp' (int (unat (min_ttl resp')) * second) (up_done up) (rs_cache r)"
        by blast
      from answers.store_source[OF got[unfolded put(4)]] put(1-3) show ?thesis
        by (auto simp: cache_key_inj answered_def)
    qed
  qed
qed simp

lemma query_hit:
  assumes "12 \<le> length q" and "parse_question u q = Some (name, t)" and "\<not> (rs_suppress r \<and> t = qtypeAAAA)"
    and "cache_get (cache_key name t) now (rs_cache r) = Some resp"
  shows "dns_query u up now q r = (Inr (take 2 q @ drop 2 resp), r)"
  using assms by (auto simp: dns_query_def Let_def)

lemma parse_question_length: "parse_question u q = Some x \<Longrightarrow> 12 \<le> length q"
  by (auto simp: parse_question_def split: if_splits)

lemma plain_answer_id: "plain_answer q ds = Inr a \<Longrightarrow> 2 \<le> length a \<and> a ! 0 = q ! 0 \<and> a ! 1 = q ! 1"
  by (induction q ds rule: plain_answer.induct) (auto simp: Let_def split: if_splits)

lemma take2_eq: "2 \<le> length a \<Longrightarrow> 2 \<le> length b \<Longrightarrow> a ! 0 = b ! 0 \<Longrightarrow> a ! 1 = b ! 1 \<Longrightarrow> take 2 a = take 2 b"
  by (cases a; cases "tl a"; cases b; cases "tl b") auto

text \<open>The empty answer keeps the id.\<close>

lemma question_end_ge: "e < length q \<Longrightarrow> e < question_end q e"
proof (induction q e rule: question_end.induct)
  case (1 q e)
  let ?e = "e + 1 + unat (q ! e)"
  have "?e < question_end q ?e \<or> question_end q ?e = ?e"
    if "q ! e \<noteq> 0" "q ! e AND 0xC0 = 0"
    using 1 that question_end.simps[of q ?e] by (cases "?e < length q") (auto simp: unat_eq_0)
  with "1.prems" show ?case
    using question_end.simps[of q e] by (auto simp: Let_def unat_eq_0)
qed

lemma length_empty_answer:
  assumes "12 < length q"
  shows "length (empty_answer q) = min (question_end q 12 + 4) (length q)"
  using assms question_end_ge[of 12 q] by (simp add: empty_answer_def Let_def)

lemma empty_answer_id: "12 < length q \<Longrightarrow> take 2 (empty_answer q) = take 2 q"
  using question_end_ge[of 12 q] by (simp add: empty_answer_def Let_def)

lemma slice_cong:
  assumes "j \<le> length xs" and "j \<le> length ys" and "\<forall>i. a \<le> i \<and> i < j \<longrightarrow> xs ! i = ys ! i"
  shows "slice a j xs = slice a j ys"
  using assms by (intro nth_equalityI) (auto simp: slice_def)

text \<open>The two loops over a question name end at the same place.\<close>

lemma question_name_end:
  "question_name u msg off acc = Some (n, e) \<Longrightarrow> question_end msg off = e \<and> off < e \<and> e \<le> length msg"
proof (induction u msg off acc rule: question_name.induct)
  case (1 u msg off acc)
  let ?l = "unat (msg ! off)"
  have off: "off < length msg"
    using "1.prems" by (subst (asm) question_name.simps) (simp split: if_splits)
  show ?case
  proof (cases "?l = 0")
    case True
    with "1.prems" off show ?thesis
      by (simp add: question_name.simps[of u msg] question_end.simps[of msg])
  next
    case False
    with "1.prems" off have more: "msg ! off AND 0xC0 = 0" "off + 1 + ?l \<le> length msg"
      "question_name u msg (off + 1 + ?l) (acc @ to_lower u (slice (off + 1) (off + 1 + ?l) msg) @ [0x2E]) = Some (n, e)"
      by (simp_all add: question_name.simps[of u msg off] Let_def split: if_splits)
    have "question_end msg (off + 1 + ?l) = e \<and> off + 1 + ?l < e \<and> e \<le> length msg"
      using "1.IH"[OF _ refl] off False more by simp
    with off False more(1) show ?thesis
      by (simp add: question_end.simps[of msg off] Let_def)
  qed
qed

lemma question_name_cong:
  "question_name u msg off acc = Some (n, e) \<Longrightarrow> e \<le> length msg' \<Longrightarrow>
   \<forall>i. off \<le> i \<and> i < e \<longrightarrow> msg' ! i = msg ! i \<Longrightarrow> question_name u msg' off acc = Some (n, e)"
proof (induction u msg off acc rule: question_name.induct)
  case (1 u msg off acc)
  let ?l = "unat (msg ! off)"
  have off: "off < e" "e \<le> length msg"
    using question_name_end[OF "1.prems"(1)] by simp_all
  have same: "msg' ! off = msg ! off"
    using "1.prems"(3) off by simp
  show ?case
  proof (cases "?l = 0")
    case True
    with "1.prems" off same show ?thesis
      by (simp add: question_name.simps[of u _ off])
  next
    case False
    with "1.prems"(1) off have more: "msg ! off AND 0xC0 = 0" "off + 1 + ?l \<le> length msg"
      "question_name u msg (off + 1 + ?l) (acc @ to_lower u (slice (off + 1) (off + 1 + ?l) msg) @ [0x2E]) = Some (n, e)"
      by (simp_all add: question_name.simps[of u msg off] Let_def split: if_splits)
    have e: "off + 1 + ?l < e"
      using question_name_end[OF more(3)] by simp
    have "slice (off + 1) (off + 1 + ?l) msg' = slice (off + 1) (off + 1 + ?l) msg"
      using "1.prems"(2,3) off e by (intro slice_cong) simp_all
    moreover have "question_name u msg' (off + 1 + ?l)
        (acc @ to_lower u (slice (off + 1) (off + 1 + ?l) msg) @ [0x2E]) = Some (n, e)"
      using "1.IH"[OF _ refl] off False more "1.prems"(2,3) by simp
    ultimately show ?thesis
      using off "1.prems"(2) same False more(1) e by (simp add: question_name.simps[of u msg' off] Let_def)
  qed
qed

lemma empty_answer_parses:
  assumes q: "parse_question u q = Some (name, t)"
  shows "parse_question u (empty_answer q) = Some (name, t)"
    "slice 4 12 (empty_answer q) = [0, 1, 0, 0, 0, 0, 0, 0]"
    "empty_answer q ! 2 = q ! 2 OR 0x80" "empty_answer q ! 3 = q ! 3 OR 0x80"
    "drop 12 (empty_answer q) = slice 12 (question_end q 12 + 4) q"
    "length (empty_answer q) = question_end q 12 + 4"
proof -
  let ?e = "question_end q 12"
  obtain n where n: "question_name u q 12 [] = Some (name, n)" "n + 4 \<le> length q"
      "get16 (slice n (n + 2) q) = t"
    using q by (auto simp: parse_question_def split: if_splits option.splits)
  have e: "n = ?e" "12 < ?e" "?e + 4 \<le> length q"
    using question_name_end[OF n(1)] n(2) by simp_all
  let ?o = "(take (?e + 4) q)[2 := q ! 2 OR 0x80, 3 := q ! 3 OR 0x80]"
  have a: "empty_answer q = take 4 ?o @ [0, 1, 0, 0, 0, 0, 0, 0] @ drop 12 ?o"
    using e by (simp add: empty_answer_def Let_def put16_def)
  have drop: "drop 12 ?o = slice 12 (?e + 4) q"
    using e(2,3) by (simp add: slice_def drop_take)
  have len4: "length (take 4 ?o) = 4"
    using e(2,3) by simp
  show len: "length (empty_answer q) = ?e + 4"
    using e(2,3) by (simp add: a)
  show "slice 4 12 (empty_answer q) = [0, 1, 0, 0, 0, 0, 0, 0]"
    using len4 by (simp add: a slice_def)
  show "drop 12 (empty_answer q) = slice 12 (?e + 4) q"
    using len4 drop by (simp add: a)
  show "empty_answer q ! 2 = q ! 2 OR 0x80" "empty_answer q ! 3 = q ! 3 OR 0x80"
    using e(2,3) by (simp_all add: a nth_append)
  have nth: "empty_answer q ! i = q ! i" if "12 \<le> i" "i < ?e + 4" for i
  proof -
    have "empty_answer q ! i = drop 12 (empty_answer q) ! (i - 12)"
      using that len by simp
    then show ?thesis
      using that e drop len4 by (simp add: a slice_def)
  qed
  have "question_name u (empty_answer q) 12 [] = Some (name, ?e)"
  proof (rule question_name_cong[OF n(1)[unfolded e(1)]])
    show "?e \<le> length (empty_answer q)" by (simp only: len)
    show "\<forall>i. 12 \<le> i \<and> i < ?e \<longrightarrow> empty_answer q ! i = q ! i" by (auto intro: nth)
  qed
  moreover have "slice 4 6 (empty_answer q) = [0, 1]"
    using len4 by (simp add: a slice_def)
  moreover have "slice ?e (?e + 2) (empty_answer q) = slice ?e (?e + 2) q"
  proof (rule slice_cong)
    show "?e + 2 \<le> length (empty_answer q)" "?e + 2 \<le> length q" using e(3) by (simp_all only: len)
    show "\<forall>i. ?e \<le> i \<and> i < ?e + 2 \<longrightarrow> empty_answer q ! i = q ! i" using e(2) by (auto intro: nth)
  qed
  ultimately show "parse_question u (empty_answer q) = Some (name, t)"
    using e len n(3) by (simp add: parse_question_def get16_def)
qed

text \<open>
  A label that contains a dot gives the same name, and so the same cache entry, as two labels;
  and queries of different classes share an entry.
\<close>

lemma dotted_label_same_question:
  "parse_question u [0, 1, 1, 0, 0, 1, 0, 0, 0, 0, 0, 0, 3, 97, 46, 98, 0, 0, 1, 0, 1] =
   parse_question u [0, 1, 1, 0, 0, 1, 0, 0, 0, 0, 0, 0, 1, 97, 1, 98, 0, 0, 1, 0, 3]"
  by (simp add: parse_question_def question_name.simps slice_def get16_def to_lower_def ascii_lower_def)

section \<open>The least TTL, as a minimum\<close>

text \<open>The TTLs of the answer records that are whole, in order.\<close>

primrec answer_ttls :: "bytes \<Rightarrow> nat \<Rightarrow> nat \<Rightarrow> u32 list" where
  "answer_ttls msg 0 off = []"
| "answer_ttls msg (Suc n) off =
     (case skip_name msg off of
        None \<Rightarrow> []
      | Some p \<Rightarrow> if p + 10 > length msg then []
          else get32 (slice (p + 4) (p + 8) msg) #
            answer_ttls msg n (p + 10 + unat (get16 (slice (p + 8) (p + 10) msg))))"

lemma ttl_loop_min:
  "ttl_loop msg n off m = (case m of
     None \<Rightarrow> if answer_ttls msg n off = [] then 0 else Min (set (answer_ttls msg n off))
   | Some x \<Rightarrow> Min (insert x (set (answer_ttls msg n off))))"
proof (induction n arbitrary: off m)
  case (Suc n)
  show ?case
  proof (cases "skip_name msg off")
    case None
    then show ?thesis by (simp split: option.split)
  next
    case (Some p)
    have "Min (insert (if y < x then y else x) S) = Min (insert x (insert y S))" if "finite S" for x y :: u32 and S
    proof (cases "S = {}")
      case False
      with that have "Min (insert a S) = min a (Min S)" "Min (insert a (insert b S)) = min a (min b (Min S))" for a b
        by simp_all
      then show ?thesis by (simp only: min_def) auto
    qed (auto simp: min_def)
    then show ?thesis
      using Some Suc by (cases m) (simp_all add: Let_def)
  qed
qed (simp split: option.split)

section \<open>Properties\<close>


definition sample_query :: "byte \<Rightarrow> bytes" where
  "sample_query i = [i, 9, 1, 0, 0, 1, 0, 0, 0, 0, 0, 0, 1, 97, 0, 0, 1, 0, 1]"

definition sample_response :: bytes where
  "sample_response = [1, 9, 0x81, 0x80, 0, 1, 0, 1, 0, 0, 0, 0, 1, 97, 0, 0, 1, 0, 1,
     0xC0, 12, 0, 1, 0, 1, 0, 0, 0, 60, 0, 4, 192, 0, 2, 1]"

definition sample_upstream :: upstream where
  "sample_upstream = \<lparr>up_open = True, up_datagrams = [sample_response], up_stream = [], up_http = None, up_done = 0\<rparr>"

definition sample_resolver :: resolver where
  "sample_resolver = \<lparr>rs_mode = ModePlain, rs_upstream = ''192.0.2.53:53'', rs_doh = [], rs_suppress = True, rs_cache = []\<rparr>"

lemma sample_parse: "parse_question u (sample_query i) = Some ([97, 46], 1)"
  by (simp add: parse_question_def sample_query_def question_name.simps slice_def get16_def to_lower_def ascii_lower_def)

lemma sample_ttl: "min_ttl sample_response = 60"
  by (simp add: min_ttl_def sample_response_def slice_def get16_def get32_def skip_name.simps)

lemma sample_miss:
  "dns_query u sample_upstream 0 (sample_query 1) sample_resolver = (Inr sample_response,
     sample_resolver\<lparr>rs_cache := cache_put (cache_key [97, 46] 1) sample_response (60 * second) 0 []\<rparr>)"
proof -
  have "forward ModePlain sample_upstream (sample_query 1) = Inr sample_response"
    by (simp add: forward_def forward_plain_def sample_upstream_def Let_def max_msg_def)
       (simp add: sample_query_def sample_response_def)
  then show ?thesis
    by (simp add: dns_query_def sample_parse qtypeAAAA_def sample_ttl Let_def cache_get_def parse_question_length[OF sample_parse]
        sample_resolver_def not_less)
       (simp add: sample_upstream_def)
qed


text \<open>Answers carry the query's id: with the plain transport, whatever the datagrams that arrive, an
  answer is at least two bytes long and starts with the two id bytes of the query, so that a
  datagram with another id is never returned.\<close>

theorem dns_answer_id:
  assumes "rs_mode r = ModePlain" and "fst (dns_query u up now q r) = Inr a"
    and "\<forall>(k, e) \<in> set (rs_cache r). 2 \<le> length (ce_resp e)"
  shows "2 \<le> length a \<and> take 2 a = take 2 q"
proof -
  have len: "12 \<le> length q"
    using assms(2) by (auto simp: dns_query_def split: if_splits)
  have plain: "2 \<le> length x \<and> take 2 x = take 2 q" if "forward (rs_mode r) up q = Inr x" for x
    using that assms(1) len plain_answer_id[of q "up_datagrams up" x] take2_eq[of x q]
    by (auto simp: forward_def forward_plain_def split: if_splits)
  have cached: "2 \<le> length x" if "cache_get k now (rs_cache r) = Some x" for k x
    using that assms(3) by (auto simp: cache_get_def split: option.splits if_splits dest!: map_of_SomeD)
  have empty: "2 \<le> length (empty_answer q) \<and> take 2 (empty_answer q) = take 2 q" if "parse_question u q = Some x" for x
  proof -
    obtain name t where x: "x = (name, t)" by (cases x)
    have "12 < length q"
      using that by (auto simp: parse_question_def question_name.simps[of u q 12] split: if_splits)
    then show ?thesis
      using empty_answer_parses(6)[OF that[unfolded x]] empty_answer_id by simp
  qed
  show ?thesis
    using assms(2) len plain cached empty
    by (auto simp: dns_query_def Let_def split: option.splits sum.splits if_splits)
qed

theorem dns_answer_id_witness:
  "fst (dns_query id (sample_upstream\<lparr>up_datagrams := [[7, 7, 0], sample_response]\<rparr>) 0 (sample_query 1) sample_resolver)
     = Inr sample_response \<and> take 2 sample_response = take 2 (sample_query 1)"
proof -
  have "forward ModePlain (sample_upstream\<lparr>up_datagrams := [[7, 7, 0], sample_response]\<rparr>) (sample_query 1) = Inr sample_response"
    by (simp add: forward_def forward_plain_def sample_upstream_def Let_def max_msg_def)
       (simp add: sample_query_def sample_response_def)
  then have "fst (dns_query id (sample_upstream\<lparr>up_datagrams := [[7, 7, 0], sample_response]\<rparr>) 0 (sample_query 1)
      sample_resolver) = Inr sample_response"
    by (simp add: dns_query_def sample_parse qtypeAAAA_def Let_def cache_get_def parse_question_length[OF sample_parse]
        sample_resolver_def not_less)
  with dns_answer_id[OF _ this] show ?thesis
    by (simp add: sample_resolver_def)
qed

text \<open>The empty answer to a suppressed AAAA query is a well-formed reply: it asks the same question,
  is marked as a response with recursion available, counts one question and no records, ends
  behind the first question, and has the query's id.\<close>

theorem empty_answer_wellformed:
  assumes "parse_question u q = Some (name, t)"
  shows "parse_question u (empty_answer q) = Some (name, t) \<and> take 2 (empty_answer q) = take 2 q
    \<and> empty_answer q ! 2 = q ! 2 OR 0x80 \<and> empty_answer q ! 3 = q ! 3 OR 0x80
    \<and> slice 4 12 (empty_answer q) = [0, 1, 0, 0, 0, 0, 0, 0]
    \<and> drop 12 (empty_answer q) = slice 12 (question_end q 12 + 4) q
    \<and> length (empty_answer q) = question_end q 12 + 4"
proof -
  have "12 < length q"
    using assms by (auto simp: parse_question_def question_name.simps[of u q 12] split: if_splits)
  then show ?thesis
    using empty_answer_parses[OF assms] empty_answer_id by blast
qed

theorem empty_answer_wellformed_witness:
  "parse_question id (empty_answer (sample_query 7)) = Some ([97, 46], 1)"
  using empty_answer_wellformed[OF sample_parse[of id 7]] by blast

text \<open>The cached time to live is a minimum: for an answer whose question section is whole, \<open>minTTL\<close> is
  the least TTL of the answer records that are whole, and 0 when there is none.\<close>

theorem min_ttl_is_minimum:
  assumes "12 \<le> length msg" and "skip_questions msg (unat (get16 (slice 4 6 msg))) 12 = Some off"
  shows "min_ttl msg = (let ts = answer_ttls msg (unat (get16 (slice 6 8 msg))) off in
     if ts = [] then 0 else Min (set ts))"
  using assms by (auto simp: min_ttl_def Let_def ttl_loop_min)

theorem min_ttl_is_minimum_witness:
  "answer_ttls sample_response 1 19 = [60] \<and> min_ttl sample_response = 60"
proof -
  have "skip_questions sample_response (unat (get16 (slice 4 6 sample_response))) 12 = Some 19"
    "get16 (slice 6 8 sample_response) = 1" "12 \<le> length sample_response"
    by (simp_all add: sample_response_def slice_def get16_def skip_name.simps)
  moreover have "answer_ttls sample_response 1 19 = [60]"
    by (simp add: sample_response_def slice_def get16_def get32_def skip_name.simps)
  ultimately show ?thesis
    using min_ttl_is_minimum[of sample_response 19] by simp
qed

end
