(* ===== verification/Startup.thy ===== *)
theory Startup
  imports MasterTheorems Slave Config Netfw Dns
begin

text \<open>
  How the two server processes come up: the master's \<open>main\<close> from its configuration to the sockets it
  serves, and the slave's. The file, the resolver, the sockets the system grants and the answers of
  the firewall's tools are arguments; a start that ends the process is an error, and the commands
  run until then are kept.
\<close>

section \<open>Prefixes\<close>

text \<open>\<open>net.CIDRMask\<close> on a number of bytes, and \<open>net.ParseCIDR\<close>.\<close>

fun cidr_mask :: "nat \<Rightarrow> nat \<Rightarrow> bytes" where
  "cidr_mask n 0 = []"
| "cidr_mask n (Suc k) = (if 8 \<le> n then 0xFF # cidr_mask (n - 8) k else NOT (drop_bit n 0xFF) # cidr_mask 0 k)"

definition dotted_first :: "string \<Rightarrow> bool" where
  "dotted_first s = (case filter (\<lambda>c. c = CHR ''.'' \<or> c = CHR '':'' \<or> c = CHR ''%'') s of
     [] \<Rightarrow> False | c # _ \<Rightarrow> c = CHR ''.'')"

definition parse_cidr :: "string \<Rightarrow> ipnet option" where
  "parse_cidr s =
     (case index_of (CHR ''/'') s of
        None \<Rightarrow> None
      | Some i \<Rightarrow>
          (let addr = take i s; digits = drop (Suc i) s; size = (if dotted_first addr then 4 else 16) in
           case parse_ip addr of
             None \<Rightarrow> None
           | Some a \<Rightarrow>
               if digits = [] \<or> \<not> list_all is_digit digits \<or> undec digits > 8 * size then None
               else let m = cidr_mask (undec digits) size in Some \<lparr>n_ip = ip_mask a m, n_mask = m\<rparr>))"

lemma length_cidr_mask [simp]: "length (cidr_mask n k) = k"
  by (induction n k rule: cidr_mask.induct) simp_all

lemma cidr_mask4:
  assumes "p \<le> 32"
  shows "cidr_mask p 4 = put32 (NOT (mask (32 - p)))"
proof -
  have "list_all (\<lambda>p. cidr_mask p 4 = put32 (NOT (mask (32 - p)))) [0..<33]"
    by code_simp
  with assms show ?thesis by (simp add: list_all_iff)
qed

lemma all_some_length: "all_some xs = Some ys \<Longrightarrow> length ys = length xs"
  by (induction xs arbitrary: ys rule: all_some.induct) auto

lemma parse_ip4_length: "parse_ip4 s = Some b \<Longrightarrow> length b = 4"
  by (auto simp: parse_ip4_def Let_def dest: all_some_length split: if_splits)

lemma parse_ip_dotted:
  "dotted_first s \<Longrightarrow> parse_ip s = Some a \<Longrightarrow> \<exists>b. a = v4_prefix @ b \<and> length b = 4"
  by (auto simp: dotted_first_def parse_ip_def to16_def dest: parse_ip4_length split: list.splits if_splits)

lemma put32_of_length4: "length b = 4 \<Longrightarrow> \<exists>w. b = put32 w"
  by (metis put32_get32)

lemma parse_fields_length:
  "parse_fields s acc ell = Some (acc', e, r) \<Longrightarrow> even (length acc) \<Longrightarrow> length acc \<le> 16 \<Longrightarrow> length acc' \<le> 16"
proof (induction s acc ell arbitrary: acc' e r rule: parse_fields.induct)
  case (1 s acc ell)
  show ?case
  proof (cases "length acc = 16")
    case True
    with 1 show ?thesis by (subst (asm) parse_fields.simps) simp
  next
    case False
    with "1.prems" have "length acc + 2 \<le> 16" "length acc < 16" by (auto elim!: evenE)
    with "1.prems" "1.IH" show ?thesis
      by (subst (asm) parse_fields.simps)
        (auto simp: Let_def dest!: parse_ip4_length split: if_splits option.splits list.splits)
  qed
qed

lemma parse_ip6_length: "parse_ip6 s = Some a \<Longrightarrow> length a = 16"
  by (auto simp: parse_ip6_def Let_def dest: parse_fields_length split: if_splits option.splits prod.splits)

lemma parse_ip_length: "parse_ip s = Some a \<Longrightarrow> length a = 16"
  by (auto simp: parse_ip_def to16_def dest: parse_ip4_length parse_ip6_length split: list.splits if_splits)

lemma ip_mask_v4: "length b = 4 \<Longrightarrow> length m = 4 \<Longrightarrow> ip_mask (v4_prefix @ b) m = and_bytes b m"
  by (simp add: ip_mask_def)

lemma ip_mask_same: "length a = 16 \<Longrightarrow> length m = 16 \<Longrightarrow> ip_mask a m = and_bytes a m"
  by (simp add: ip_mask_def)

text \<open>A prefix written as four octets is a subnet of \<open>IpPool\<close>; any other has 16 bytes.\<close>

lemma parse_cidr_cases:
  assumes "parse_cidr s = Some n"
  obtains (v4) w h where "h \<le> 32" and "n = cidr4 (w AND NOT (mask h)) h"
  | (v6) "length (n_ip n) = 16" and "length (n_mask n) = 16"
proof -
  obtain addr d a where p: "parse_ip addr = Some a" "d \<le> 8 * (if dotted_first addr then 4 else 16)"
    "n = (let m = cidr_mask d (if dotted_first addr then 4 else 16) in \<lparr>n_ip = ip_mask a m, n_mask = m\<rparr>)"
    using assms by (auto simp: parse_cidr_def Let_def not_less split: option.splits if_splits)
  show thesis
  proof (cases "dotted_first addr")
    case True
    obtain b where b: "a = v4_prefix @ b" "length b = 4"
      using parse_ip_dotted[OF True p(1)] by blast
    obtain w where w: "b = put32 w"
      using put32_of_length4[OF b(2)] by blast
    show thesis
    proof (rule v4)
      show "32 - d \<le> 32" by simp
      show "n = cidr4 (w AND NOT (mask (32 - d))) (32 - d)"
        using p True b by (simp add: cidr_mask4 ip_mask_v4 w and_bytes_put32 cidr4_def Let_def)
    qed
  next
    case False
    with p parse_ip_length[OF p(1)] show thesis
      by (intro v6) (simp_all add: ip_mask_same and_bytes_def Let_def)
  qed
qed

lemma parse_cidr_masked:
  assumes "parse_cidr s = Some n"
  shows "(length (n_ip n) = 4 \<or> length (n_ip n) = 16) \<and> ip_mask (n_ip n) (n_mask n) \<noteq> []
    \<and> length (ip_mask (n_ip n) (n_mask n)) = length (n_ip n)"
  using assms
proof (cases rule: parse_cidr_cases)
  case (v4 w h)
  then show ?thesis by (simp add: cidr4_mask) (simp add: cidr4_def)
next
  case v6
  then have "length (ip_mask (n_ip n) (n_mask n)) = 16"
    by (simp add: ip_mask_same and_bytes_def)
  with v6 show ?thesis by auto
qed

section \<open>What a start meets\<close>

text \<open>
  \<open>sv_bind\<close> is \<open>net.ListenUDP\<close>: the port granted for an address, given the sockets the process
  holds; \<open>sv_rnd\<close> is the randomness drawn by the k-th carrier.
\<close>

record start_env =
  sv_file :: "bytes option"
  sv_run :: runner
  sv_resolve :: "string \<Rightarrow> udpaddr option"
  sv_bind :: "udpaddr list \<Rightarrow> udpaddr \<Rightarrow> nat option"
  sv_rnd :: "nat \<Rightarrow> bytes"
  sv_netstack :: bool

datatype start_error = ConfigFailed load_error | TokenNotDecoded | SubnetInvalid | PoolHangs | DataPlaneFailed
  | NetstackFailed | DnsFailed dns_error | CarrierUnknown string | AddressInvalid | ListenFailed

section \<open>The master's stages\<close>

definition start_config :: "(bytes \<Rightarrow> master_config option) \<Rightarrow> start_env \<Rightarrow> start_error + (master_config \<times> bytes)" where
  "start_config decode v =
     (case load_master_config decode (sv_file v) of
        Inl e \<Rightarrow> Inl (ConfigFailed e)
      | Inr c \<Rightarrow> (case decode64 (mf_token c) of None \<Rightarrow> Inl TokenNotDecoded | Some t \<Rightarrow> Inr (c, t)))"

definition start_firewall :: "runner \<Rightarrow> backend \<times> cmd list" where
  "start_firewall run = (case detect run [] of (b, h) \<Rightarrow> (b, snd (fw_ensure run b (snd (fw_reconcile run b h)))))"

definition gateway_of :: "string \<Rightarrow> ip" where
  "gateway_of s = (case parse_ip s of None \<Rightarrow> [] | Some a \<Rightarrow> (case to4 a of None \<Rightarrow> [] | Some b \<Rightarrow> b))"

definition start_pool :: "master_config \<Rightarrow> start_error + ippool" where
  "start_pool c =
     (case parse_cidr (mf_subnet c) of
        None \<Rightarrow> Inl SubnetInvalid
      | Some n \<Rightarrow> (case new_subnet n (gateway_of (mf_tunnel_ip c)) of
          None \<Rightarrow> Inl PoolHangs | Some l \<Rightarrow> Inr (new_ip_pool l)))"

definition data_plane_addr :: "master_config \<Rightarrow> string" where
  "data_plane_addr c = (if mf_listen_dp c = [] then ''0.0.0.0:7003'' else mf_listen_dp c)"

definition start_data_plane :: "start_env \<Rightarrow> master_config \<Rightarrow> start_error + udpaddr" where
  "start_data_plane v c =
     (case sv_resolve v (data_plane_addr c) of
        None \<Rightarrow> Inl DataPlaneFailed
      | Some a \<Rightarrow> (case sv_bind v [] a of None \<Rightarrow> Inl DataPlaneFailed | Some p \<Rightarrow> Inr a))"

definition start_dns :: "master_config \<Rightarrow> start_error + resolver" where
  "start_dns c =
     (case new_resolver \<lparr>dc_mode = mf_dns_mode c, dc_upstream = mf_dns_upstream c, dc_doh = mf_dns_doh c,
         dc_suppress = (case mf_suppress c of None \<Rightarrow> False | Some b \<Rightarrow> b)\<rparr> of
        Inl e \<Rightarrow> Inl (DnsFailed e) | Inr r \<Rightarrow> Inr r)"

text \<open>\<open>copy\<close> into eight zero bytes.\<close>

definition server_id :: "string \<Rightarrow> bytes" where
  "server_id s = take 8 (str_bytes s @ replicate 8 0)"

text \<open>The control listeners: one per configured control port, or the single one of older configurations.\<close>

fun start_ports :: "start_env \<Rightarrow> backend \<Rightarrow> nat \<Rightarrow> udpaddr list \<Rightarrow> control_port list \<Rightarrow> cmd list
    \<Rightarrow> (start_error + (nat \<times> transport) list) \<times> cmd list" where
  "start_ports v b k bound [] h = (Inr [], h)"
| "start_ports v b k bound (cp # cps) h =
     (case by_name (sv_rnd v k) (cp_transport cp) of
        None \<Rightarrow> (Inl (CarrierUnknown (cp_transport cp)), h)
      | Some tr \<Rightarrow>
          (case sv_resolve v (''0.0.0.0:'' @ sprint (cp_port cp)) of
             None \<Rightarrow> (Inl AddressInvalid, h)
           | Some a \<Rightarrow>
               (case sv_bind v bound a of
                  None \<Rightarrow> (Inl ListenFailed, h)
                | Some q \<Rightarrow>
                    (case start_ports v b (Suc k) (bound @ [a]) cps (snd (fw_open (sv_run v) b UDP (cp_port cp) h)) of
                       (Inl e, h') \<Rightarrow> (Inl e, h')
                     | (Inr ls, h') \<Rightarrow> (Inr ((q, tr) # ls), h')))))"

definition start_single :: "start_env \<Rightarrow> backend \<Rightarrow> udpaddr list \<Rightarrow> master_config \<Rightarrow> cmd list
    \<Rightarrow> (start_error + (nat \<times> transport) list) \<times> cmd list" where
  "start_single v b bound c h =
     (case by_name (sv_rnd v 0) (mf_transport c) of
        None \<Rightarrow> (Inl (CarrierUnknown (mf_transport c)), h)
      | Some tr \<Rightarrow>
          (case sv_resolve v (mf_listen_udp c) of
             None \<Rightarrow> (Inl AddressInvalid, h)
           | Some a \<Rightarrow>
               (case sv_bind v bound a of
                  None \<Rightarrow> (Inl ListenFailed, h)
                | Some q \<Rightarrow> (Inr [(q, tr)], snd (fw_open (sv_run v) b UDP (int q) h)))))"

definition start_listeners :: "start_env \<Rightarrow> backend \<Rightarrow> udpaddr list \<Rightarrow> master_config \<Rightarrow> cmd list
    \<Rightarrow> (start_error + (nat \<times> transport) list) \<times> cmd list" where
  "start_listeners v b bound c h =
     (if mf_ports c \<noteq> [] then start_ports v b 0 bound (mf_ports c) h else start_single v b bound c h)"

text \<open>\<open>strconv.Atoi\<close> on a 64-bit int with the error turned into 0.\<close>

definition atoi_safe :: "string \<Rightarrow> int" where
  "atoi_safe s =
     (let neg = (s \<noteq> [] \<and> hd s = CHR ''-''); signed = (s \<noteq> [] \<and> (hd s = CHR ''-'' \<or> hd s = CHR ''+''));
          ds = (if signed then tl s else s)
      in if ds = [] \<or> \<not> list_all is_digit ds then 0
         else if neg then (if int (undec ds) \<le> 2 ^ 63 then - int (undec ds) else 0)
         else if int (undec ds) < 2 ^ 63 then int (undec ds) else 0)"

text \<open>The data-plane and control ports of the configuration, as operations on the firewall.\<close>

definition service_ports :: "start_env \<Rightarrow> master_config \<Rightarrow> fw_op list" where
  "service_ports v c =
     (case sv_resolve v (data_plane_addr c) of None \<Rightarrow> [] | Some a \<Rightarrow> [OpenPort UDP (int (uport a))])
   @ (case split_host_port (mf_listen_control c) of
        None \<Rightarrow> [] | Some (_, p) \<Rightarrow> if 0 < atoi_safe p then [OpenPort TCP (atoi_safe p)] else [])"

section \<open>The master's start\<close>

record started =
  sm_config :: master_config
  sm_master :: master
  sm_token :: bytes
  sm_server_id :: bytes
  sm_gateway :: ip
  sm_resolver :: resolver
  sm_listeners :: "(nat \<times> transport) list"
  sm_backend :: backend

definition start_services :: "start_env \<Rightarrow> master_config \<Rightarrow> bytes \<Rightarrow> backend \<Rightarrow> cmd list
    \<Rightarrow> (start_error + started) \<times> cmd list" where
  "start_services v c token b h =
     (case start_pool c of
        Inl e \<Rightarrow> (Inl e, h)
      | Inr p \<Rightarrow>
          (case start_data_plane v c of
             Inl e \<Rightarrow> (Inl e, h)
           | Inr a \<Rightarrow>
               if \<not> sv_netstack v then (Inl NetstackFailed, h)
               else (case start_dns c of
                   Inl e \<Rightarrow> (Inl e, h)
                 | Inr r \<Rightarrow>
                     (case start_listeners v b [a] c h of
                        (Inl e, h') \<Rightarrow> (Inl e, h')
                      | (Inr ls, h') \<Rightarrow>
                          (Inr \<lparr>sm_config = c, sm_master = new_master token p, sm_token = token,
                             sm_server_id = server_id (mf_server_id c),
                             sm_gateway = gateway_of (mf_tunnel_ip c), sm_resolver = r,
                             sm_listeners = ls, sm_backend = b\<rparr>,
                           fw_run (sv_run v) b (service_ports v c) h')))))"

definition master_start :: "(bytes \<Rightarrow> master_config option) \<Rightarrow> start_env \<Rightarrow> (start_error + started) \<times> cmd list" where
  "master_start decode v =
     (case start_config decode v of
        Inl e \<Rightarrow> (Inl e, [])
      | Inr (c, token) \<Rightarrow> (case start_firewall (sv_run v) of (b, h) \<Rightarrow> start_services v c token b h))"

text \<open>The signal handler, and what the handlers of the running process are given.\<close>

definition master_stop :: "start_env \<Rightarrow> started \<Rightarrow> cmd list \<Rightarrow> cmd list" where
  "master_stop v st h = snd (fw_teardown (sv_run v) (sm_backend st) h)"

definition run_config :: "cipher \<Rightarrow> (slave_session \<Rightarrow> bytes) \<Rightarrow> start_env \<Rightarrow> started \<Rightarrow> mcfg" where
  "run_config C json v st = \<lparr>mc_cipher = C, mc_token = sm_token st, mc_server_id = sm_server_id st,
     mc_resolve = sv_resolve v, mc_json = json\<rparr>"

section \<open>The control listener's certificate\<close>

record tls_config =
  tls_certs :: "(string \<times> string) list"
  tls_insecure :: bool
  tls_client_cert :: bool

definition self_signed_tls :: tls_config where
  "self_signed_tls = \<lparr>tls_certs = [], tls_insecure = True, tls_client_cert = False\<rparr>"

definition load_tls :: "(string \<Rightarrow> string \<Rightarrow> bool) \<Rightarrow> master_config \<Rightarrow> tls_config" where
  "load_tls loads c =
     (let cert = (if mf_cert c = [] then ''/etc/mini-tun-asymmetric/tls/fullchain.pem'' else mf_cert c);
          key = (if mf_key c = [] then ''/etc/mini-tun-asymmetric/tls/privkey.pem'' else mf_key c)
      in if loads cert key then \<lparr>tls_certs = [(cert, key)], tls_insecure = False, tls_client_cert = True\<rparr>
         else self_signed_tls)"

text \<open>\<open>tls.Listen\<close> refuses a configuration without a certificate; the first error of \<open>Listen\<close> ends the process.\<close>

definition control_listens :: "bool \<Rightarrow> tls_config \<Rightarrow> bool" where
  "control_listens tcp t \<longleftrightarrow> tcp \<and> tls_certs t \<noteq> []"

section \<open>The slave's start\<close>

record slave_started =
  ss_server :: slave_server
  ss_backend :: backend

definition relay_target :: "slave_config \<Rightarrow> string" where
  "relay_target c =
     (if sf_master_dp c \<noteq> [] then sf_master_dp c
      else case split_host_port (sf_master c) of None \<Rightarrow> [] | Some (host, _) \<Rightarrow> join_host_port host ''7003'')"

definition slave_relay :: "(string \<Rightarrow> udpaddr option) \<Rightarrow> bytes option \<Rightarrow> bytes \<Rightarrow> slave_config \<Rightarrow> aead option \<times> udpaddr option" where
  "slave_relay resolve rnd token c =
     (case new_aead (slave_key (derive_key token (str_bytes ''master-data-plane'')) (sf_id c)) rnd of
        None \<Rightarrow> (None, None)
      | Some a \<Rightarrow> (Some a, if relay_target c = [] then None else resolve (relay_target c)))"

definition slave_ports :: "start_env \<Rightarrow> slave_config \<Rightarrow> fw_op list" where
  "slave_ports v c = concat (map (\<lambda>s. case sv_resolve v s of None \<Rightarrow> [] | Some a \<Rightarrow> [OpenPort UDP (int (uport a))])
     [sf_listen_udp c, sf_listen_dp c])"

definition slave_bind :: "start_env \<Rightarrow> udpaddr list \<Rightarrow> string \<Rightarrow> start_error + udpaddr" where
  "slave_bind v bound s =
     (case sv_resolve v s of
        None \<Rightarrow> Inl AddressInvalid
      | Some a \<Rightarrow> (case sv_bind v bound a of None \<Rightarrow> Inl ListenFailed | Some q \<Rightarrow> Inr a))"

definition slave_start :: "(bytes \<Rightarrow> slave_config option) \<Rightarrow> bytes option \<Rightarrow> start_env
    \<Rightarrow> (start_error + slave_started) \<times> cmd list" where
  "slave_start decode rnd v =
     (case load_slave_config decode (sv_file v) of
        Inl e \<Rightarrow> (Inl (ConfigFailed e), [])
      | Inr c \<Rightarrow>
          (case decode64 (sf_token c) of
             None \<Rightarrow> (Inl TokenNotDecoded, [])
           | Some token \<Rightarrow>
               (case slave_bind v [] (sf_listen_udp c) of
                  Inl e \<Rightarrow> (Inl e, [])
                | Inr a \<Rightarrow>
                    (case by_name (sv_rnd v 0) (sf_transport c) of
                       None \<Rightarrow> (Inl (CarrierUnknown (sf_transport c)), [])
                     | Some tr \<Rightarrow>
                         (case slave_bind v [a] (sf_listen_dp c) of
                            Inl e \<Rightarrow> (Inl e, [])
                          | Inr b \<Rightarrow>
                              (case slave_relay (sv_resolve v) rnd token c of
                                 (relay, mdp) \<Rightarrow>
                                   (case start_firewall (sv_run v) of
                                      (fb, h) \<Rightarrow> (Inr \<lparr>ss_server = new_slave token tr relay mdp, ss_backend = fb\<rparr>,
                                        fw_run (sv_run v) fb (slave_ports v c) h))))))))"

section \<open>Starts that succeed\<close>

lemma validate_token_ok: "validate_token tok = None \<Longrightarrow> \<exists>raw. decode64 tok = Some raw \<and> 16 \<le> length raw"
  by (auto simp: validate_token_def min_token_bytes_def split: if_splits option.splits)

lemma load_master_ok:
  "load_master_config decode file = Inr c \<longleftrightarrow> (\<exists>b. file = Some b \<and> decode b = Some c) \<and> validate_token (mf_token c) = None"
  by (auto simp: load_master_config_def load_checked_def split: option.splits)

lemma load_slave_ok:
  "load_slave_config decode file = Inr c \<longleftrightarrow> (\<exists>b. file = Some b \<and> decode b = Some c) \<and> validate_token (sf_token c) = None"
  by (auto simp: load_slave_config_def load_checked_def split: option.splits)

lemma start_config_ok:
  "start_config decode v = Inr (c, t) \<longleftrightarrow> load_master_config decode (sv_file v) = Inr c \<and> decode64 (mf_token c) = Some t"
  by (auto simp: start_config_def split: sum.splits option.splits)

lemma start_config_error: "start_config decode v = Inl e \<Longrightarrow> \<exists>l. e = ConfigFailed l"
  by (auto simp: start_config_def load_master_ok dest: validate_token_ok split: sum.splits option.splits)

lemma start_pool_list:
  assumes "parse_cidr (mf_subnet c) = Some n"
  shows "\<exists>l. start_pool c = Inr (new_ip_pool l) \<and> new_subnet n (gateway_of (mf_tunnel_ip c)) = Some l
    \<and> distinct l \<and> length l \<le> 65536 \<and> (\<forall>a \<in> set l. length a = length (n_ip n) \<and> net_contains n a
      \<and> \<not> ip_equal a (ip_mask (n_ip n) (n_mask n)) \<and> \<not> ip_equal a (gateway_of (mf_tunnel_ip c)))"
  using parse_cidr_masked[OF assms] new_subnet_list[of n "gateway_of (mf_tunnel_ip c)"]
  by (auto simp: start_pool_def assms)

lemma start_pool_error: "start_pool c = Inl e \<Longrightarrow> e = SubnetInvalid"
  using start_pool_list[of c] by (cases "parse_cidr (mf_subnet c)") (auto simp: start_pool_def)

lemma new_pool_good:
  assumes "distinct l" and "\<forall>a \<in> set l. length a = 4"
  shows "wf_pool (new_ip_pool l)" "good_pool (pool_free (new_ip_pool l))"
  using assms by (auto simp: wf_pool_def new_ip_pool_def good_pool_def pool_free_def to4_def distinct_count_atmost_1
      count_mset_0_iff)

lemma master_start_ok:
  assumes "master_start decode v = (Inr st, h)"
  obtains c t p a h0 where "start_config decode v = Inr (c, t)" and "start_pool c = Inr p"
    and "start_data_plane v c = Inr a" and "start_dns c = Inr (sm_resolver st)"
    and "start_firewall (sv_run v) = (sm_backend st, h0)"
    and "start_listeners v (sm_backend st) [a] c h0 = (Inr (sm_listeners st), snd (start_listeners v (sm_backend st) [a] c h0))"
    and "h = fw_run (sv_run v) (sm_backend st) (service_ports v c) (snd (start_listeners v (sm_backend st) [a] c h0))"
    and "sm_config st = c" and "sm_token st = t" and "sm_master st = new_master t p"
    and "sm_gateway st = gateway_of (mf_tunnel_ip c)" and "sm_server_id st = server_id (mf_server_id c)"
  using assms by (auto simp: master_start_def start_services_def split: sum.splits prod.splits if_splits)

section \<open>Ports opened on the way\<close>

lemma fw_open_run: "snd (fw_open run b p port h) = fw_run run b [OpenPort p port] h"
  by simp

lemma start_firewall_run: "start_firewall run = (case detect run [] of (b, h) \<Rightarrow> (b, fw_run run b [Reconcile, Ensure] h))"
  by (simp add: start_firewall_def split: prod.split)

lemma start_ports_run:
  "\<exists>n \<le> length cps. snd (start_ports v b k bound cps h)
      = fw_run (sv_run v) b (map (\<lambda>cp. OpenPort UDP (cp_port cp)) (take n cps)) h
    \<and> (\<forall>ls. fst (start_ports v b k bound cps h) = Inr ls \<longrightarrow> n = length cps
        \<and> list_all2 (\<lambda>cp l. \<exists>rnd. by_name rnd (cp_transport cp) = Some (snd l)) cps ls)"
proof (induction cps arbitrary: k bound h)
  case (Cons cp cps)
  show ?case
  proof (cases "\<exists>tr a q. by_name (sv_rnd v k) (cp_transport cp) = Some tr
      \<and> sv_resolve v (''0.0.0.0:'' @ sprint (cp_port cp)) = Some a \<and> sv_bind v bound a = Some q")
    case True
    then obtain tr a q where t: "by_name (sv_rnd v k) (cp_transport cp) = Some tr"
      "sv_resolve v (''0.0.0.0:'' @ sprint (cp_port cp)) = Some a" "sv_bind v bound a = Some q"
      by blast
    let ?r = "start_ports v b (Suc k) (bound @ [a]) cps (snd (fw_open (sv_run v) b UDP (cp_port cp) h))"
    obtain n where n: "n \<le> length cps"
      "snd ?r = fw_run (sv_run v) b (map (\<lambda>cp. OpenPort UDP (cp_port cp)) (take n cps)) (snd (fw_open (sv_run v) b UDP (cp_port cp) h))"
      "\<forall>ls. fst ?r = Inr ls \<longrightarrow> n = length cps
        \<and> list_all2 (\<lambda>cp l. \<exists>rnd. by_name rnd (cp_transport cp) = Some (snd l)) cps ls"
      using Cons.IH by blast
    have s: "start_ports v b k bound (cp # cps) h
        = (case ?r of (Inl e, h') \<Rightarrow> (Inl e, h') | (Inr ls, h') \<Rightarrow> (Inr ((q, tr) # ls), h'))"
      using t by simp
    show ?thesis
      unfolding s using n t(1) by (intro exI[of _ "Suc n"]) (auto split: prod.splits sum.splits)
  next
    case False
    then show ?thesis
      by (intro exI[of _ 0]) (auto split: option.splits)
  qed
qed simp

text \<open>What a start did to the firewall: detection, the fresh table, and ports opened, nothing else.\<close>

definition opens_udp :: "fw_op list \<Rightarrow> bool" where
  "opens_udp ops \<longleftrightarrow> (\<forall>x \<in> set ops. \<exists>p. x = OpenPort UDP p)"

lemma start_listeners_run:
  "\<exists>ops. snd (start_listeners v b bound c h) = fw_run (sv_run v) b ops h \<and> opens_udp ops
    \<and> (\<forall>ls. fst (start_listeners v b bound c h) = Inr ls \<longrightarrow> ops =
        (if mf_ports c \<noteq> [] then map (\<lambda>cp. OpenPort UDP (cp_port cp)) (mf_ports c)
         else map (\<lambda>l. OpenPort UDP (int (fst l))) ls))"
proof (cases "mf_ports c = []")
  case True
  show ?thesis
  proof (cases "fst (start_single v b bound c h)")
    case (Inl e)
    with True show ?thesis
      by (intro exI[of _ "[]"]) (auto simp: start_listeners_def start_single_def opens_udp_def split: option.splits)
  next
    case (Inr ls)
    with True show ?thesis
      by (intro exI[of _ "map (\<lambda>l. OpenPort UDP (int (fst l))) ls"])
        (auto simp: start_listeners_def start_single_def opens_udp_def split: option.splits)
  qed
next
  case False
  let ?r = "start_ports v b 0 bound (mf_ports c) h"
  obtain n where n: "snd ?r = fw_run (sv_run v) b (map (\<lambda>cp. OpenPort UDP (cp_port cp)) (take n (mf_ports c))) h"
    "\<forall>ls. fst ?r = Inr ls \<longrightarrow> n = length (mf_ports c)"
    using start_ports_run[where v = v and b = b and k = 0 and bound = bound and cps = "mf_ports c" and h = h] by blast
  have "start_listeners v b bound c h = ?r"
    using False by (simp add: start_listeners_def)
  with n False show ?thesis
    by (intro exI[of _ "map (\<lambda>cp. OpenPort UDP (cp_port cp)) (take n (mf_ports c))"]) (auto simp: opens_udp_def)
qed

text \<open>The ports of a start that came up.\<close>

definition started_ports :: "start_env \<Rightarrow> started \<Rightarrow> fw_op list" where
  "started_ports v st =
     (let c = sm_config st in
      (if mf_ports c \<noteq> [] then map (\<lambda>cp. OpenPort UDP (cp_port cp)) (mf_ports c)
       else map (\<lambda>l. OpenPort UDP (int (fst l))) (sm_listeners st)) @ service_ports v c)"

lemma start_services_run:
  "\<exists>ops. snd (start_services v c t b h) = fw_run (sv_run v) b ops h
    \<and> (case fst (start_services v c t b h) of
         Inl _ \<Rightarrow> opens_udp ops | Inr st \<Rightarrow> sm_backend st = b \<and> sm_config st = c \<and> ops = started_ports v st)"
proof (cases "\<exists>p a d. start_pool c = Inr p \<and> start_data_plane v c = Inr a \<and> sv_netstack v \<and> start_dns c = Inr d")
  case True
  then obtain p a d where ok: "start_pool c = Inr p" "start_data_plane v c = Inr a" "sv_netstack v" "start_dns c = Inr d"
    by blast
  obtain ops where ops: "snd (start_listeners v b [a] c h) = fw_run (sv_run v) b ops h" "opens_udp ops"
    "\<forall>ls. fst (start_listeners v b [a] c h) = Inr ls \<longrightarrow> ops =
      (if mf_ports c \<noteq> [] then map (\<lambda>cp. OpenPort UDP (cp_port cp)) (mf_ports c)
       else map (\<lambda>l. OpenPort UDP (int (fst l))) ls)"
    using start_listeners_run[of v b "[a]" c h] by (elim exE conjE)
  obtain x h' where l: "start_listeners v b [a] c h = (x, h')"
    by (cases "start_listeners v b [a] c h")
  show ?thesis
  proof (cases x)
    case (Inl e)
    with ops(1,2) show ?thesis
      by (intro exI[of _ ops]) (simp add: start_services_def ok l)
  next
    case (Inr ls)
    with ops(1,3) show ?thesis
      by (intro exI[of _ "ops @ service_ports v c"])
        (simp add: start_services_def ok l started_ports_def fw_run_append)
  qed
next
  case False
  then have "(\<exists>e. fst (start_services v c t b h) = Inl e) \<and> snd (start_services v c t b h) = h"
    by (auto simp: start_services_def split: sum.splits)
  then show ?thesis
    by (intro exI[of _ "[]"]) (auto simp: opens_udp_def)
qed

lemma control_listens_iff:
  "control_listens tcp (load_tls loads c) \<longleftrightarrow> tcp \<and>
     loads (if mf_cert c = [] then ''/etc/mini-tun-asymmetric/tls/fullchain.pem'' else mf_cert c)
       (if mf_key c = [] then ''/etc/mini-tun-asymmetric/tls/privkey.pem'' else mf_key c)"
  by (auto simp: control_listens_def load_tls_def self_signed_tls_def Let_def)

lemma length_server_id [simp]: "length (server_id s) = 8"
  by (simp add: server_id_def)

lemma start_ports_length:
  "start_ports v b k bound cps h = (Inr ls, h') \<Longrightarrow> length ls = length cps"
  by (induction cps arbitrary: k bound h ls) (auto split: option.splits prod.splits sum.splits)

lemma start_listeners_length:
  "start_listeners v b bound c h = (Inr ls, h') \<Longrightarrow> length ls = (if mf_ports c = [] then 1 else length (mf_ports c))"
  by (auto simp: start_listeners_def start_single_def dest: start_ports_length split: if_splits option.splits)

lemma start_ports_error:
  "start_ports v b k bound cps h = (Inl e, h') \<Longrightarrow> (\<exists>s. e = CarrierUnknown s) \<or> e = AddressInvalid \<or> e = ListenFailed"
  by (induction cps arbitrary: k bound h) (auto split: option.splits prod.splits sum.splits)

lemma start_listeners_error:
  "start_listeners v b bound c h = (Inl e, h') \<Longrightarrow> (\<exists>s. e = CarrierUnknown s) \<or> e = AddressInvalid \<or> e = ListenFailed"
  by (auto simp: start_listeners_def start_single_def dest: start_ports_error split: if_splits option.splits)

lemma master_start_fields:
  assumes "master_start decode v = (Inr st, h)"
  shows "sm_gateway st = gateway_of (mf_tunnel_ip (sm_config st))"
    and "sm_server_id st = server_id (mf_server_id (sm_config st))"
  using assms by (auto elim: master_start_ok)

lemma master_start_token:
  assumes "master_start decode v = (Inr st, h)"
  shows "decode64 (mf_token (sm_config st)) = Some (sm_token st)" "16 \<le> length (sm_token st)"
proof -
  obtain c t where "start_config decode v = Inr (c, t)" "sm_config st = c" "sm_token st = t"
    using assms by (rule master_start_ok)
  then show "decode64 (mf_token (sm_config st)) = Some (sm_token st)" "16 \<le> length (sm_token st)"
    by (auto simp: start_config_ok load_master_ok dest: validate_token_ok)
qed

lemma master_start_pool:
  assumes "master_start decode v = (Inr st, h)" and "parse_cidr (mf_subnet (sm_config st)) = Some n"
  obtains l where "sm_master st = new_master (sm_token st) (new_ip_pool l)"
    and "new_subnet n (sm_gateway st) = Some l" and "distinct l" and "length l \<le> 65536"
    and "\<forall>a \<in> set l. length a = length (n_ip n) \<and> net_contains n a
      \<and> \<not> ip_equal a (ip_mask (n_ip n) (n_mask n)) \<and> \<not> ip_equal a (sm_gateway st)"
proof -
  obtain c t p where c: "start_pool c = Inr p" "sm_config st = c" "sm_token st = t" "sm_master st = new_master t p"
    "sm_gateway st = gateway_of (mf_tunnel_ip c)"
    using assms(1) by (rule master_start_ok)
  with start_pool_list[of c n] assms(2) that show thesis by auto
qed

lemma master_start_subnet: "master_start decode v = (Inr st, h) \<Longrightarrow> parse_cidr (mf_subnet (sm_config st)) \<noteq> None"
  by (rule master_start_ok, assumption) (auto simp: start_pool_def split: option.splits)

lemma held_in_pool: "live m x \<Longrightarrow> s_tun (heap m ! x) \<in># held_addrs m"
  by (force simp: live_def held_addrs_def table_all_def dest: map_of_SomeD)

section \<open>Properties\<close>

text \<open>C5. A started master: whatever happens to it afterwards, its token has at least 16 bytes, every live
  session has an address of the configured IPv4 prefix that is neither its network address nor the
  gateway's, no two have the same, and each has the key derived from the token and its address.\<close>

theorem started_master_sound:
  assumes "master_start decode v = (Inr st, h)" and "parse_cidr (mf_subnet (sm_config st)) = Some n"
    and "length (n_ip n) = 4" and "(mstep (run_config C json v st))\<^sup>*\<^sup>* (sm_master st) m" and "live m x"
  shows "16 \<le> length (sm_token st) \<and> net_contains n (s_tun (heap m ! x))
    \<and> \<not> ip_equal (s_tun (heap m ! x)) (ip_mask (n_ip n) (n_mask n)) \<and> \<not> ip_equal (s_tun (heap m ! x)) (sm_gateway st)
    \<and> s_key (heap m ! x) = session_key (sm_token st) (s_tun (heap m ! x))
    \<and> (\<forall>y. live m y \<and> s_tun (heap m ! y) = s_tun (heap m ! x) \<longrightarrow> y = x)"
proof -
  obtain l where l: "sm_master st = new_master (sm_token st) (new_ip_pool l)" "distinct l"
    "\<forall>a \<in> set l. length a = 4 \<and> net_contains n a
      \<and> \<not> ip_equal a (ip_mask (n_ip n) (n_mask n)) \<and> \<not> ip_equal a (sm_gateway st)"
    by (rule master_start_pool[OF assms(1,2)]) (use assms(3) in auto)
  note good = new_pool_good[OF l(2), OF ballI, OF conjunct1[OF bspec[OF l(3)]]]
  have run: "(mstep (run_config C json v st))\<^sup>*\<^sup>* (new_master (mc_token (run_config C json v st)) (new_ip_pool l)) m"
    using assms(4) l(1) by (simp add: run_config_def)
  note addrs = reachable_addresses[OF good run]
  have "s_tun (heap m ! x) \<in># pool_free (new_ip_pool l)"
    using held_in_pool[OF assms(5)] addrs by (metis union_iff)
  then have "s_tun (heap m ! x) \<in> set l"
    by (simp add: pool_free_def new_ip_pool_def)
  moreover have "s_key (heap m ! x) = session_key (sm_token st) (s_tun (heap m ! x))"
    using master_invD(3)[OF msteps_inv[OF run master_inv_new[OF good(1)] good(2)]] assms(5)
    by (simp add: sess_keys_def live_def run_config_def list_all_length)
  ultimately show ?thesis
    using l(3) addrs assms(5) master_start_token(2)[OF assms(1)] by blast
qed

text \<open>A start with an address for every name, a port for every socket and a firewall that answers everything.\<close>

definition sample_file :: master_config where
  "sample_file = default_master_config\<lparr>mf_token := encode64 (replicate 16 7), mf_server_id := ''master01'', mf_subnet := ''10.8.0.0/30'',
     mf_ports := [\<lparr>cp_port = 6881, cp_transport = ''utp''\<rparr>, \<lparr>cp_port = 443, cp_transport = ''quic''\<rparr>]\<rparr>"

definition sample_start :: start_env where
  "sample_start = \<lparr>sv_file = Some [], sv_run = (\<lambda>_ _. Some []), sv_resolve = (\<lambda>_. Some \<lparr>uip = [192, 0, 2, 1], uport = 7003\<rparr>),
     sv_bind = (\<lambda>_ a. Some (uport a)), sv_rnd = (\<lambda>_. replicate 32 0), sv_netstack = True\<rparr>"

lemma sample_cidr: "parse_cidr ''10.8.0.0/30'' = Some \<lparr>n_ip = [10, 8, 0, 0], n_mask = [255, 255, 255, 252]\<rparr>"
  by code_simp

lemma sample_gateway: "gateway_of ''10.8.0.1'' = [10, 8, 0, 1]"
  by code_simp

lemma sample_subnet: "new_subnet \<lparr>n_ip = [10, 8, 0, 0], n_mask = [255, 255, 255, 252]\<rparr> [10, 8, 0, 1] = Some [[10, 8, 0, 2]]"
proof -
  have "\<lparr>n_ip = [10, 8, 0, 0], n_mask = [255, 255, 255, 252]\<rparr> = cidr4 0x0A080000 2"
    by (simp add: cidr4_def put32_def mask_eq_exp_minus_1)
  moreover have "[0..<2 ^ 2] = [0, 1, 2, 3 :: nat]"
    by (simp add: upt_conv_Cons)
  ultimately show ?thesis
    by (simp add: cidr4_run reserved_def ip_equal_def put32_def mask_eq_exp_minus_1)
qed

lemma sample_token: "validate_token (encode64 (replicate 16 7)) = None"
  by (simp add: validate_token_def base64_inverse min_token_bytes_def)

lemma sample_dns: "start_dns sample_file = Inr \<lparr>rs_mode = ModePlain, rs_upstream = ''8.8.8.8:53'', rs_doh = [],
    rs_suppress = True, rs_cache = []\<rparr>"
  by (simp add: start_dns_def sample_file_def default_master_config_def new_resolver_def ModePlain_def ModeDoH_def ModeDoT_def Let_def)

lemma sample_starts:
  obtains st h where "master_start (\<lambda>_. Some sample_file) sample_start = (Inr st, h)" and "sm_config st = sample_file"
    and "sm_backend st = Nft"
proof -
  have c: "start_config (\<lambda>_. Some sample_file) sample_start = Inr (sample_file, replicate 16 7)"
    using sample_token by (simp add: start_config_ok load_master_ok sample_start_def sample_file_def base64_inverse)
  have "parse_cidr (mf_subnet sample_file) = Some \<lparr>n_ip = [10, 8, 0, 0], n_mask = [255, 255, 255, 252]\<rparr>"
    by (simp add: sample_file_def default_master_config_def sample_cidr)
  then obtain l where p: "start_pool sample_file = Inr (new_ip_pool l)"
    using start_pool_list by blast
  have b: "fst (start_firewall (\<lambda>_ _. Some [])) = Nft"
    by (simp add: start_firewall_def detect_def Let_def)
  have "\<exists>ls h'. start_listeners sample_start Nft [\<lparr>uip = [192, 0, 2, 1], uport = 7003\<rparr>] sample_file h = (Inr ls, h')" for h
    by (simp add: start_listeners_def sample_file_def sample_start_def by_name_def)
  moreover obtain h where f: "start_firewall (\<lambda>_ _. Some []) = (Nft, h)"
    using b by (cases "start_firewall (\<lambda>_ _. Some [])") simp
  ultimately obtain ls h' where
    "start_listeners sample_start Nft [\<lparr>uip = [192, 0, 2, 1], uport = 7003\<rparr>] sample_file h = (Inr ls, h')"
    by blast
  moreover have "start_data_plane sample_start sample_file = Inr \<lparr>uip = [192, 0, 2, 1], uport = 7003\<rparr>"
    "sv_netstack sample_start" "sv_run sample_start = (\<lambda>_ _. Some [])"
    by (simp_all add: start_data_plane_def sample_start_def)
  ultimately have "\<exists>st. master_start (\<lambda>_. Some sample_file) sample_start =
      (Inr st, fw_run (\<lambda>_ _. Some []) Nft (service_ports sample_start sample_file) h') \<and> sm_config st = sample_file
    \<and> sm_backend st = Nft"
    by (simp add: master_start_def start_services_def c p f sample_dns)
  then show thesis by (auto intro: that)
qed

text \<open>From any started master with an address to give, a slave and a client lead to a first session.\<close>

definition first_up :: "mcfg \<Rightarrow> ippool \<Rightarrow> master" where
  "first_up cfg p = snd (master_slave_hello cfg (\<lambda>_. Some sample_info) (Some (replicate 8 0)) 1 ''192.0.2.9:4000'' 0
     (Some (MsgSlaveInfo, [])) (new_master (mc_token cfg) p))"

lemma first_up_fields:
  "slaves (ctrl (world (first_up cfg p))) = [(''a'', 0)]" "robin (ctrl (world (first_up cfg p))) = 0"
  "sl_id (conns (ctrl (world (first_up cfg p))) ! 0) = ''a''" "heap (first_up cfg p) = []" "by_id (first_up cfg p) = []"
  "pool (world (first_up cfg p)) = p" "replays (world (first_up cfg p)) = []"
  by (auto simp: first_up_def master_slave_hello_def slave_hello_def sample_info_def new_master_def
      new_table_def new_registry_def register_def Let_def on_slave_register_def split: prod.split option.split)

lemma first_session:
  assumes "wf_pool p" and "good_pool (pool_free p)" and "pool_allocate p = (Some tun, p')"
    and "length (mc_server_id cfg) = 8" and "\<And>s. mc_resolve cfg s \<noteq> None"
  obtains m where "(mstep cfg)\<^sup>*\<^sup>* (new_master (mc_token cfg) p) m" and "live m 0" and "s_tun (heap m ! 0) = tun"
proof -
  let ?m = "first_up cfg p" and ?hello = "hello_marshal (client_hello (mc_token cfg) HelloVersion3 1700000000 (replicate 16 5))"
  have up: "(mstep cfg)\<^sup>*\<^sup>* (new_master (mc_token cfg) p) ?m"
    unfolding first_up_def by (rule r_into_rtranclp, rule slave_up)
  have e: "he_id sample_henv = Some (replicate 16 1)" "he_rnd sample_henv = Some (replicate 8 0)"
    by (simp_all add: sample_henv_def)
  have guard: "fst (hello_guard (mc_token cfg) (he_unix sample_henv) ?hello (replays (world ?m)))
      = Inr (client_hello (mc_token cfg) HelloVersion3 1700000000 (replicate 16 5))"
    unfolding first_up_fields sample_henv_def
    using client_hello_accepted[of "replicate 16 5" HelloVersion3 1700000000 1700000000 "[]" "mc_token cfg"]
    by (simp add: hello_in_window_iff cache_inv_def)
  have pk: "fst (pick (he_pick sample_henv) (ctrl (world ?m))) = Some 0"
    by (simp add: pick_def sample_henv_def first_up_fields)
  have al: "pool_allocate (pool (world ?m)) = (Some tun, p')"
    by (simp add: first_up_fields assms(3))
  have env: "env_ok sample_henv ?m"
    by (simp add: env_ok_def sample_henv_def is_snapshot_def registry_all_def first_up_fields)
  obtain su where su: "mc_resolve cfg (sl_udp (conns (ctrl (world ?m)) ! 0)) = Some su"
    using assms(5) by blast
  have inv: "table_inv ?m"
    by (rule master_invD(1)[OF msteps_inv[OF up master_inv_new[OF assms(1)] assms(2)]])
  obtain tr' m where h: "handle_handshake cfg sample_henv sample_addr ?hello CS2 ?m = Some (tr', m)"
      and l: "live m 0" "s_tun (heap m ! 0) = tun"
    by (rule handshake_reply[OF guard pk al e env su, of CS2 sample_addr]) (simp_all add: inv assms(4) first_up_fields)
  have "tr_unwrap CS2 (fst (tr_wrap sample_env CS2 PktTypeHandshake ?hello)) = Some (PktTypeHandshake, ?hello)"
    by (rule tr_unwrap_wrap) simp_all
  then have "serve cfg sample_henv True sample_addr (fst (tr_wrap sample_env CS2 PktTypeHandshake ?hello)) CS2 ?m
      = Some (tr', m)"
    using h by (simp add: serve_def)
  then have "mstep cfg ?m m"
    by (rule control[OF env])
  from that[OF rtranclp.rtrancl_into_rtrancl[OF up this] l] show thesis .
qed

theorem started_master_sound_witness:
  "\<exists>st h m. master_start (\<lambda>_. Some sample_file) sample_start = (Inr st, h)
    \<and> (mstep (run_config null_cipher (\<lambda>_. []) sample_start st))\<^sup>*\<^sup>* (sm_master st) m \<and> live m 0
    \<and> net_contains \<lparr>n_ip = [10, 8, 0, 0], n_mask = [255, 255, 255, 252]\<rparr> (s_tun (heap m ! 0))"
proof -
  let ?n = "\<lparr>n_ip = [10, 8, 0, 0], n_mask = [255, 255, 255, 252]\<rparr>"
  obtain st h where st: "master_start (\<lambda>_. Some sample_file) sample_start = (Inr st, h)" "sm_config st = sample_file"
    by (rule sample_starts)
  have n: "parse_cidr (mf_subnet (sm_config st)) = Some ?n"
    by (simp add: st(2) sample_file_def default_master_config_def sample_cidr)
  have g: "sm_gateway st = [10, 8, 0, 1]"
    using master_start_fields(1)[OF st(1)] by (simp add: st(2) sample_file_def default_master_config_def sample_gateway)
  have m: "sm_master st = new_master (sm_token st) (new_ip_pool [[10, 8, 0, 2]])"
    by (rule master_start_pool[OF st(1) n]) (simp add: g sample_subnet)
  let ?cfg = "run_config null_cipher (\<lambda>_. []) sample_start st"
  have sid: "length (mc_server_id ?cfg) = 8"
    using master_start_fields(2)[OF st(1)] by (simp add: run_config_def)
  have al: "pool_allocate (new_ip_pool [[10, 8, 0, 2]]) = (Some [10, 8, 0, 2], new_ip_pool [])"
    by (simp add: pool_allocate_def new_ip_pool_def subnet_allocate_def)
  have good: "wf_pool (new_ip_pool [[10, 8, 0, 2]])" "good_pool (pool_free (new_ip_pool [[10, 8, 0, 2]]))"
    by (rule new_pool_good; simp)+
  have res: "\<And>s. mc_resolve ?cfg s \<noteq> None"
    by (simp add: run_config_def sample_start_def)
  obtain m where r: "(mstep ?cfg)\<^sup>*\<^sup>* (new_master (mc_token ?cfg) (new_ip_pool [[10, 8, 0, 2]])) m" "live m 0"
    using first_session[OF good al sid res] by blast
  then have run: "(mstep ?cfg)\<^sup>*\<^sup>* (sm_master st) m"
    by (simp add: m run_config_def)
  with started_master_sound[OF st(1) n _ run r(2)] st(1) r(2) show ?thesis by auto
qed




section \<open>The slave beside it\<close>

lemma slave_start_ok:
  assumes "slave_start decode rnd v = (Inr sl, h)"
  obtains c t tr where "load_slave_config decode (sv_file v) = Inr c" and "decode64 (sf_token c) = Some t"
    and "by_name (sv_rnd v 0) (sf_transport c) = Some tr"
    and "ss_server sl = new_slave t tr (fst (slave_relay (sv_resolve v) rnd t c)) (snd (slave_relay (sv_resolve v) rnd t c))"
    and "h = fw_run (sv_run v) (ss_backend sl) (slave_ports v c) (snd (start_firewall (sv_run v)))"
  using assms by (auto simp: slave_start_def split: sum.splits option.splits prod.splits)

lemma slave_start_failed: "slave_start decode rnd v = (Inl e, h) \<Longrightarrow> h = []"
  by (auto simp: slave_start_def split: sum.splits option.splits prod.splits)

text \<open>C16. One token, one key: a master and a slave started from configurations with the same token hold the
  same token bytes, and the key of the slave's relay cipher is the one under which the master's
  data plane seals for the slave's id; the slave starts with its invariant, and a slave that fails
  to start has run no command.\<close>

theorem started_keys_agree:
  assumes "master_start dm vm = (Inr st, h)" and "slave_start ds rnd vs = (Inr sl, h')"
    and "load_slave_config ds (sv_file vs) = Inr c" and "sf_token c = mf_token (sm_config st)"
    and "16 \<le> length (sv_rnd vs 0)"
  shows "stoken (ss_server sl) = sm_token st \<and> slave_inv (ss_server sl)
    \<and> (\<forall>a. srelay (ss_server sl) = Some a \<longrightarrow> a_key a = slave_key (dkey (dp (world (sm_master st)))) (sf_id c))
    \<and> (\<forall>ds' rnd' vs' e g. slave_start ds' rnd' vs' = (Inl e, g) \<longrightarrow> g = [])"
proof -
  obtain t tr where c: "decode64 (sf_token c) = Some t" "by_name (sv_rnd vs 0) (sf_transport c) = Some tr"
    "ss_server sl = new_slave t tr (fst (slave_relay (sv_resolve vs) rnd t c)) (snd (slave_relay (sv_resolve vs) rnd t c))"
    using slave_start_ok[OF assms(2)] assms(3) by (metis sum.inject(2))
  have t: "t = sm_token st"
    using c(1) master_start_token(1)[OF assms(1)] assms(4) by simp
  obtain p where m: "sm_master st = new_master t p"
    using master_start_ok[OF assms(1)] t by metis
  have "dkey (dp (world (sm_master st))) = derive_key t (str_bytes ''master-data-plane'')"
    by (simp add: m new_master_def new_table_def new_dataplane_def)
  moreover have "fst (slave_relay (sv_resolve vs) rnd t c) = Some a \<Longrightarrow>
      a_key a = slave_key (derive_key t (str_bytes ''master-data-plane'')) (sf_id c)" for a
    by (cases rnd) (auto simp: slave_relay_def new_aead_def split: option.splits)
  moreover have "slave_inv (ss_server sl)"
    unfolding c(3) by (rule slave_inv_new[OF by_name_wf[OF assms(5) c(2)]])
  ultimately show ?thesis
    using slave_start_failed by (auto simp: c(3) new_slave_def t)
qed

definition sample_slave_file :: slave_config where
  "sample_slave_file = default_slave_config\<lparr>sf_token := encode64 (replicate 16 7), sf_id := ''slave01'',
     sf_master := ''198.51.100.1:7001'', sf_transport := ''utp''\<rparr>"

theorem started_keys_agree_witness:
  "\<exists>st h sl h' a. master_start (\<lambda>_. Some sample_file) sample_start = (Inr st, h)
    \<and> slave_start (\<lambda>_. Some sample_slave_file) (Some (replicate 8 0)) sample_start = (Inr sl, h')
    \<and> srelay (ss_server sl) = Some a \<and> a_key a = slave_key (dkey (dp (world (sm_master st)))) ''slave01''"
proof -
  obtain st h where st: "master_start (\<lambda>_. Some sample_file) sample_start = (Inr st, h)" "sm_config st = sample_file"
    by (rule sample_starts)
  have c: "load_slave_config (\<lambda>_. Some sample_slave_file) (sv_file sample_start) = Inr sample_slave_file"
    using sample_token by (simp add: load_slave_ok sample_start_def sample_slave_file_def)
  have r: "sv_resolve sample_start s = Some \<lparr>uip = [192, 0, 2, 1], uport = 7003\<rparr>"
    "sv_bind sample_start b a = Some (uport a)" for s b a
    by (simp_all add: sample_start_def)
  obtain fb fh where f: "start_firewall (sv_run sample_start) = (fb, fh)"
    by (cases "start_firewall (sv_run sample_start)")
  obtain tr where tr: "by_name (sv_rnd sample_start 0) (sf_transport sample_slave_file) = Some tr"
    by (simp add: by_name_def sample_slave_file_def)
  have t: "decode64 (sf_token sample_slave_file) = Some (replicate 16 7)"
    by (simp add: sample_slave_file_def base64_inverse)
  obtain a where a: "fst (slave_relay (sv_resolve sample_start) (Some (replicate 8 0)) (replicate 16 7) sample_slave_file) = Some a"
    by (simp add: slave_relay_def new_aead_def)
  obtain sl h' where sl: "slave_start (\<lambda>_. Some sample_slave_file) (Some (replicate 8 0)) sample_start = (Inr sl, h')"
    "srelay (ss_server sl) = Some a"
    using a by (cases "slave_relay (sv_resolve sample_start) (Some (replicate 8 0)) (replicate 16 7) sample_slave_file")
      (simp add: slave_start_def c t slave_bind_def r tr f new_slave_def)
  have "sf_token sample_slave_file = mf_token (sm_config st)" "16 \<le> length (sv_rnd sample_start 0)"
    "sf_id sample_slave_file = ''slave01''"
    by (simp_all add: sample_slave_file_def st(2) sample_file_def sample_start_def)
  with started_keys_agree[OF st(1) sl(1) c] sl st(1) show ?thesis by auto
qed

end
