(* ===== verification/Metrics.thy ===== *)
theory Metrics
  imports MasterTheorems
begin

text \<open>
  The master's metrics, \<open>master/metrics\<close> and the health callback of \<open>main\<close>: the snapshot served,
  and the invariant that its session gauges are those of the table. No code adds to the two DNS
  counters. The uptime is the whole seconds of the duration, without the rounding of \<open>Seconds\<close>.
\<close>

section \<open>The snapshot\<close>

record slave_stat =
  st_id :: string
  st_connected :: bool
  st_seen_ms :: int
  st_sessions :: nat
  st_up :: bool

record snapshot =
  sn_uptime :: int
  sn_created :: u64
  sn_active :: int
  sn_auth_failures :: u64
  sn_dns_queries :: u64
  sn_dns_errors :: u64
  sn_packets :: u64
  sn_bytes_up :: u64
  sn_spoofed :: u64
  sn_slaves :: "slave_stat list"

definition slave_stats :: "time \<Rightarrow> master \<Rightarrow> slave_stat list" where
  "slave_stats now m = map (\<lambda>h. \<lparr>st_id = hl_id h, st_connected = True, st_seen_ms = quot (now - hl_seen h) 1000000,
     st_sessions = count_of (count_by_slave m) (hl_id h), st_up = hl_up h\<rparr>) (registry_health (ctrl (world m)))"

definition take_snapshot :: "time \<Rightarrow> time \<Rightarrow> master \<Rightarrow> snapshot" where
  "take_snapshot start now m =
     (let c = counts (world m) in
      \<lparr>sn_uptime = quot (now - start) second, sn_created = n_created c, sn_active = n_active c,
       sn_auth_failures = n_auth_failures c, sn_dns_queries = 0, sn_dns_errors = 0, sn_packets = n_packets c,
       sn_bytes_up = n_bytes_up c, sn_spoofed = n_spoofed c, sn_slaves = slave_stats now m\<rparr>)"

section \<open>The gauges follow the table\<close>

definition gauges :: "master \<Rightarrow> bool" where
  "gauges m \<longleftrightarrow> n_active (counts (world m)) = int (table_len m) \<and> n_created (counts (world m)) = of_nat (length (heap m))"

definition same_gauges :: "master \<Rightarrow> master \<Rightarrow> bool" where
  "same_gauges m m' \<longleftrightarrow> by_id m' = by_id m \<and> length (heap m') = length (heap m)
     \<and> n_active (counts (world m')) = n_active (counts (world m)) \<and> n_created (counts (world m')) = n_created (counts (world m))"

lemma gauges_same: "same_gauges m m' \<Longrightarrow> gauges m \<Longrightarrow> gauges m'"
  by (simp add: same_gauges_def gauges_def table_len_def)

lemma same_gauges_refl [simp]: "same_gauges m m"
  by (simp add: same_gauges_def)

lemma same_gauges_trans: "same_gauges m m' \<Longrightarrow> same_gauges m' m'' \<Longrightarrow> same_gauges m m''"
  by (simp add: same_gauges_def)

lemma same_gauges_touch [simp]: "same_gauges m (touch now p m)" "same_gauges m (set_slave i p m)"
  by (simp_all add: same_gauges_def touch_def set_slave_def)

lemma same_gauges_world:
  "n_active (counts (f (world m))) = n_active (counts (world m)) \<Longrightarrow> n_created (counts (f (world m))) = n_created (counts (world m))
    \<Longrightarrow> same_gauges m (on_world f m)"
  by (simp add: same_gauges_def)

lemma counts_deliver [simp]:
  "n_active (counts (deliver pkt t w)) = n_active (counts w)" "n_created (counts (deliver pkt t w)) = n_created (counts w)"
  by (simp_all add: deliver_def emit_def bump_def)

lemma same_gauges_deliver [simp]: "same_gauges m (on_world (deliver pkt t) m)"
  by (rule same_gauges_world) simp_all

lemma same_gauges_serve_data: "same_gauges m (serve_data cfg now d buf m)"
  by (auto simp: serve_data_def Let_def same_gauges_def touch_def split: option.splits sum.splits)

lemma same_gauges_uplink: "same_gauges m (handle_uplink cfg rnd now tip ct m)"
  by (auto simp: handle_uplink_def Let_def same_gauges_def touch_def split: option.splits sum.splits)

lemma same_gauges_dp_read: "dp_read_step cfg rnd now src buf m = Some m' \<Longrightarrow> same_gauges m m'"
  by (auto simp: dp_read_step_def same_gauges_uplink split: dp_recv.splits)

lemma same_gauges_choice: "same_gauges m (handle_slave_choice cfg order payload m)"
  by (auto simp: handle_slave_choice_def Let_def split: option.splits sum.splits)

lemma same_gauges_output: "ns_output cfg pkt m = Some (r, m') \<Longrightarrow> same_gauges m m'"
  by (auto simp: ns_output_def Let_def intro!: same_gauges_world split: if_splits option.splits prod.splits)

lemma same_gauges_slave_hello: "same_gauges m (snd (master_slave_hello cfg decode rnd conn remote now first m))"
  by (auto simp: master_slave_hello_def on_slave_register_def intro!: same_gauges_world
      split: option.splits prod.splits)

lemma same_gauges_slave_read: "same_gauges m (master_slave_read c now frame m)"
  by (auto simp: master_slave_read_def intro!: same_gauges_world)

lemma gauges_open:
  assumes "n_created (counts (world m)) = of_nat (length (heap m))"
  shows "gauges (open_session cfg e addr tr c tun sid a m)"
  using assms
  by (simp add: open_session_def Let_def gauges_def alloc_session_def table_add_def bump_def table_len_def split: option.split)

lemma gauges_establish:
  assumes "establish cfg e addr h tr c tun sid a m = Some (tr', m')" and "n_created (counts (world m)) = of_nat (length (heap m))"
  shows "gauges m'"
proof -
  have "same_gauges (open_session cfg e addr tr c tun sid a m) m'"
    using assms(1) by (auto simp: establish_def Let_def same_gauges_def emit_def split: option.splits prod.splits)
  then show ?thesis
    using gauges_open[OF assms(2)] by (rule gauges_same)
qed

lemma gauges_world:
  "counts (f (world m)) = counts (world m) \<Longrightarrow> gauges m \<Longrightarrow> gauges (on_world f m)"
  by (simp add: gauges_def table_len_def)

lemma gauges_handshake:
  assumes "handle_handshake cfg e addr payload tr m = Some (tr', m')" and "gauges m"
  shows "gauges m'"
  using assms
  by (auto simp: handle_handshake_def Let_def bump_def gauges_def table_len_def
      split: sum.splits prod.splits option.splits if_splits dest!: gauges_establish)

lemma gauges_serve:
  assumes "serve cfg e acc addr buf tr m = Some (tr', m')" and "gauges m"
  shows "gauges m'"
proof (cases "acc \<and> (\<exists>p. tr_unwrap tr buf = Some (PktTypeHandshake, p))")
  case True
  with assms(1) obtain payload where "handle_handshake cfg e addr payload tr m = Some (tr', m')"
    by (auto simp: serve_def)
  then show ?thesis
    using assms(2) by (rule gauges_handshake)
next
  case False
  with assms(1) have "same_gauges m m'"
    using same_gauges_choice[unfolded same_gauges_def, where m = m]
    by (auto simp: serve_def Let_def same_gauges_def touch_def split: option.splits if_splits sum.splits)
  then show ?thesis
    using assms(2) by (rule gauges_same)
qed

lemma gauges_remove: "gauges m \<Longrightarrow> gauges (table_remove (on_remove order) i m)"
  by (auto simp: table_remove_def on_remove_def Let_def gauges_def bump_def emit_def table_len_def split: option.splits)

lemma gauges_reap: "gauges m \<Longrightarrow> gauges (reap (on_remove order) now ps m)"
  by (induction ps arbitrary: m) (simp_all add: gauges_remove)

lemma gauges_step: "mstep cfg m m' \<Longrightarrow> gauges m \<Longrightarrow> gauges m'"
proof (induction rule: mstep.induct)
  case (control e m acc addr buf tr tr' m')
  then show ?case using gauges_serve by blast
qed (auto simp: master_reap_def intro: gauges_reap gauges_same same_gauges_serve_data same_gauges_dp_read
    same_gauges_uplink same_gauges_output same_gauges_slave_hello same_gauges_slave_read)

lemma gauges_run: "(mstep cfg)\<^sup>*\<^sup>* m m' \<Longrightarrow> gauges m \<Longrightarrow> gauges m'"
  by (induction rule: rtranclp_induct) (auto intro: gauges_step)

lemma gauges_new: "gauges (new_master token p)"
  by (simp add: gauges_def new_master_def new_table_def table_len_def no_counts_def)

section \<open>Properties\<close>

text \<open>The metrics are those of the table: in every state the master reaches, the snapshot's active
  sessions are the live sessions, its created sessions are all sessions ever made, modulo 2^64, the
  slaves listed are the registered ones, all connected, each with the number of sessions pinned to it,
  and the two DNS counters are 0.\<close>

theorem metrics_exact:
  assumes "(mstep cfg)\<^sup>*\<^sup>* (new_master token p) m" and "s = take_snapshot start now m"
  shows "sn_active s = int (length (table_all m)) \<and> sn_created s = of_nat (length (heap m))
    \<and> map st_id (sn_slaves s) = map hl_id (registry_health (ctrl (world m)))
    \<and> (\<forall>x \<in> set (sn_slaves s). st_connected x \<and> st_sessions x = length (filter (\<lambda>q. slave_of q m = st_id x) (table_all m)))
    \<and> sn_dns_queries s = 0 \<and> sn_dns_errors s = 0"
  using gauges_run[OF assms(1) gauges_new]
  by (auto simp: assms(2) take_snapshot_def Let_def gauges_def table_len_def table_all_def slave_stats_def count_by_slave_of)

theorem metrics_exact_witness:
  "\<exists>m s. live m 0 \<and> s = take_snapshot 0 (5 * second) m \<and> sn_active s = int (length (table_all m)) \<and> sn_dns_queries s = 0"
proof -
  obtain tr' m where m: "(mstep sample_cfg)\<^sup>*\<^sup>* (new_master (mc_token sample_cfg) sample_pool) m" "live m 0"
    by (rule sample_session)
  show ?thesis
    using metrics_exact[OF m(1) refl, of 0 "5 * second"] m(2) by blast
qed

end
