(* ===== verification/Setup.thy ===== *)
theory Setup
  imports Startup Metrics ClientTheorems
begin

text \<open>
  The server's set-up tool, \<open>server-tui\<close>: the tokens it makes and checks, the configurations its
  wizards write, the commands of an installation, and what its status page reads out of the
  configuration, the journal and the metrics. Drawing, menus and the generation of the certificate
  are not modelled; the \<open>systemctl\<close> and firewall tools answer as in \<open>Netfw\<close>.
\<close>

section \<open>Tokens and ports\<close>

definition gen_token :: "bytes option \<Rightarrow> string option" where
  "gen_token rnd = map_option encode64 rnd"

definition validate_token_len :: "string \<Rightarrow> token_error option" where
  "validate_token_len tok =
     (if tok = [] then Some TokenEmpty
      else case decode64 tok of
        None \<Rightarrow> Some TokenNotBase64
      | Some raw \<Rightarrow> if length raw < 16 then Some (TokenShort (length raw)) else None)"

definition trim_space :: "string \<Rightarrow> string" where
  "trim_space s = rev (dropWhile is_space (rev (dropWhile is_space s)))"

definition carrier_port :: "string \<Rightarrow> int" where
  "carrier_port c = (if c = ''utp'' then 6881 else if c = ''cs2'' then 7000 else if c = ''webrtc'' then 3478
     else if c = ''quic'' then 443 else 0)"

definition carrier_order :: "string list" where
  "carrier_order = [''utp'', ''cs2'', ''webrtc'', ''quic'']"

definition port_of :: "string \<Rightarrow> string" where
  "port_of hp = (case split_host_port hp of None \<Rightarrow> hp | Some (_, p) \<Rightarrow> p)"

section \<open>The commands of an installation\<close>

definition open_firewall :: "(string \<Rightarrow> bool) \<Rightarrow> string list \<Rightarrow> string list \<Rightarrow> cmd list" where
  "open_firewall present udp tcp =
     (if present ''firewall-cmd'' then
        map (\<lambda>p. fw [''--permanent'', ''--add-port='' @ p]) (udp @ tcp) @ [fw [''--reload'']]
      else if present ''ufw'' then map (\<lambda>p. ufw [''allow'', p]) (udp @ tcp)
      else [])"

definition enable_start :: "runner \<Rightarrow> string \<Rightarrow> cmd list \<Rightarrow> bool \<times> cmd list" where
  "enable_start run svc h = run_all run [(''systemctl'', [''enable'', svc]), (''systemctl'', [''restart'', svc])] h"

text \<open>What the system answers: whether the certificate and the configuration could be written, which
  tools there are, and what commands return.\<close>

record setup_env =
  se_tls :: bool
  se_save :: bool
  se_present :: "string \<Rightarrow> bool"
  se_run :: runner

datatype setup_error = TokenRefused token_error | HostMissing | TlsFailed | SaveFailed | ServiceFailed

datatype setup_step = TlsGenerated | ConfigWritten | FirewallOpened | ServiceStarted

definition run_master_install :: "setup_env \<Rightarrow> master_config \<Rightarrow> int \<Rightarrow> cmd list
    \<Rightarrow> setup_step list \<times> setup_error option \<times> cmd list" where
  "run_master_install v c port h =
     (if \<not> se_tls v then ([], Some TlsFailed, h)
      else if \<not> se_save v then ([TlsGenerated], Some SaveFailed, h)
      else let h1 = h @ open_firewall (se_present v)
             [sprint port @ ''/udp'', port_of (mf_listen_dp c) @ ''/udp'', ''32768-60999/udp'']
             [port_of (mf_listen_control c) @ ''/tcp''] in
        (case enable_start (se_run v) ''mini-tun-asymmetric-master'' h1 of
           (False, h2) \<Rightarrow> ([TlsGenerated, ConfigWritten, FirewallOpened], Some ServiceFailed, h2)
         | (True, h2) \<Rightarrow> ([TlsGenerated, ConfigWritten, FirewallOpened, ServiceStarted], None, h2)))"

definition run_slave_install :: "setup_env \<Rightarrow> slave_config \<Rightarrow> cmd list
    \<Rightarrow> setup_step list \<times> setup_error option \<times> cmd list" where
  "run_slave_install v c h =
     (if \<not> se_save v then ([], Some SaveFailed, h)
      else let h1 = h @ open_firewall (se_present v)
             [port_of (sf_listen_udp c) @ ''/udp'', port_of (sf_listen_dp c) @ ''/udp''] [] in
        (case enable_start (se_run v) ''mini-tun-asymmetric-slave'' h1 of
           (False, h2) \<Rightarrow> ([ConfigWritten, FirewallOpened], Some ServiceFailed, h2)
         | (True, h2) \<Rightarrow> ([ConfigWritten, FirewallOpened, ServiceStarted], None, h2)))"

section \<open>The wizards\<close>

definition tls_dir :: string where "tls_dir = ''/etc/mini-tun-asymmetric/tls''"

text \<open>The form's fields are the token as typed, the carrier chosen and the server id.\<close>

definition wizard_master_config :: "string \<Rightarrow> string \<Rightarrow> string \<Rightarrow> master_config" where
  "wizard_master_config token car sid =
     (let c = default_master_config in
      c\<lparr>mf_listen_control := (if mf_listen_control c = [] then ''0.0.0.0:7001'' else mf_listen_control c),
        mf_listen_dp := (if mf_listen_dp c = [] then ''0.0.0.0:7003'' else mf_listen_dp c),
        mf_server_id := sid, mf_cert := tls_dir @ ''/fullchain.pem'', mf_key := tls_dir @ ''/privkey.pem'',
        mf_token := token, mf_ports := [\<lparr>cp_port = carrier_port car, cp_transport = car\<rparr>],
        mf_listen_udp := ''0.0.0.0:'' @ sprint (carrier_port car), mf_transport := car\<rparr>)"

definition wizard_master :: "setup_env \<Rightarrow> string \<Rightarrow> string \<Rightarrow> string
    \<Rightarrow> (setup_error + master_config) \<times> setup_step list \<times> cmd list" where
  "wizard_master v token car sid =
     (case validate_token_len (trim_space token) of
        Some e \<Rightarrow> (Inl (TokenRefused e), [], [])
      | None \<Rightarrow>
          (let c = wizard_master_config (trim_space token) car sid in
           case run_master_install v c (carrier_port car) [] of
             (steps, Some e, h) \<Rightarrow> (Inl e, steps, h)
           | (steps, None, h) \<Rightarrow> (Inr c, steps, h)))"

definition wizard_slave_config :: "string \<Rightarrow> string \<Rightarrow> string \<Rightarrow> string \<Rightarrow> slave_config" where
  "wizard_slave_config host token car sid =
     (let c = default_slave_config in
      c\<lparr>sf_listen_udp := (if sf_listen_udp c = [] then ''0.0.0.0:7002'' else sf_listen_udp c),
        sf_listen_dp := (if sf_listen_dp c = [] then ''0.0.0.0:7004'' else sf_listen_dp c),
        sf_id := sid, sf_token := token, sf_transport := (if car = [] then ''utp'' else car),
        sf_master := join_host_port host ''7001'', sf_master_dp := join_host_port host ''7003'', sf_ca := []\<rparr>)"

definition wizard_slave :: "setup_env \<Rightarrow> string \<Rightarrow> string \<Rightarrow> string \<Rightarrow> string
    \<Rightarrow> (setup_error + slave_config) \<times> setup_step list \<times> cmd list" where
  "wizard_slave v host token car sid =
     (if trim_space host = [] then (Inl HostMissing, [], [])
      else case validate_token_len (trim_space token) of
        Some e \<Rightarrow> (Inl (TokenRefused e), [], [])
      | None \<Rightarrow>
          (let c = wizard_slave_config (trim_space host) (trim_space token) car sid in
           case run_slave_install v c [] of
             (steps, Some e, h) \<Rightarrow> (Inl e, steps, h)
           | (steps, None, h) \<Rightarrow> (Inr c, steps, h)))"

section \<open>The status page\<close>

text \<open>The file is \<open>None\<close> when it cannot be read; \<open>decode\<close> is \<open>json.Unmarshal\<close> over the default configuration.\<close>

definition master_carriers :: "(bytes \<Rightarrow> master_config option) \<Rightarrow> bytes option \<Rightarrow> string" where
  "master_carriers decode file =
     (case file of
        None \<Rightarrow> []
      | Some b \<Rightarrow>
          (case decode b of
             None \<Rightarrow> []
           | Some c \<Rightarrow>
               if mf_ports c \<noteq> []
               then join '', '' (map (\<lambda>cp. cp_transport cp @ '':'' @ sprint (cp_port cp)) (mf_ports c))
               else (if mf_transport c = [] then ''cs2'' else mf_transport c) @ '' ('' @ mf_listen_udp c @ '')''))"

definition join_carrier :: "master_config \<Rightarrow> string" where
  "join_carrier c =
     (let tr = (if mf_ports c \<noteq> [] \<and> cp_transport (hd (mf_ports c)) \<noteq> [] then cp_transport (hd (mf_ports c)) else mf_transport c)
      in if tr = [] then ''cs2'' else tr)"

definition metrics_listen :: "(bytes \<Rightarrow> master_config option) \<Rightarrow> bytes option \<Rightarrow> string" where
  "metrics_listen decode file =
     (case file of
        None \<Rightarrow> ''127.0.0.1:9090''
      | Some b \<Rightarrow> (case decode b of
          None \<Rightarrow> ''127.0.0.1:9090''
        | Some c \<Rightarrow> if mf_metrics c \<noteq> [] then mf_metrics c else ''127.0.0.1:9090''))"

text \<open>\<open>parse\<close> is \<open>json.Unmarshal\<close> of the answer of \<open>curl\<close>.\<close>

definition master_sessions :: "(bytes \<Rightarrow> (int \<times> int) option) \<Rightarrow> bytes option \<Rightarrow> int \<times> int" where
  "master_sessions parse out = (case out of None \<Rightarrow> (0, 0) | Some b \<Rightarrow> (case parse b of None \<Rightarrow> (0, 0) | Some p \<Rightarrow> p))"

definition slave_line :: "slave_stat \<Rightarrow> string" where
  "slave_line s = ''    ''
     @ (if st_connected s then ''[green]'' @ [CHR 0xE2, CHR 0x97, CHR 0x8F] @ ''[-]''
        else ''[red]'' @ [CHR 0xE2, CHR 0x9C, CHR 0x97] @ ''[-]'')
     @ '' '' @ st_id s @ '' '' @ [CHR 0xE2, CHR 0x80, CHR 0x94] @ '' ''
     @ (if st_up s then ''data-plane up'' else ''[yellow]data-plane down[-]'')
     @ '' (last seen '' @ sprint (quot (st_seen_ms s) 1000) @ ''s ago)'' @ [CHR 0x0A]"

definition master_connected_slaves :: "(bytes \<Rightarrow> slave_stat list option) \<Rightarrow> bytes option \<Rightarrow> string" where
  "master_connected_slaves parse out =
     (case out of None \<Rightarrow> [] | Some b \<Rightarrow> (case parse b of None \<Rightarrow> [] | Some ss \<Rightarrow> concat (map slave_line ss)))"

definition link_update :: "bool \<Rightarrow> string \<Rightarrow> bool" where
  "link_update up line =
     (if contains line ''control connected to master'' then True
      else if contains line ''control error'' \<or> contains line ''connecting to master control'' then False
      else up)"

definition slave_link_status :: "(bytes \<Rightarrow> slave_config option) \<Rightarrow> bytes option \<Rightarrow> string \<Rightarrow> string \<times> bool" where
  "slave_link_status decode file journal =
     (case file of
        None \<Rightarrow> ''?''
      | Some b \<Rightarrow> (case decode b of None \<Rightarrow> ''?'' | Some c \<Rightarrow> sf_master c),
      foldl link_update False (split_on (CHR 0x0A) journal))"

definition systemctl_status :: "bool \<Rightarrow> string \<Rightarrow> string" where
  "systemctl_status ok out = (if \<not> ok \<or> trim_space out = [] then ''unknown'' else trim_space out)"

definition color_status :: "string \<Rightarrow> string" where
  "color_status s =
     (if s = ''active'' then ''[green]'' @ [CHR 0xE2, CHR 0x97, CHR 0x8F] @ '' active[-]''
      else if s = ''inactive'' then ''[gray]'' @ [CHR 0xE2, CHR 0x97, CHR 0x8B] @ '' inactive[-]''
      else if s = ''failed'' then ''[red]'' @ [CHR 0xE2, CHR 0x9C, CHR 0x97] @ '' failed[-]''
      else ''[yellow]'' @ s @ ''[-]'')"

section \<open>An installed master\<close>

lemma validate_token_len_eq: "validate_token_len tok = validate_token tok"
  by (simp add: validate_token_len_def validate_token_def min_token_bytes_def cong: option.case_cong)

lemma wizard_master_ok:
  assumes "wizard_master v token car sid = (Inr c, steps, h)"
  shows "c = wizard_master_config (trim_space token) car sid" "validate_token (mf_token c) = None"
proof -
  show c: "c = wizard_master_config (trim_space token) car sid"
    using assms by (auto simp: wizard_master_def Let_def split: option.splits prod.splits)
  have "validate_token_len (trim_space token) = None"
    using assms by (auto simp: wizard_master_def split: option.splits)
  then show "validate_token (mf_token c) = None"
    by (simp add: c wizard_master_config_def Let_def validate_token_len_eq)
qed

lemma default_cidr: "parse_cidr ''10.8.0.0/24'' = Some \<lparr>n_ip = [10, 8, 0, 0], n_mask = [255, 255, 255, 0]\<rparr>"
  by code_simp

lemma wizard_carriers_known: "car \<in> set carrier_order \<Longrightarrow> \<exists>tr. by_name rnd car = Some tr \<and> tr_name tr = car"
  by (auto simp: carrier_order_def by_name_def)

lemma carrier_port_dialled: "car \<in> set carrier_order \<Longrightarrow> handshake_port car 0 = carrier_port car"
  by (auto simp: carrier_order_def handshake_port_def carrier_control_port_def carrier_port_def)

lemma wizard_dns: "\<exists>r. start_dns (wizard_master_config token car sid) = Inr r"
  by (simp add: start_dns_def wizard_master_config_def default_master_config_def new_resolver_def ModePlain_def
      ModeDoT_def ModeDoH_def Let_def)

lemma installed_listeners:
  assumes "car \<in> set carrier_order" and "\<And>s. sv_resolve v s \<noteq> None" and "\<And>b a. sv_bind v b a \<noteq> None"
  shows "\<exists>q tr h'. start_listeners v b bound (wizard_master_config token car sid) h = (Inr [(q, tr)], h') \<and> tr_name tr = car"
proof -
  obtain tr where tr: "by_name (sv_rnd v 0) car = Some tr" "tr_name tr = car"
    using wizard_carriers_known[OF assms(1)] by blast
  obtain a where a: "sv_resolve v (''0.0.0.0:'' @ sprint (carrier_port car)) = Some a"
    using assms(2) by blast
  obtain q where q: "sv_bind v bound a = Some q"
    using assms(3) by blast
  have "mf_ports (wizard_master_config token car sid) = [\<lparr>cp_port = carrier_port car, cp_transport = car\<rparr>]"
    by (simp add: wizard_master_config_def Let_def)
  then show ?thesis
    using tr a q by (simp add: start_listeners_def)
qed

lemma installed_starts:
  assumes "validate_token (mf_token c) = None" and "c = wizard_master_config token car sid"
    and "sv_file v = Some b" and "decode b = Some c"
    and "car \<in> set carrier_order" and "\<And>s. sv_resolve v s \<noteq> None" and "\<And>b a. sv_bind v b a \<noteq> None" and "sv_netstack v"
  obtains st h q tr where "master_start decode v = (Inr st, h)" and "sm_config st = c"
    and "sm_listeners st = [(q, tr)]" and "tr_name tr = car"
proof -
  obtain t where t: "start_config decode v = Inr (c, t)"
    using assms(1,3,4) validate_token_ok[OF assms(1)] by (auto simp: start_config_ok load_master_ok)
  have "parse_cidr (mf_subnet c) = Some \<lparr>n_ip = [10, 8, 0, 0], n_mask = [255, 255, 255, 0]\<rparr>"
    by (simp add: assms(2) wizard_master_config_def default_master_config_def default_cidr Let_def)
  then obtain l where p: "start_pool c = Inr (new_ip_pool l)"
    using start_pool_list by blast
  obtain a where a: "sv_resolve v (data_plane_addr c) = Some a"
    using assms(6) by blast
  have d: "start_data_plane v c = Inr a"
    using a assms(7)[of "[]" a] by (auto simp: start_data_plane_def)
  obtain r where r: "start_dns c = Inr r"
    using wizard_dns assms(2) by blast
  obtain b' h where f: "start_firewall (sv_run v) = (b', h)"
    by (cases "start_firewall (sv_run v)")
  obtain q tr h' where l: "start_listeners v b' [a] c h = (Inr [(q, tr)], h')" "tr_name tr = car"
    using installed_listeners[OF assms(5,6,7)] assms(2) by blast
  have "\<exists>st h. master_start decode v = (Inr st, h) \<and> sm_config st = c \<and> sm_listeners st = [(q, tr)]"
    by (simp add: master_start_def start_services_def t f p d assms(8) r l)
  with l(2) that show thesis by blast
qed

section \<open>The journal\<close>

definition link_line :: "string \<Rightarrow> bool" where
  "link_line s \<longleftrightarrow> contains s ''control connected to master'' \<or> contains s ''control error''
     \<or> contains s ''connecting to master control''"

lemma link_fold: "foldl link_update up ls
    = (let rel = filter link_line ls in if rel = [] then up else contains (last rel) ''control connected to master'')"
  by (induction ls rule: rev_induct) (auto simp: link_update_def link_line_def Let_def)

section \<open>Properties\<close>

text \<open>The tokens: the tool and the servers refuse exactly the same tokens with the same reason, and a
  token it generates from 32 random bytes is accepted by both and decodes to those bytes.\<close>

theorem token_checks_agree:
  assumes "length rnd = 32"
  shows "validate_token_len tok = validate_token tok
    \<and> (\<exists>t. gen_token (Some rnd) = Some t \<and> validate_token t = None \<and> decode64 t = Some rnd)"
proof -
  have "rnd \<noteq> []" using assms by auto
  with assms show ?thesis
    using validate_token_len_eq by (auto simp: gen_token_def validate_token_def base64_inverse min_token_bytes_def)
qed

theorem token_checks_agree_witness:
  "\<exists>t. gen_token (Some (replicate 32 9)) = Some t \<and> validate_token t = None"
  using token_checks_agree[of "replicate 32 9"] by auto


definition sample_setup :: setup_env where
  "sample_setup = \<lparr>se_tls = True, se_save = True, se_present = (\<lambda>_. False), se_run = (\<lambda>_ _. Some [])\<rparr>"

lemma encode64_no_space: "c \<in> set (encode64 bs) \<Longrightarrow> \<not> is_space c"
proof -
  have none: "b64_value c = None" if "is_space c" for c
    using that by (auto simp: b64_value_def is_space_def Let_def)
  have "\<not> is_space (CHR ''='')"
    by (simp add: is_space_def)
  moreover have "n < 64 \<Longrightarrow> \<not> is_space (b64_digit n)" for n
    using none b64_value_digit by fastforce
  ultimately show "c \<in> set (encode64 bs) \<Longrightarrow> \<not> is_space c"
    by (induction bs rule: encode64.induct) (auto simp: quantum_digits)
qed

lemma trim_plain:
  assumes "\<forall>c \<in> set s. \<not> is_space c"
  shows "trim_space s = s"
proof -
  have "dropWhile is_space s = s" "dropWhile is_space (rev s) = rev s"
    using assms last_in_set[of s] hd_in_set[of s] by (auto simp: dropWhile_eq_self_iff hd_rev)
  then show ?thesis by (simp add: trim_space_def)
qed


text \<open>The link shown for a slave is the one of the last line of the journal that says anything about it:
  connected if that line reports a connection, not connected if it reports an error or an attempt,
  or when there is no such line.\<close>

theorem link_status_last:
  "snd (slave_link_status decode file journal)
    = (let ls = filter (\<lambda>s. contains s ''control connected to master'' \<or> contains s ''control error''
           \<or> contains s ''connecting to master control'') (split_on (CHR 0x0A) journal)
       in ls \<noteq> [] \<and> contains (last ls) ''control connected to master'')"
  unfolding slave_link_status_def snd_conv link_fold link_line_def by (simp add: Let_def)

end
