(* ===== verification/Manager.thy ===== *)
theory Manager
  imports Setup
begin

text \<open>
  The screens of the set-up tool, \<open>server-tui\<close>: which page each menu item, button and key leads to,
  the forms that edit the two configurations, the service commands, the certificate command, the
  join information and the status page. Drawing is not modelled: a page is its name, a key is
  the item, button or field it acts on. The JSON decoder over a default value and the encoder,
  and whether a file can be written, are arguments.
\<close>

section \<open>State\<close>

text \<open>The pages, one for each name the code registers, and the fields of the form that is open: the configurations, the wizards' inputs, the certificate's.\<close>

datatype page = PgMain | PgMasterMenu | PgSlaveMenu | PgStatus | PgLogs | PgMsg | PgJoinInfo | PgMasterForm | PgSlaveForm
  | PgGenTLS | PgWizard | PgWizMaster | PgWizSlave

datatype form = NoForm | MasterForm master_config | SlaveForm slave_config
  | WizMaster string string string | WizSlave string string string string | CertForm string string

record manager =
  mg_pages :: "page set"
  mg_page :: page
  mg_stopped :: bool
  mg_form :: form
  mg_master :: "bytes option"
  mg_slave :: "bytes option"
  mg_token :: "string option"
  mg_cmds :: "cmd list"

record manager_env =
  me_over_master :: "bytes \<Rightarrow> master_config \<Rightarrow> master_config"
  me_over_slave :: "bytes \<Rightarrow> slave_config \<Rightarrow> slave_config"
  me_master :: "bytes \<Rightarrow> master_config option"
  me_enc_master :: "master_config \<Rightarrow> bytes"
  me_enc_slave :: "slave_config \<Rightarrow> bytes"
  me_token_file :: bool
  me_rnd :: "bytes option"
  me_setup :: setup_env

definition go_page :: "page \<Rightarrow> manager \<Rightarrow> manager" where
  "go_page p s = s\<lparr>mg_page := p\<rparr>"

definition add_page :: "page \<Rightarrow> manager \<Rightarrow> manager" where
  "add_page p s = s\<lparr>mg_pages := insert p (mg_pages s)\<rparr>"

definition show_page :: "page \<Rightarrow> manager \<Rightarrow> manager" where
  "show_page p s = go_page p (add_page p s)"

definition show_message :: "manager \<Rightarrow> manager" where
  "show_message s = show_page PgMsg s"

definition show_main_menu :: manager where
  "show_main_menu = \<lparr>mg_pages = {PgMain}, mg_page = PgMain, mg_stopped = False, mg_form = NoForm,
     mg_master = None, mg_slave = None, mg_token = None, mg_cmds = []\<rparr>"

section \<open>Services, logs and the certificate\<close>

definition master_svc :: string where "master_svc = ''mini-tun-asymmetric-master''"
definition slave_svc :: string where "slave_svc = ''mini-tun-asymmetric-slave''"

definition run_systemctl :: "string \<Rightarrow> string \<Rightarrow> manager \<Rightarrow> manager" where
  "run_systemctl action svc s = show_message (s\<lparr>mg_cmds := mg_cmds s @ [(''systemctl'', [action, svc])]\<rparr>)"

definition show_logs :: "string \<Rightarrow> manager \<Rightarrow> manager" where
  "show_logs svc s = show_page PgLogs (s\<lparr>mg_cmds := mg_cmds s @ [(''journalctl'', [''-u'', svc, ''-n'', ''60'', ''--no-pager''])]\<rparr>)"

definition show_gen_tls :: "manager \<Rightarrow> manager" where
  "show_gen_tls s = show_page PgGenTLS (s\<lparr>mg_form := CertForm ''mini-tun-asymmetric-server'' tls_dir\<rparr>)"

text \<open>\<open>filepath.Join\<close> of two elements on Linux.\<close>

fun clean_parts :: "bool \<Rightarrow> string list \<Rightarrow> string list \<Rightarrow> string list" where
  "clean_parts rooted acc [] = rev acc"
| "clean_parts rooted acc (p # ps) =
     (if p = [] \<or> p = ''.'' then clean_parts rooted acc ps
      else if p = ''..'' then
        (if acc \<noteq> [] \<and> hd acc \<noteq> ''..'' then clean_parts rooted (tl acc) ps
         else if rooted then clean_parts rooted acc ps
         else clean_parts rooted (p # acc) ps)
      else clean_parts rooted (p # acc) ps)"

definition clean_path :: "string \<Rightarrow> string" where
  "clean_path p =
     (let rooted = (take 1 p = ''/''); parts = clean_parts rooted [] (split_on (CHR ''/'') p)
      in if parts = [] then (if rooted then ''/'' else ''.'')
         else (if rooted then ''/'' else []) @ join ''/'' parts)"

definition path_join :: "string \<Rightarrow> string \<Rightarrow> string" where
  "path_join d x = (if d = [] \<and> x = [] then [] else if d = [] then clean_path x
     else if x = [] then clean_path d else clean_path (d @ ''/'' @ x))"

definition openssl_cmd :: "string \<Rightarrow> string \<Rightarrow> cmd" where
  "openssl_cmd cn dir = (''openssl'', [''req'', ''-x509'', ''-newkey'', ''rsa:4096'', ''-keyout'', path_join dir ''privkey.pem'',
     ''-out'', path_join dir ''fullchain.pem'', ''-days'', ''3650'', ''-nodes'', ''-subj'', ''/CN='' @ cn])"

definition show_status :: "manager \<Rightarrow> manager" where
  "show_status s = show_page PgStatus s"

section \<open>The configuration forms\<close>

text \<open>The input fields in their order, each a reader and a writer of the configuration.\<close>

definition master_fields :: "((master_config \<Rightarrow> string) \<times> (string \<Rightarrow> master_config \<Rightarrow> master_config)) list" where
  "master_fields =
     [(mf_listen_udp, \<lambda>v c. c\<lparr>mf_listen_udp := v\<rparr>), (mf_listen_control, \<lambda>v c. c\<lparr>mf_listen_control := v\<rparr>),
      (mf_listen_dp, \<lambda>v c. c\<lparr>mf_listen_dp := v\<rparr>), (mf_subnet, \<lambda>v c. c\<lparr>mf_subnet := v\<rparr>),
      (mf_tunnel_ip, \<lambda>v c. c\<lparr>mf_tunnel_ip := v\<rparr>), (mf_token, \<lambda>v c. c\<lparr>mf_token := v\<rparr>),
      (mf_server_id, \<lambda>v c. c\<lparr>mf_server_id := v\<rparr>), (mf_cert, \<lambda>v c. c\<lparr>mf_cert := v\<rparr>),
      (mf_key, \<lambda>v c. c\<lparr>mf_key := v\<rparr>), (mf_dns_upstream, \<lambda>v c. c\<lparr>mf_dns_upstream := v\<rparr>)]"

definition slave_fields :: "((slave_config \<Rightarrow> string) \<times> (string \<Rightarrow> slave_config \<Rightarrow> slave_config)) list" where
  "slave_fields =
     [(sf_master, \<lambda>v c. c\<lparr>sf_master := v\<rparr>), (sf_listen_udp, \<lambda>v c. c\<lparr>sf_listen_udp := v\<rparr>),
      (sf_listen_dp, \<lambda>v c. c\<lparr>sf_listen_dp := v\<rparr>), (sf_token, \<lambda>v c. c\<lparr>sf_token := v\<rparr>),
      (sf_id, \<lambda>v c. c\<lparr>sf_id := v\<rparr>), (sf_ca, \<lambda>v c. c\<lparr>sf_ca := v\<rparr>)]"

definition show_master_form :: "manager_env \<Rightarrow> manager \<Rightarrow> manager" where
  "show_master_form v s =
     (let c = (case mg_master s of None \<Rightarrow> default_master_config | Some b \<Rightarrow> me_over_master v b default_master_config)
      in show_page PgMasterForm (s\<lparr>mg_form := MasterForm c\<rparr>))"

definition show_slave_form :: "manager_env \<Rightarrow> manager \<Rightarrow> manager" where
  "show_slave_form v s =
     (let c = (case mg_slave s of None \<Rightarrow> default_slave_config | Some b \<Rightarrow> me_over_slave v b default_slave_config)
      in show_page PgSlaveForm (s\<lparr>mg_form := SlaveForm c\<rparr>))"

text \<open>Saving truncates and rewrites the file; one that cannot be opened stays as it is.\<close>

definition save_master :: "manager_env \<Rightarrow> master_config \<Rightarrow> manager \<Rightarrow> manager" where
  "save_master v c s = (if se_save (me_setup v) then s\<lparr>mg_master := Some (me_enc_master v c)\<rparr> else s)"

definition save_slave :: "manager_env \<Rightarrow> slave_config \<Rightarrow> manager \<Rightarrow> manager" where
  "save_slave v c s = (if se_save (me_setup v) then s\<lparr>mg_slave := Some (me_enc_slave v c)\<rparr> else s)"

section \<open>Joining\<close>

text \<open>The symbols of the texts, in UTF-8, and the line break.\<close>

definition dot :: string where "dot = [CHR 0xE2, CHR 0x97, CHR 0x8F]"
definition dash :: string where "dash = [CHR 0xE2, CHR 0x80, CHR 0x94]"
definition arrow :: string where "arrow = [CHR 0xE2, CHR 0x86, CHR 0x92]"
definition nl :: string where "nl = [CHR 0x0A]"
definition quoted :: "string \<Rightarrow> string" where "quoted s = [CHR 0x22] @ s @ [CHR 0x22]"

datatype join_info = NoMasterFile | MasterNotParsed | NoJoinToken | JoinInfo string string string

definition join_info :: "manager_env \<Rightarrow> bytes option \<Rightarrow> join_info" where
  "join_info v file =
     (case file of
        None \<Rightarrow> NoMasterFile
      | Some b \<Rightarrow>
          (case me_master v b of
             None \<Rightarrow> MasterNotParsed
           | Some c \<Rightarrow>
               if mf_token c = [] then NoJoinToken
               else let p = port_of (mf_listen_control c)
                    in JoinInfo (mf_token c) (if p = [] then ''7001'' else p) (join_carrier c)))"

definition show_join_info :: "manager_env \<Rightarrow> manager \<Rightarrow> manager" where
  "show_join_info v s =
     (case join_info v (mg_master s) of
        JoinInfo tok p car \<Rightarrow> show_page PgJoinInfo (if me_token_file v then s\<lparr>mg_token := Some (tok @ [CHR 0x0A])\<rparr> else s)
      | _ \<Rightarrow> show_message s)"

text \<open>The address shown is the local one of a socket dialled outwards, where there is one; the text of the page
  tells how to copy the token (when its file was written), how to add a slave and how to connect a client.\<close>

definition detect_public_ip :: "string option \<Rightarrow> string" where
  "detect_public_ip local_ip = (case local_ip of None \<Rightarrow> ''<this-server-ip>'' | Some a \<Rightarrow> a)"

definition token_hint :: "bool \<Rightarrow> string" where
  "token_hint written = (if written then nl @ ''[yellow]Copy the token off this server:[-]'' @ nl
     @ ''  [white]cat /etc/mini-tun-asymmetric/token.txt[-]'' @ nl else [])"

definition join_text :: "string \<Rightarrow> string \<Rightarrow> string \<Rightarrow> string \<Rightarrow> string \<Rightarrow> string" where
  "join_text tok hint host ctrl_port car =
     ''[yellow]Auth token[-] (shared secret '' @ dash @ '' same for master, slaves, clients):'' @ nl
     @ ''  [white]'' @ tok @ ''[-]'' @ nl
     @ hint @ nl
     @ ''[yellow]This master:[-]  '' @ host @ ''   [gray](control '' @ ctrl_port @ '', transport '' @ car @ '')[-]'' @ nl @ nl
     @ ''[yellow]To add a SLAVE node:[-]'' @ nl
     @ ''  1. [white]sudo dnf install ./mini-tun-asymmetric-*.rpm[-]'' @ nl
     @ ''  2. [white]sudo mta-setup[-]  '' @ arrow @ ''  Quick Setup Wizard  '' @ arrow @ ''  Slave'' @ nl
     @ ''  3. Master host:  [white]'' @ host @ ''[-]'' @ nl
     @ ''     Auth token:   the token above'' @ nl
     @ ''     Slave ID:     a unique name (slave01, slave02, ...)'' @ nl
     @ ''     Transport:    [white]'' @ car @ ''[-]   (MUST match this master)'' @ nl
     @ ''  4. Install & Start.'' @ nl @ nl
     @ ''[yellow]To connect a CLIENT:[-] host '' @ host @ '', the same token, transport [white]'' @ car @ ''[-].'' @ nl @ nl
     @ ''Verify a slave attached (here on the master):'' @ nl
     @ ''  [white]journalctl -u mini-tun-asymmetric-master | grep '' @ [CHR 0x27] @ ''slave registered'' @ [CHR 0x27] @ ''[-]''"

section \<open>The wizards' pages\<close>

definition show_wizard :: "manager \<Rightarrow> manager" where
  "show_wizard s = show_page PgWizard s"

definition show_wizard_master :: "manager \<Rightarrow> manager" where
  "show_wizard_master s = show_page PgWizMaster
     (s\<lparr>mg_form := WizMaster (mf_token default_master_config) ''utp''
          (if mf_server_id default_master_config = [] then ''master01'' else mf_server_id default_master_config)\<rparr>)"

definition show_wizard_slave :: "manager \<Rightarrow> manager" where
  "show_wizard_slave s = show_page PgWizSlave (s\<lparr>mg_form := WizSlave [] (sf_token default_slave_config) ''utp''
      (if sf_id default_slave_config = [] then ''slave01'' else sf_id default_slave_config)\<rparr>)"

definition install_master :: "manager_env \<Rightarrow> string \<Rightarrow> string \<Rightarrow> string \<Rightarrow> manager \<Rightarrow> manager" where
  "install_master v tok car sid s =
     (case wizard_master (me_setup v) tok car sid of
        (r, steps, h) \<Rightarrow>
          (let s1 = s\<lparr>mg_cmds := mg_cmds s @ h\<rparr>
           in show_message (if ConfigWritten \<in> set steps
                then save_master v (wizard_master_config (trim_space tok) car sid) s1 else s1)))"

definition install_slave :: "manager_env \<Rightarrow> string \<Rightarrow> string \<Rightarrow> string \<Rightarrow> string \<Rightarrow> manager \<Rightarrow> manager" where
  "install_slave v host tok car sid s =
     (case wizard_slave (me_setup v) host tok car sid of
        (r, steps, h) \<Rightarrow>
          (let s1 = s\<lparr>mg_cmds := mg_cmds s @ h\<rparr>
           in show_message (if ConfigWritten \<in> set steps
                then save_slave v (wizard_slave_config (trim_space host) (trim_space tok) car sid) s1 else s1)))"

section \<open>Keys\<close>

datatype key = Pick nat | Press nat | Type nat string | Choose nat | Esc | CtrlC

fun nth_action :: "('s \<Rightarrow> 's) list \<Rightarrow> nat \<Rightarrow> 's \<Rightarrow> 's" where
  "nth_action [] n s = s"
| "nth_action (f # fs) 0 s = f s"
| "nth_action (f # fs) (Suc n) s = nth_action fs n s"

definition main_items :: "(manager \<Rightarrow> manager) list" where
  "main_items = [show_wizard, show_page PgMasterMenu, show_page PgSlaveMenu, show_status, show_gen_tls,
     (\<lambda>s. s\<lparr>mg_stopped := True\<rparr>)]"

definition service_items :: "string \<Rightarrow> (manager \<Rightarrow> manager) list" where
  "service_items svc = [run_systemctl ''start'' svc, run_systemctl ''stop'' svc, run_systemctl ''restart'' svc,
     run_systemctl ''enable'' svc, show_logs svc]"

definition master_items :: "manager_env \<Rightarrow> (manager \<Rightarrow> manager) list" where
  "master_items v = show_master_form v # service_items master_svc @ [show_join_info v, go_page PgMain]"

definition slave_items :: "manager_env \<Rightarrow> (manager \<Rightarrow> manager) list" where
  "slave_items v = show_slave_form v # service_items slave_svc @ [go_page PgMain]"

definition wizard_items :: "(manager \<Rightarrow> manager) list" where
  "wizard_items = [show_wizard_master, show_wizard_slave, go_page PgMain]"

definition pick_item :: "manager_env \<Rightarrow> nat \<Rightarrow> manager \<Rightarrow> manager" where
  "pick_item v n s =
     nth_action (if mg_page s = PgMain then main_items
       else if mg_page s = PgMasterMenu then master_items v
       else if mg_page s = PgSlaveMenu then slave_items v
       else if mg_page s = PgWizard then wizard_items else []) n s"

definition generate_token :: "manager_env \<Rightarrow> string \<Rightarrow> string \<Rightarrow> manager \<Rightarrow> manager" where
  "generate_token v car sid s =
     (case gen_token (me_rnd v) of
        None \<Rightarrow> show_message s | Some t \<Rightarrow> s\<lparr>mg_form := WizMaster t car sid\<rparr>)"

definition form_buttons :: "manager_env \<Rightarrow> manager \<Rightarrow> (manager \<Rightarrow> manager) list" where
  "form_buttons v s =
     (case mg_form s of
        MasterForm c \<Rightarrow> if mg_page s = PgMasterForm then [\<lambda>s. show_message (save_master v c s), go_page PgMasterMenu] else []
      | SlaveForm c \<Rightarrow> if mg_page s = PgSlaveForm then [\<lambda>s. show_message (save_slave v c s), go_page PgSlaveMenu] else []
      | WizMaster t car sid \<Rightarrow>
          if mg_page s = PgWizMaster then [generate_token v car sid, install_master v t car sid, go_page PgWizard] else []
      | WizSlave host t car sid \<Rightarrow> if mg_page s = PgWizSlave then [install_slave v host t car sid, go_page PgWizard] else []
      | CertForm cn dir \<Rightarrow>
          if mg_page s = PgGenTLS
          then [\<lambda>s. show_message (s\<lparr>mg_cmds := mg_cmds s @ [openssl_cmd cn dir]\<rparr>), go_page PgMain] else []
      | NoForm \<Rightarrow> [])"

definition press_button :: "manager_env \<Rightarrow> nat \<Rightarrow> manager \<Rightarrow> manager" where
  "press_button v n s =
     nth_action (if mg_page s \<in> {PgStatus, PgLogs, PgMsg} then [go_page PgMain]
       else if mg_page s = PgJoinInfo then [go_page PgMasterMenu]
       else form_buttons v s) n s"

definition type_field :: "nat \<Rightarrow> string \<Rightarrow> form \<Rightarrow> form" where
  "type_field n x f =
     (case f of
        MasterForm c \<Rightarrow> if n < length master_fields then MasterForm (snd (master_fields ! n) x c) else f
      | SlaveForm c \<Rightarrow> if n < length slave_fields then SlaveForm (snd (slave_fields ! n) x c) else f
      | WizMaster t car sid \<Rightarrow> if n = 0 then WizMaster x car sid else if n = 1 then WizMaster t car x else f
      | WizSlave host t car sid \<Rightarrow> if n = 0 then WizSlave x t car sid else if n = 1 then WizSlave host x car sid
          else if n = 2 then WizSlave host t car x else f
      | CertForm cn dir \<Rightarrow> if n = 0 then CertForm x dir else if n = 1 then CertForm cn x else f
      | NoForm \<Rightarrow> f)"

definition choose_carrier :: "nat \<Rightarrow> form \<Rightarrow> form" where
  "choose_carrier n f =
     (case f of
        WizMaster t car sid \<Rightarrow> if n < length carrier_order then WizMaster t (carrier_order ! n) sid else f
      | WizSlave host t car sid \<Rightarrow> if n < length carrier_order then WizSlave host t (carrier_order ! n) sid else f
      | _ \<Rightarrow> f)"

text \<open>The form that takes input is the one of the page shown.\<close>

fun form_page :: "form \<Rightarrow> page option" where
  "form_page (MasterForm _) = Some PgMasterForm"
| "form_page (SlaveForm _) = Some PgSlaveForm"
| "form_page (WizMaster _ _ _) = Some PgWizMaster"
| "form_page (WizSlave _ _ _ _) = Some PgWizSlave"
| "form_page (CertForm _ _) = Some PgGenTLS"
| "form_page NoForm = None"

definition form_shown :: "manager \<Rightarrow> bool" where
  "form_shown s \<longleftrightarrow> form_page (mg_form s) = Some (mg_page s)"

definition esc_to_page :: "manager \<Rightarrow> manager" where
  "esc_to_page s =
     (if mg_page s \<in> {PgMasterMenu, PgSlaveMenu, PgStatus} then go_page PgMain s
      else if mg_page s \<in> {PgWizMaster, PgWizSlave} then go_page PgWizard s
      else s)"

definition on_key :: "manager_env \<Rightarrow> key \<Rightarrow> manager \<Rightarrow> manager" where
  "on_key v k s =
     (if mg_stopped s then s
      else case k of
        Pick n \<Rightarrow> pick_item v n s
      | Press n \<Rightarrow> press_button v n s
      | Type n x \<Rightarrow> if form_shown s then s\<lparr>mg_form := type_field n x (mg_form s)\<rparr> else s
      | Choose n \<Rightarrow> if form_shown s then s\<lparr>mg_form := choose_carrier n (mg_form s)\<rparr> else s
      | Esc \<Rightarrow> esc_to_page s
      | CtrlC \<Rightarrow> s\<lparr>mg_stopped := True\<rparr>)"

definition manager_run :: "manager_env \<Rightarrow> key list \<Rightarrow> manager \<Rightarrow> manager" where
  "manager_run v ks s = fold (on_key v) ks s"

section \<open>The status page\<close>

text \<open>The arguments are what the queries of \<open>Setup\<close> give: the two service states, the carriers, the
  sessions created and active, the slaves' lines, and the link's target and state.\<close>

definition status_text ::
    "string \<Rightarrow> string \<Rightarrow> string \<Rightarrow> int \<times> int \<Rightarrow> string \<Rightarrow> string \<times> bool \<Rightarrow> string" where
  "status_text mst sst carriers sess slave_text lnk =
     ''  [yellow]Master service[-] (mini-tun-asymmetric-master)'' @ nl @ ''  '' @ color_status mst @ nl
     @ (if mst = ''active'' then
          (if carriers \<noteq> [] then ''  [yellow]mimicking:[-] '' @ carriers @ nl else [])
          @ ''  [yellow]sessions:[-] '' @ sprint (snd sess) @ '' active, '' @ sprint (fst sess) @ '' total since start'' @ nl
          @ (if slave_text = [] then ''  [gray]no slaves connected yet[-]'' @ nl
             else ''  [yellow]connected slaves:[-]'' @ nl @ slave_text)
        else [])
     @ nl
     @ ''  [yellow]Slave service[-]  (mini-tun-asymmetric-slave)'' @ nl @ ''  '' @ color_status sst @ nl
     @ (if sst = ''active'' then
          (if snd lnk then ''  [green]'' @ dot @ '' connected to master '' @ fst lnk @ ''[-]'' @ nl
           else ''  [yellow]target master '' @ fst lnk @ '' '' @ dash @ '' check logs if traffic fails[-]'' @ nl)
        else [])
     @ (if mst \<noteq> ''active'' \<or> sst \<noteq> ''active''
        then nl @ ''  [gray]'' @ quoted ''unknown'' @ '' = that role isn'' @ [CHR 0x27] @ ''t installed on this host (normal:'' @ nl
          @ ''  a host is either a master or a slave, not both).[-]'' @ nl
        else [])"

section \<open>Pages\<close>

text \<open>Every page shown has been added, with the page its way back leads to and the form it edits.\<close>

definition manager_ok :: "manager \<Rightarrow> bool" where
  "manager_ok s \<longleftrightarrow> {PgMain, mg_page s} \<subseteq> mg_pages s
     \<and> (mg_page s \<in> {PgJoinInfo, PgMasterForm} \<longrightarrow> PgMasterMenu \<in> mg_pages s)
     \<and> (mg_page s = PgSlaveForm \<longrightarrow> PgSlaveMenu \<in> mg_pages s)
     \<and> (mg_page s \<in> {PgWizMaster, PgWizSlave} \<longrightarrow> PgWizard \<in> mg_pages s)
     \<and> (mg_page s \<in> {PgMasterForm, PgSlaveForm, PgWizMaster, PgWizSlave, PgGenTLS} \<longrightarrow> form_shown s)"

lemmas page_defs = show_message_def show_page_def add_page_def go_page_def

lemma nth_action_inv: "P s \<Longrightarrow> (\<And>f. f \<in> set fs \<Longrightarrow> P (f s)) \<Longrightarrow> P (nth_action fs n s)"
  by (induction fs n s rule: nth_action.induct) auto

lemma ok_message: "manager_ok s \<Longrightarrow> manager_ok (show_message s)"
  by (auto simp: manager_ok_def page_defs)

lemma ok_stored:
  "manager_ok (s\<lparr>mg_cmds := cs\<rparr>) = manager_ok s" "manager_ok (s\<lparr>mg_stopped := b\<rparr>) = manager_ok s"
  "manager_ok (s\<lparr>mg_token := t\<rparr>) = manager_ok s"  "manager_ok (save_master v c s) = manager_ok s"
  "manager_ok (save_slave v d s) = manager_ok s"
  by (simp_all add: manager_ok_def form_shown_def save_master_def save_slave_def)

lemma ok_show:
  "manager_ok s \<Longrightarrow> p \<in> {PgMain, PgMasterMenu, PgSlaveMenu, PgStatus, PgLogs, PgMsg, PgWizard} \<Longrightarrow> manager_ok (show_page p s)"
  by (auto simp: manager_ok_def page_defs)

lemma ok_main: "manager_ok s \<Longrightarrow> manager_ok (go_page PgMain s)"
  by (auto simp: manager_ok_def page_defs)

lemma ok_show_form:
  "manager_ok s \<Longrightarrow> manager_ok (show_gen_tls s)"
  "manager_ok s \<Longrightarrow> mg_page s = PgMasterMenu \<Longrightarrow> manager_ok (show_master_form v s)"
  "manager_ok s \<Longrightarrow> mg_page s = PgSlaveMenu \<Longrightarrow> manager_ok (show_slave_form v s)"
  "manager_ok s \<Longrightarrow> mg_page s = PgWizard \<Longrightarrow> manager_ok (show_wizard_master s)"
  "manager_ok s \<Longrightarrow> mg_page s = PgWizard \<Longrightarrow> manager_ok (show_wizard_slave s)"
  by (auto simp: manager_ok_def page_defs form_shown_def show_gen_tls_def show_master_form_def show_slave_form_def
      show_wizard_master_def show_wizard_slave_def Let_def)

lemma ok_join: "manager_ok s \<Longrightarrow> mg_page s = PgMasterMenu \<Longrightarrow> manager_ok (show_join_info v s)"
  by (cases "join_info v (mg_master s)") (auto simp: show_join_info_def ok_message manager_ok_def page_defs)

lemma ok_install: "manager_ok s \<Longrightarrow> manager_ok (install_master v tok car sid s)"
    "manager_ok s \<Longrightarrow> manager_ok (install_slave v host tok car sid s)"
  by (auto simp: install_master_def install_slave_def Let_def ok_stored intro!: ok_message split: prod.split)

lemma ok_service: "manager_ok s \<Longrightarrow> f \<in> set (service_items svc) \<Longrightarrow> manager_ok (f s)"
  by (auto simp: service_items_def run_systemctl_def show_logs_def ok_stored intro!: ok_message ok_show)

lemma ok_pick: "manager_ok s \<Longrightarrow> manager_ok (pick_item v n s)"
  unfolding pick_item_def
  by (rule nth_action_inv)
    (auto simp: main_items_def master_items_def slave_items_def wizard_items_def show_wizard_def show_status_def ok_stored
      intro: ok_show ok_show_form ok_main ok_join ok_service split: if_splits)

lemma ok_press: "manager_ok s \<Longrightarrow> manager_ok (press_button v n s)"
proof -
  assume ok: "manager_ok s"
  have gen: "manager_ok (generate_token v car sid s)" if "mg_form s = WizMaster t car sid" for t car sid
    using ok that by (auto simp: generate_token_def manager_ok_def form_shown_def page_defs split: option.split)
  have ret: "manager_ok (go_page p s)"
    if "(mg_page s, p) \<in> {(PgJoinInfo, PgMasterMenu), (PgMasterForm, PgMasterMenu), (PgSlaveForm, PgSlaveMenu),
        (PgWizMaster, PgWizard), (PgWizSlave, PgWizard)}" for p
    using ok that by (auto simp: manager_ok_def page_defs)
  have b: "manager_ok (f s)" if "f \<in> set (form_buttons v s)" for f
    using ok that gen
    by (cases "mg_form s"; simp add: form_buttons_def split: if_splits)
      (elim conjE disjE; simp add: ok_message ok_stored ok_install ok_main ret)+
  show ?thesis
  proof (cases "mg_page s \<in> {PgStatus, PgLogs, PgMsg, PgJoinInfo}")
    case True
    then show ?thesis using ok ok_main ret by (cases n) (auto simp: press_button_def)
  next
    case False
    then show ?thesis using ok b by (simp add: press_button_def nth_action_inv)
  qed
qed

lemma ok_esc: "manager_ok s \<Longrightarrow> manager_ok (esc_to_page s)"
  by (auto simp: esc_to_page_def manager_ok_def page_defs)

lemma ok_key: "manager_ok s \<Longrightarrow> manager_ok (on_key v k s)"
proof -
  assume ok: "manager_ok s"
  have t: "manager_ok (s\<lparr>mg_form := type_field n x (mg_form s)\<rparr>)" if "form_shown s" for n x
    using ok that by (cases "mg_form s") (auto simp: manager_ok_def form_shown_def type_field_def)
  have c: "manager_ok (s\<lparr>mg_form := choose_carrier n (mg_form s)\<rparr>)" if "form_shown s" for n
    using ok that by (cases "mg_form s") (auto simp: manager_ok_def form_shown_def choose_carrier_def)
  show ?thesis
    using ok t c by (cases k) (auto simp: on_key_def ok_pick ok_press ok_esc ok_stored)
qed

lemma ok_run: "manager_ok s \<Longrightarrow> manager_ok (manager_run v ks s)"
  by (induction ks arbitrary: s) (auto simp: manager_run_def ok_key)

lemma ok_start: "manager_ok show_main_menu"
  by (simp add: manager_ok_def show_main_menu_def)

section \<open>Theorems\<close>

text \<open>The keys that lead from a page back to the main menu.\<close>

fun home_keys :: "page \<Rightarrow> key list" where
  "home_keys PgMain = []"
| "home_keys PgMasterMenu = [Esc]"
| "home_keys PgSlaveMenu = [Esc]"
| "home_keys PgStatus = [Esc]"
| "home_keys PgLogs = [Press 0]"
| "home_keys PgMsg = [Press 0]"
| "home_keys PgJoinInfo = [Press 0, Esc]"
| "home_keys PgMasterForm = [Press 1, Esc]"
| "home_keys PgSlaveForm = [Press 1, Esc]"
| "home_keys PgGenTLS = [Press 1]"
| "home_keys PgWizard = [Pick 2]"
| "home_keys PgWizMaster = [Esc, Pick 2]"
| "home_keys PgWizSlave = [Esc, Pick 2]"

lemmas manager_defs = manager_run_def on_key_def esc_to_page_def press_button_def pick_item_def wizard_items_def
  form_buttons_def form_shown_def

lemma home_run:
  assumes "manager_ok s" and "\<not> mg_stopped s"
  shows "manager_run v (home_keys (mg_page s)) s = s\<lparr>mg_page := PgMain\<rparr>"
  using assms
  by (cases "mg_page s"; cases "mg_form s")
    (simp_all add: manager_defs manager_ok_def page_defs numeral_2_eq_2)

lemma home_keys_two: "length (home_keys p) \<le> 2"
  by (cases p) simp_all

lemma ok_home:
  "manager_ok s \<Longrightarrow> mg_page s \<in> mg_pages s \<and> length (home_keys (mg_page s)) \<le> 2
      \<and> (mg_stopped s \<or> (mg_page (manager_run v (home_keys (mg_page s)) s) = PgMain
           \<and> mg_stopped (manager_run v (home_keys (mg_page s)) s) = mg_stopped s
           \<and> mg_master (manager_run v (home_keys (mg_page s)) s) = mg_master s
           \<and> mg_slave (manager_run v (home_keys (mg_page s)) s) = mg_slave s
           \<and> mg_token (manager_run v (home_keys (mg_page s)) s) = mg_token s
           \<and> mg_cmds (manager_run v (home_keys (mg_page s)) s) = mg_cmds s))"
  by (cases "mg_stopped s") (simp_all add: home_keys_two home_run, simp_all add: manager_ok_def)

text \<open>C39. Whatever is pressed, the page shown is one that exists, so the screen is never blank, and unless the
  program was quit at most two keys lead back to the main menu without touching a file, running a command
  or quitting.\<close>

theorem manager_never_blank:
  "let s = manager_run v ks show_main_menu; s' = manager_run v (home_keys (mg_page s)) s
   in mg_page s \<in> mg_pages s \<and> length (home_keys (mg_page s)) \<le> 2
      \<and> (mg_stopped s \<or> (mg_page s' = PgMain \<and> mg_stopped s' = mg_stopped s \<and> mg_master s' = mg_master s
           \<and> mg_slave s' = mg_slave s \<and> mg_token s' = mg_token s \<and> mg_cmds s' = mg_cmds s))"
  using ok_home [OF ok_run [OF ok_start], of v ks v] by (simp only: Let_def)

text \<open>What a form's typing does to the configuration it edits.\<close>

definition edit_master :: "(nat \<times> string) list \<Rightarrow> master_config \<Rightarrow> master_config" where
  "edit_master es c = fold (\<lambda>(i, x) c. if i < length master_fields then snd (master_fields ! i) x c else c) es c"

definition off_form :: "master_config \<Rightarrow> control_port list \<times> string \<times> slave_entry list \<times> string \<times> string \<times> bool option \<times> string \<times> string" where
  "off_form c = (mf_ports c, mf_transport c, mf_slaves c, mf_dns_mode c, mf_dns_doh c, mf_suppress c, mf_metrics c, mf_log c)"

lemma lt10: "(i::nat) < 10 \<Longrightarrow> i = 0 \<or> i = 1 \<or> i = 2 \<or> i = 3 \<or> i = 4 \<or> i = 5 \<or> i = 6 \<or> i = 7 \<or> i = 8 \<or> i = 9"
  by presburger

lemma master_fields_10: "length master_fields = 10"
  by (simp add: master_fields_def)

lemma master_field_get_set:
  "i < length master_fields \<Longrightarrow> j < length master_fields \<Longrightarrow>
     fst (master_fields ! i) (snd (master_fields ! j) x c) = (if i = j then x else fst (master_fields ! i) c)"
  unfolding master_fields_10 by (drule lt10, drule lt10) (elim disjE; simp add: master_fields_def)

lemma master_field_off: "j < length master_fields \<Longrightarrow> off_form (snd (master_fields ! j) x c) = off_form c"
  unfolding master_fields_10 by (drule lt10) (elim disjE; simp add: master_fields_def off_form_def)

lemma edit_off: "off_form (edit_master es c) = off_form c"
  by (induction es arbitrary: c) (auto simp: edit_master_def master_field_off)

lemma edit_get:
  "i < length master_fields \<Longrightarrow> fst (master_fields ! i) (edit_master es c)
     = (case map_of (rev es) i of None \<Rightarrow> fst (master_fields ! i) c | Some x \<Rightarrow> x)"
  by (induction es rule: rev_induct)
    (auto simp: edit_master_def master_field_get_set map_add_def split: option.split)

lemma type_run:
  assumes "mg_form s = MasterForm c" and "mg_page s = PgMasterForm" and "\<not> mg_stopped s"
  shows "fold (on_key v) (map (\<lambda>(i, x). Type i x) es) s = s\<lparr>mg_form := MasterForm (edit_master es c)\<rparr>"
  using assms
proof (induction es arbitrary: s c)
  case (Cons e es)
  obtain i x where e: "e = (i, x)" by (cases e)
  let ?c = "if i < length master_fields then snd (master_fields ! i) x c else c"
  have step: "on_key v (Type i x) s = s\<lparr>mg_form := MasterForm ?c\<rparr>"
    using Cons.prems by (simp add: on_key_def form_shown_def type_field_def)
  show ?case using Cons.IH [of "s\<lparr>mg_form := MasterForm ?c\<rparr>" ?c] Cons.prems
    by (simp add: e step edit_master_def)
qed (simp add: edit_master_def)

text \<open>C40. Editing \<open>master.json\<close> from the master's menu: whatever is typed into the form, saving writes the configuration
  that was loaded with each field of the form set to the text last typed into it, and everything the form
  does not show (ports, carrier, slaves, DNS mode, metrics, log level) kept; the wizard's token check
  is not made.\<close>

theorem form_keeps_other_fields:
  assumes "mg_page s = PgMasterMenu" and "\<not> mg_stopped s" and "se_save (me_setup v)" and "mg_master s = Some b"
  shows "\<exists>c. mg_master (manager_run v ([Pick 0] @ map (\<lambda>(i, x). Type i x) es @ [Press 0]) s) = Some (me_enc_master v c)
     \<and> (let c0 = me_over_master v b default_master_config in off_form c = off_form c0
        \<and> (\<forall>i < length master_fields. fst (master_fields ! i) c
             = (case map_of (rev es) i of None \<Rightarrow> fst (master_fields ! i) c0 | Some x \<Rightarrow> x)))"
proof -
  let ?c0 = "me_over_master v b default_master_config"
  let ?s1 = "on_key v (Pick 0) s"
  have s1: "mg_form ?s1 = MasterForm ?c0" "mg_page ?s1 = PgMasterForm" "\<not> mg_stopped ?s1"
    using assms by (simp_all add: on_key_def pick_item_def master_items_def show_master_form_def page_defs Let_def)
  have "mg_master (manager_run v ([Pick 0] @ map (\<lambda>(i, x). Type i x) es @ [Press 0]) s)
      = Some (me_enc_master v (edit_master es ?c0))"
    using s1 assms(3) type_run [OF s1, of v es]
    by (simp add: manager_run_def, simp add: on_key_def press_button_def form_buttons_def page_defs save_master_def)
  then show ?thesis using edit_off [of es ?c0] edit_get [of _ es ?c0] by (auto simp: Let_def)
qed

definition sample_manager_env :: manager_env where
  "sample_manager_env = \<lparr>me_over_master = (\<lambda>b c. c\<lparr>mf_transport := ''quic''\<rparr>), me_over_slave = (\<lambda>b c. c),
     me_master = (\<lambda>b. None), me_enc_master = (\<lambda>c. []), me_enc_slave = (\<lambda>c. []), me_token_file = True, me_rnd = None,
     me_setup = \<lparr>se_tls = True, se_save = True, se_present = (\<lambda>_. False), se_run = (\<lambda>_ _. Some [])\<rparr>\<rparr>"

definition sample_manager :: manager where
  "sample_manager = show_page PgMasterMenu (show_main_menu\<lparr>mg_master := Some []\<rparr>)"

theorem form_keeps_other_fields_witness:
  "\<exists>c. mg_master (manager_run sample_manager_env ([Pick 0] @ map (\<lambda>(i, x). Type i x) [(3, ''10.9.0.0/24'')] @ [Press 0]) sample_manager)
       = Some (me_enc_master sample_manager_env c)
     \<and> (let c0 = me_over_master sample_manager_env [] default_master_config in off_form c = off_form c0
        \<and> (\<forall>i < length master_fields. fst (master_fields ! i) c
             = (case map_of (rev [(3, ''10.9.0.0/24'')]) i of None \<Rightarrow> fst (master_fields ! i) c0 | Some x \<Rightarrow> x)))"
  by (rule form_keeps_other_fields) (simp_all add: sample_manager_def sample_manager_env_def show_main_menu_def page_defs)

end
