(* ===== verification/Agent.thy ===== *)
theory Agent
  imports ClientTheorems Config
begin

text \<open>
  The desktop agent, \<open>agent/server.go\<close>: the loopback API the window drives the client engine with, its
  bearer token, the profiles and preferences it keeps and saves, and connecting and disconnecting.
  The JSON decoders of the request bodies and the time since the last connect are arguments, and so
  is whether the file of a save can be opened, which no handler looks at.
\<close>

section \<open>Requests and replies\<close>

record request =
  rq_method :: string
  rq_path :: string
  rq_auth :: string
  rq_body :: bytes

record status_reply =
  sr_state :: string
  sr_tunnel_ip :: string
  sr_transport :: string
  sr_up :: u64
  sr_down :: u64
  sr_uptime :: int
  sr_rtt :: int

datatype reply = Unauthorized | NotFound | BadRequest | MethodNotAllowed | ServerError connect_error
  | NoContent | Pong | EmptyReply | Status status_reply | Profiles "profile list" | Prefs ui_prefs

record decoders =
  dj_profile :: "bytes \<Rightarrow> profile option"
  dj_put :: "bytes \<Rightarrow> (int \<times> profile) option"
  dj_index :: "bytes \<Rightarrow> int option"
  dj_prefs :: "bytes \<Rightarrow> ui_prefs option"
  dj_since :: int

record agent =
  ag_engine :: engine
  ag_cfg :: client_config
  ag_file :: "client_config option"
  ag_token :: string

section \<open>The token\<close>

text \<open>\<open>base64.RawURLEncoding\<close> on 24 bytes, which need no padding.\<close>

definition url_char :: "char \<Rightarrow> char" where
  "url_char c = (if c = CHR ''+'' then CHR ''-'' else if c = CHR ''/'' then CHR ''_'' else c)"

definition agent_start :: "bytes option \<Rightarrow> bool \<Rightarrow> engine \<Rightarrow> client_config \<Rightarrow> agent option" where
  "agent_start rnd listens e c =
     (case rnd of
        None \<Rightarrow> None
      | Some r \<Rightarrow> if listens then Some \<lparr>ag_engine = e, ag_cfg = c, ag_file = None, ag_token = map url_char (encode64 r)\<rparr>
          else None)"

definition agent_auth :: "(request \<Rightarrow> agent \<Rightarrow> reply \<times> agent) \<Rightarrow> request \<Rightarrow> agent \<Rightarrow> reply \<times> agent" where
  "agent_auth h r a = (if rq_auth r \<noteq> ''Bearer '' @ ag_token a then (Unauthorized, a) else h r a)"

section \<open>Handlers\<close>

definition save_config :: "bool \<Rightarrow> agent \<Rightarrow> agent" where
  "save_config ok a = (if ok then a\<lparr>ag_file := Some (ag_cfg a)\<rparr> else a)"

definition set_profiles :: "bool \<Rightarrow> profile list \<Rightarrow> agent \<Rightarrow> agent" where
  "set_profiles ok ps a = save_config ok (a\<lparr>ag_cfg := (ag_cfg a)\<lparr>cf_profiles := ps\<rparr>\<rparr>)"

definition handle_status :: "decoders \<Rightarrow> request \<Rightarrow> agent \<Rightarrow> reply \<times> agent" where
  "handle_status d r a = (let e = ag_engine a in
     (Status \<lparr>sr_state = state_string (c_state e), sr_tunnel_ip = tunnel_ip e, sr_transport = active_transport e,
        sr_up = c_up e, sr_down = c_down e,
        sr_uptime = quot (dj_since d) 1000000000, sr_rtt = c_rtt e\<rparr>, a))"

definition handle_profiles :: "decoders \<Rightarrow> bool \<Rightarrow> request \<Rightarrow> agent \<Rightarrow> reply \<times> agent" where
  "handle_profiles d ok r a =
     (let ps = cf_profiles (ag_cfg a) in
      if rq_method r = ''GET'' then (Profiles ps, a)
      else if rq_method r = ''POST'' then
        (case dj_profile d (rq_body r) of
           None \<Rightarrow> (BadRequest, a)
         | Some p \<Rightarrow> (Profiles (ps @ [p]), set_profiles ok (ps @ [p]) a))
      else if rq_method r = ''PUT'' then
        (case dj_put d (rq_body r) of
           None \<Rightarrow> (BadRequest, a)
         | Some (i, p) \<Rightarrow>
             if 0 \<le> i \<and> i < int (length ps)
             then (Profiles (ps[nat i := p]), set_profiles ok (ps[nat i := p]) a) else (Profiles ps, a))
      else if rq_method r = ''DELETE'' then
        (case dj_index d (rq_body r) of
           None \<Rightarrow> (BadRequest, a)
         | Some i \<Rightarrow>
             if 0 \<le> i \<and> i < int (length ps)
             then (let ps' = take (nat i) ps @ drop (Suc (nat i)) ps in (Profiles ps', set_profiles ok ps' a))
             else (Profiles ps, a))
      else (EmptyReply, a))"

definition no_prefs :: ui_prefs where
  "no_prefs = \<lparr>up_theme = [], up_colors = [], up_lang = []\<rparr>"

definition handle_prefs :: "decoders \<Rightarrow> bool \<Rightarrow> request \<Rightarrow> agent \<Rightarrow> reply \<times> agent" where
  "handle_prefs d ok r a =
     (if rq_method r = ''GET'' then
        (Prefs (case cf_ui (ag_cfg a) of None \<Rightarrow> no_prefs | Some p \<Rightarrow> p), a)
      else if rq_method r = ''PUT'' then
        (case dj_prefs d (rq_body r) of
           None \<Rightarrow> (BadRequest, a)
         | Some p \<Rightarrow> (Prefs p, save_config ok (a\<lparr>ag_cfg := (ag_cfg a)\<lparr>cf_ui := Some p\<rparr>\<rparr>)))
      else (MethodNotAllowed, a))"

definition handle_connect :: "decoders \<Rightarrow> request \<Rightarrow> agent \<Rightarrow> reply \<times> agent" where
  "handle_connect d r a =
     (if rq_method r \<noteq> ''POST'' then (MethodNotAllowed, a)
      else case dj_index d (rq_body r) of
        None \<Rightarrow> (BadRequest, a)
      | Some i \<Rightarrow>
          if i < 0 \<or> int (length (cf_profiles (ag_cfg a))) \<le> i then (BadRequest, a)
          else let p = cf_profiles (ag_cfg a) ! nat i;
                   e = (ag_engine a)\<lparr>c_transport := pf_transport p, c_ports := pf_ports p\<rparr> in
            (case connect decode64 (pf_token p) e of
               (Some err, e') \<Rightarrow> (ServerError err, a\<lparr>ag_engine := e'\<rparr>)
             | (None, e') \<Rightarrow> (NoContent, a\<lparr>ag_engine := e'\<rparr>)))"

definition handle_disconnect :: "request \<Rightarrow> agent \<Rightarrow> reply \<times> agent" where
  "handle_disconnect r a =
     (if rq_method r \<noteq> ''POST'' then (MethodNotAllowed, a)
      else (NoContent, a\<lparr>ag_engine := snd (disconnect (ag_engine a))\<rparr>))"

definition agent_serve :: "decoders \<Rightarrow> bool \<Rightarrow> request \<Rightarrow> agent \<Rightarrow> reply \<times> agent" where
  "agent_serve d ok r a =
     (if rq_path r = ''/api/ping'' then (Pong, a)
      else if rq_path r = ''/api/status'' then agent_auth (handle_status d) r a
      else if rq_path r = ''/api/profiles'' then agent_auth (handle_profiles d ok) r a
      else if rq_path r = ''/api/uiprefs'' then agent_auth (handle_prefs d ok) r a
      else if rq_path r = ''/api/connect'' then agent_auth (handle_connect d) r a
      else if rq_path r = ''/api/disconnect'' then agent_auth handle_disconnect r a
      else (NotFound, a))"

text \<open>A run of requests, with whether each save succeeds.\<close>

fun agent_run :: "decoders \<Rightarrow> (bool \<times> request) list \<Rightarrow> agent \<Rightarrow> reply list \<times> agent" where
  "agent_run d [] a = ([], a)"
| "agent_run d ((ok, r) # rs) a =
     (case agent_serve d ok r a of (x, a1) \<Rightarrow> (case agent_run d rs a1 of (xs, a2) \<Rightarrow> (x # xs, a2)))"

section \<open>Without the token\<close>

lemma agent_refuses:
  "rq_auth r \<noteq> ''Bearer '' @ ag_token a \<Longrightarrow> snd (agent_serve d ok r a) = a \<and> fst (agent_serve d ok r a) \<in> {Pong, Unauthorized, NotFound}"
  by (simp add: agent_serve_def agent_auth_def)

lemma handlers_keep_token [simp]:
  "ag_token (snd (handle_status d r a)) = ag_token a" "ag_token (snd (handle_profiles d ok r a)) = ag_token a"
  "ag_token (snd (handle_prefs d ok r a)) = ag_token a" "ag_token (snd (handle_connect d r a)) = ag_token a"
  "ag_token (snd (handle_disconnect r a)) = ag_token a"
  by (auto simp: handle_status_def handle_profiles_def handle_prefs_def handle_connect_def handle_disconnect_def
      set_profiles_def save_config_def Let_def split: option.split prod.split)

lemma serve_keeps_token [simp]: "ag_token (snd (agent_serve d ok r a)) = ag_token a"
  by (simp add: agent_serve_def agent_auth_def)

lemma agent_run_refuses:
  "\<forall>(ok, r) \<in> set rs. rq_auth r \<noteq> ''Bearer '' @ ag_token a \<Longrightarrow>
    snd (agent_run d rs a) = a \<and> set (fst (agent_run d rs a)) \<subseteq> {Pong, Unauthorized, NotFound}"
proof (induction rs)
  case (Cons x rs)
  obtain ok r where x: "x = (ok, r)" by (cases x)
  obtain y where y: "agent_serve d ok r a = (y, a)" "y \<in> {Pong, Unauthorized, NotFound}"
    using agent_refuses[of r a d ok] Cons.prems x by (cases "agent_serve d ok r a") auto
  then show ?case
    using Cons x by (auto split: prod.splits)
qed simp

lemma url_char_inj: "c \<notin> {CHR ''-'', CHR ''_''} \<Longrightarrow> c' \<notin> {CHR ''-'', CHR ''_''} \<Longrightarrow> url_char c = url_char c' \<Longrightarrow> c = c'"
  by (auto simp: url_char_def split: if_splits)

lemma delete_index:
  assumes "i < length ps"
  shows "take i ps @ drop (Suc i) ps = map (\<lambda>j. ps ! j) (filter (\<lambda>j. j \<noteq> i) [0..<length ps])"
proof -
  have "[0..<length ps] = [0..<i] @ i # [Suc i..<length ps]"
    using assms by (metis le_add1 less_imp_add_positive upt_add_eq_append upt_conv_Cons add_0 zero_le)
  then have "filter (\<lambda>j. j \<noteq> i) [0..<length ps] = [0..<i] @ [Suc i..<length ps]"
    by (simp add: filter_id_conv)
  moreover have "map (\<lambda>j. ps ! j) [0..<i] = take i ps" "map (\<lambda>j. ps ! j) [Suc i..<length ps] = drop (Suc i) ps"
    using assms by (auto intro!: nth_equalityI)
  ultimately show ?thesis by simp
qed

lemma all_indices: "map (\<lambda>j. ps ! j) (filter (\<lambda>j. int j \<noteq> i) [0..<length ps])
    = (if 0 \<le> i \<and> i < int (length ps) then take (nat i) ps @ drop (Suc (nat i)) ps else ps)"
proof (cases "0 \<le> i \<and> i < int (length ps)")
  case True
  then have "(\<lambda>j. int j \<noteq> i) = (\<lambda>j. j \<noteq> nat i)"
    by (intro ext) auto
  with True delete_index[of "nat i" ps] show ?thesis by (simp add: nat_less_iff)
next
  case False
  then have "filter (\<lambda>j. int j \<noteq> i) [0..<length ps] = [0..<length ps]"
    by (auto simp: filter_id_conv)
  with False show ?thesis by (auto simp: map_nth)
qed

section \<open>Samples\<close>

definition sample_profile :: "string \<Rightarrow> profile" where
  "sample_profile name = \<lparr>pf_name = name, pf_master = ''198.51.100.1'', pf_token = encode64 (replicate 16 7),
     pf_auto = False, pf_transport = ''utp'', pf_ports = []\<rparr>"

definition sample_agent :: "client_state \<Rightarrow> agent" where
  "sample_agent st = \<lparr>ag_engine = new_engine\<lparr>c_state := st\<rparr>,
     ag_cfg = \<lparr>cf_profiles = [sample_profile ''a'', sample_profile ''b''], cf_active = [], cf_dns = [], cf_log = [], cf_ui = None\<rparr>,
     ag_file = None, ag_token = ''secret''\<rparr>"

definition sample_decoders :: decoders where
  "sample_decoders = \<lparr>dj_profile = (\<lambda>_. Some (sample_profile ''c'')), dj_put = (\<lambda>_. Some (1, sample_profile ''d'')),
     dj_index = (\<lambda>_. Some 0), dj_prefs = (\<lambda>_. None), dj_since = 0\<rparr>"

definition sample_request :: "string \<Rightarrow> string \<Rightarrow> request" where
  "sample_request meth path = \<lparr>rq_method = meth, rq_path = path, rq_auth = ''Bearer secret'', rq_body = []\<rparr>"

section \<open>Properties\<close>

text \<open>C36. The agent is closed to whoever lacks the token: a run of requests none of which carries it leaves
  the engine, the configuration and the file as they were, and every reply is the ping's, a refusal
  or not found; the token itself never changes.\<close>

theorem agent_closed:
  assumes "\<forall>(ok, r) \<in> set rs. rq_auth r \<noteq> ''Bearer '' @ ag_token a"
  shows "snd (agent_run d rs a) = a \<and> set (fst (agent_run d rs a)) \<subseteq> {Pong, Unauthorized, NotFound}
    \<and> ag_token (snd (agent_serve d ok' r' a)) = ag_token a"
  using agent_run_refuses[OF assms] by simp

theorem agent_closed_witness:
  "snd (agent_run sample_decoders [(True, (sample_request ''POST'' ''/api/disconnect'')\<lparr>rq_auth := []\<rparr>)]
     (sample_agent StateConnected)) = sample_agent StateConnected"
  by (rule agent_closed[THEN conjunct1]) (simp add: sample_agent_def)

text \<open>The profiles: with the token, a \<open>POST\<close> appends, a \<open>PUT\<close> changes the one profile named and a
  \<open>DELETE\<close> takes out the one named and keeps the order of the others; an index that is out of range
  changes nothing and is still answered by the list. The reply is the list kept, and a save puts the
  whole configuration into the file.\<close>

theorem profiles_edited:
  assumes "rq_path r = ''/api/profiles''" and "rq_auth r = ''Bearer '' @ ag_token a"
    and "ps = cf_profiles (ag_cfg a)" and "agent_serve d ok r a = (x, a')" and "ps' = cf_profiles (ag_cfg a')"
  shows "(rq_method r = ''POST'' \<and> dj_profile d (rq_body r) = Some p \<longrightarrow> x = Profiles ps' \<and> ps' = ps @ [p])
    \<and> (rq_method r = ''PUT'' \<and> dj_put d (rq_body r) = Some (i, p) \<longrightarrow> x = Profiles ps' \<and> length ps' = length ps
        \<and> (\<forall>j < length ps. ps' ! j = (if int j = i then p else ps ! j)))
    \<and> (rq_method r = ''DELETE'' \<and> dj_index d (rq_body r) = Some i \<longrightarrow> x = Profiles ps'
        \<and> ps' = map (\<lambda>j. ps ! j) (filter (\<lambda>j. int j \<noteq> i) [0..<length ps]))
    \<and> (ps' \<noteq> ps \<and> ok \<longrightarrow> ag_file a' = Some (ag_cfg a')) \<and> ag_engine a' = ag_engine a"
proof -
  have serve: "handle_profiles d ok r a = (x, a')"
    using assms(1,2,4) by (simp add: agent_serve_def agent_auth_def)
  show ?thesis
    using serve assms(3,5)
    by (auto simp: handle_profiles_def set_profiles_def save_config_def Let_def all_indices nth_list_update
        split: if_splits option.splits prod.splits)
qed

theorem profiles_edited_witness:
  "cf_profiles (ag_cfg (snd (agent_serve sample_decoders True (sample_request ''DELETE'' ''/api/profiles'')
     (sample_agent StateDisconnected)))) = [sample_profile ''b'']"
proof -
  obtain x a' where s: "agent_serve sample_decoders True (sample_request ''DELETE'' ''/api/profiles'') (sample_agent StateDisconnected) = (x, a')"
    by (cases "agent_serve sample_decoders True (sample_request ''DELETE'' ''/api/profiles'') (sample_agent StateDisconnected)")
  have "rq_path (sample_request ''DELETE'' ''/api/profiles'') = ''/api/profiles''"
    "rq_auth (sample_request ''DELETE'' ''/api/profiles'') = ''Bearer '' @ ag_token (sample_agent StateDisconnected)"
    by (simp_all add: sample_request_def sample_agent_def)
  from profiles_edited[OF this refl s refl, of undefined 0] show ?thesis
    by (simp add: s) (simp add: sample_request_def sample_agent_def sample_decoders_def)
qed

text \<open>C37. Connecting through the agent: with the token, a \<open>POST\<close> for a profile of the list starts that
  profile's connection, with its token, carrier and ports, when the engine is idle and the token
  decodes. While the engine is connecting or connected the request is refused, but the carrier and
  the ports of the refused profile have replaced those of the running connection.\<close>

theorem connect_through_agent:
  assumes "rq_path r = ''/api/connect''" and "rq_auth r = ''Bearer '' @ ag_token a" and "rq_method r = ''POST''"
    and "dj_index d (rq_body r) = Some (int i)" and "i < length (cf_profiles (ag_cfg a))"
    and "p = cf_profiles (ag_cfg a) ! i" and "agent_serve d ok r a = (x, a')"
  shows "c_transport (ag_engine a') = pf_transport p \<and> c_ports (ag_engine a') = pf_ports p
    \<and> (if c_state (ag_engine a) = StateConnecting \<or> c_state (ag_engine a) = StateConnected
       then x = ServerError AlreadyConnected \<and> c_state (ag_engine a') = c_state (ag_engine a)
         \<and> c_token (ag_engine a') = c_token (ag_engine a)
       else case decode64 (pf_token p) of
           None \<Rightarrow> x = ServerError InvalidToken \<and> c_state (ag_engine a') = c_state (ag_engine a)
         | Some tok \<Rightarrow> x = NoContent \<and> c_state (ag_engine a') = StateConnecting \<and> c_token (ag_engine a') = tok)"
proof -
  have "handle_connect d r a = (x, a')"
    using assms(1,2,7) by (simp add: agent_serve_def agent_auth_def)
  with assms(3-6) show ?thesis
    by (auto simp: handle_connect_def Let_def connect_def split: if_splits option.splits prod.splits)
qed

theorem connect_through_agent_witness:
  "\<exists>x a'. agent_serve sample_decoders True (sample_request ''POST'' ''/api/connect'') (sample_agent StateConnected) = (x, a')
     \<and> x = ServerError AlreadyConnected \<and> c_transport (ag_engine (sample_agent StateConnected)) = []
     \<and> c_transport (ag_engine a') = ''utp''"
proof -
  let ?r = "sample_request ''POST'' ''/api/connect''" and ?a = "sample_agent StateConnected"
  obtain x a' where s: "agent_serve sample_decoders True ?r ?a = (x, a')"
    by (cases "agent_serve sample_decoders True ?r ?a")
  have r: "rq_path ?r = ''/api/connect''" "rq_auth ?r = ''Bearer '' @ ag_token ?a" "rq_method ?r = ''POST''"
    "dj_index sample_decoders (rq_body ?r) = Some (int 0)" "0 < length (cf_profiles (ag_cfg ?a))"
    by (simp_all add: sample_request_def sample_agent_def sample_decoders_def)
  show ?thesis
    using connect_through_agent[OF r refl s] s
    by (auto simp: sample_agent_def new_engine_def) (simp add: sample_profile_def)
qed

end
