(* ===== verification/Commands.thy ===== *)
theory Commands
  imports Agent
begin

text \<open>
  The processes around the client engine: the headless client \<open>cmd/mini-tun-asymmetric-cli\<close>, the agent
  process \<open>cmd/mini-tun-asymmetric-agent\<close> that serves the window's API and dies with it, the
  mobile bridge and the socket tuning they share. Arguments of the processes are the
  flags; what the system answers, and which requests and polls happen in which order, are arguments.
\<close>

section \<open>The headless client\<close>

record cli_flags =
  cl_master :: string
  cl_token :: string
  cl_full :: bool
  cl_route :: string
  cl_secure_dns :: bool
  cl_transport :: string
  cl_version :: bool

text \<open>
  What a run meets: the dials of the handshake, what the system answers while the tunnel comes up, and
  whether the goroutine of \<open>Connect\<close> gets there within the twenty seconds the client waits. A
  goroutine that is late is one still in the handshake.
\<close>

record cli_env =
  ce_dial :: "string \<Rightarrow> int \<Rightarrow> dial_error + handshake_result"
  ce_up :: up_env
  ce_in_time :: bool

datatype exit_code = ExitOK | ExitFatal | ExitUsage

definition cli_engine :: "cli_flags \<Rightarrow> engine" where
  "cli_engine fl =
     (let full = cl_full fl \<and> cl_route fl = []
      in new_engine\<lparr>c_full := full, c_secure := cl_secure_dns fl \<and> full, c_transport := cl_transport fl\<rparr>)"

text \<open>The one host of \<open>-route\<close>; \<open>None\<close> is an address that does not parse.\<close>

definition cli_route :: "cli_flags \<Rightarrow> engine \<Rightarrow> os_action list option" where
  "cli_route fl e =
     (if cl_route fl = [] then Some []
      else case parse_ip (cl_route fl) of
        None \<Rightarrow> None
      | Some a \<Rightarrow> Some (case add_host_route a e of None \<Rightarrow> [] | Some acts \<Rightarrow> acts))"

definition cli_main :: "cli_env \<Rightarrow> cli_flags \<Rightarrow> exit_code \<times> os_action list \<times> engine" where
  "cli_main v fl =
     (if cl_version fl then (ExitOK, [], new_engine)
      else if cl_master fl = [] \<or> cl_token fl = [] then (ExitUsage, [], new_engine)
      else case connect decode64 (cl_token fl) (cli_engine fl) of
        (Some _, e) \<Rightarrow> (ExitFatal, [], e)
      | (None, e) \<Rightarrow>
          (case (if ce_in_time v then connect_goroutine (ce_up v) (ce_dial v) e else ([], e)) of
             (acts, e1) \<Rightarrow>
               if Hook StateConnected \<notin> set acts
               then (case disconnect e1 of (down, e2) \<Rightarrow> (ExitFatal, acts @ down, e2))
               else (case cli_route fl e1 of
                  None \<Rightarrow> (case disconnect e1 of (down, e2) \<Rightarrow> (ExitFatal, acts @ down, e2))
                | Some r \<Rightarrow> (case disconnect e1 of (down, e2) \<Rightarrow> (ExitOK, acts @ r @ down, e2)))))"

section \<open>The agent process\<close>

record agent_flags =
  af_owner :: int
  af_version :: bool

record endpoint_file =
  ef_url :: string
  ef_token :: string
  ef_pid :: int

definition still_active :: int where "still_active = 259"

text \<open>\<open>processAlive\<close> on Windows: the exit code of a process that could be opened.\<close>

definition process_alive :: "int option \<Rightarrow> bool" where
  "process_alive exit = (case exit of None \<Rightarrow> False | Some code \<Rightarrow> code = still_active)"

definition process_alive_other :: "int \<Rightarrow> bool" where
  "process_alive_other pid = True"

text \<open>Whether the local Administrators' identifier is made and the token a member of it.\<close>

definition is_admin :: "bool \<Rightarrow> bool option \<Rightarrow> bool" where
  "is_admin sid member = (if \<not> sid then False else member = Some True)"

text \<open>The elevated start: the executable, its arguments as one string, none when empty.\<close>

definition relaunch_elevated :: "string option \<Rightarrow> string list \<Rightarrow> (string \<times> string option) option" where
  "relaunch_elevated exe args =
     (case exe of
        None \<Rightarrow> None
      | Some x \<Rightarrow> let a = join '' '' args in Some (x, if a \<noteq> [] then Some a else None))"

datatype agent_start_result = PrintedVersion | Relaunched | StartFailed | Running agent "endpoint_file option"

record agent_env =
  av_windows :: bool
  av_admin :: bool
  av_config :: "client_config option"
  av_rnd :: "bytes option"
  av_listens :: bool
  av_url :: string
  av_pid :: int
  av_writes :: bool

definition empty_config :: client_config where
  "empty_config = \<lparr>cf_profiles = [], cf_active = [], cf_dns = [], cf_log = [], cf_ui = None\<rparr>"

definition write_endpoint :: "bool \<Rightarrow> endpoint_file \<Rightarrow> endpoint_file option \<Rightarrow> endpoint_file option" where
  "write_endpoint ok f old = (if ok then Some f else old)"

definition agent_main :: "agent_env \<Rightarrow> agent_flags \<Rightarrow> endpoint_file option \<Rightarrow> agent_start_result" where
  "agent_main v fl old =
     (if af_version fl then PrintedVersion
      else if av_windows v \<and> \<not> av_admin v then Relaunched
      else let cfg = (case av_config v of None \<Rightarrow> empty_config | Some c \<Rightarrow> c) in
        case agent_start (av_rnd v) (av_listens v) new_engine cfg of
          None \<Rightarrow> StartFailed
        | Some a \<Rightarrow> Running a (write_endpoint (av_writes v) \<lparr>ef_url = av_url v, ef_token = ag_token a, ef_pid = av_pid v\<rparr> old))"

text \<open>
  The life of the process: requests of the window, and the polls of the owner's process every two
  seconds when one was given. The first poll that misses the owner ends the process.
\<close>

datatype agent_event = Request bool request | Poll bool

record agent_process =
  ap_agent :: agent
  ap_file :: "endpoint_file option"
  ap_exited :: bool

definition on_gone :: "agent_process \<Rightarrow> agent_process" where
  "on_gone p = p\<lparr>ap_agent := (ap_agent p)\<lparr>ag_engine := snd (disconnect (ag_engine (ap_agent p)))\<rparr>,
                 ap_file := None, ap_exited := True\<rparr>"

fun agent_life :: "decoders \<Rightarrow> int \<Rightarrow> agent_event list \<Rightarrow> agent_process \<Rightarrow> reply list \<times> agent_process" where
  "agent_life d owner [] p = ([], p)"
| "agent_life d owner (Request ok r # es) p =
     (case agent_serve d ok r (ap_agent p) of (x, a) \<Rightarrow>
        (case agent_life d owner es (p\<lparr>ap_agent := a\<rparr>) of (xs, q) \<Rightarrow> (x # xs, q)))"
| "agent_life d owner (Poll alive # es) p =
     (if owner \<le> 0 \<or> alive then agent_life d owner es p else ([], on_gone p))"

section \<open>The bridge and the sockets\<close>

definition mobile_carriers :: string where "mobile_carriers = ''cs2,utp,webrtc,quic''"

definition carrier_known :: "string \<Rightarrow> bool" where
  "carrier_known name = (by_name (replicate 16 0) name \<noteq> None)"

definition udp_buffer_bytes :: int where "udp_buffer_bytes = 2 * 2 ^ 20"

text \<open>The buffer sizes set, receive then send, and whether all went well; a nil socket is left alone.\<close>

definition tune_udp :: "bool \<Rightarrow> bool \<Rightarrow> bool \<Rightarrow> int list \<times> bool" where
  "tune_udp nil rcv snd_ok =
     (if nil then ([], True)
      else if \<not> rcv then ([udp_buffer_bytes], False)
      else ([udp_buffer_bytes, udp_buffer_bytes], snd_ok))"

section \<open>What the client leaves behind\<close>

text \<open>Actions that stay within the tunnel: no route, no resolver and no filter of the host is touched.\<close>

fun contained :: "os_action \<Rightarrow> bool" where
  "contained (DialData a) = True"
| "contained CloseControl = True"
| "contained OpenTun = True"
| "contained (Configure a) = True"
| "contained (HostRoute a g) = True"
| "contained ListenSlave = True"
| "contained (Hook s) = True"
| "contained _ = False"

lemma choose_keeps:
  "choose_handshake dial e = (r, e') \<Longrightarrow> c_full e' = c_full e \<and> c_secure e' = c_secure e \<and> c_tun e' = c_tun e \<and> c_cleanup e' = c_cleanup e"
  by (auto simp: choose_handshake_def split: if_splits option.splits sum.splits)

lemma hop_contained: "hop_to_data_port u r e = (x, e') \<Longrightarrow> list_all contained (snd x) \<and> OpenTun \<notin> set (snd x)
    \<and> c_full e' = c_full e \<and> c_secure e' = c_secure e \<and> c_tun e' = c_tun e \<and> c_cleanup e' = c_cleanup e"
  by (auto simp: hop_to_data_port_def Let_def split: if_splits)

lemma adapter_contained: "open_adapter u r e = (acts, e') \<Longrightarrow> (\<not> c_full e \<longrightarrow> \<not> c_secure e \<longrightarrow> list_all contained acts \<and> c_cleanup e' = c_cleanup e)
    \<and> (ue_ok u OpenTun \<longrightarrow> c_tun e')"
  by (auto simp: open_adapter_def Let_def split: if_splits)

lemma bring_up_contained:
  assumes "bring_up u r e = ((err, acts), e')"
  shows "(\<not> c_full e \<longrightarrow> \<not> c_secure e \<longrightarrow> list_all contained acts \<and> c_cleanup e' = c_cleanup e) \<and> (OpenTun \<in> set acts \<longrightarrow> ue_ok u OpenTun \<longrightarrow> c_tun e')"
proof -
  let ?e = "e\<lparr>c_master := Some (hr_master r), c_tr := hr_tr r, c_quic := (hr_carrier r = ''quic''), c_active := tr_name (hr_tr r)\<rparr>"
  obtain err1 hop e2 where h: "hop_to_data_port u r ?e = ((err1, hop), e2)"
    by (metis surj_pair)
  have c: "list_all contained hop" "OpenTun \<notin> set hop" "c_full e2 = c_full e" "c_secure e2 = c_secure e"
    "c_cleanup e2 = c_cleanup e"
    using hop_contained[OF h] by simp_all
  show ?thesis
    using assms c h
    by (auto simp: bring_up_def Let_def stats_reset_def split: if_splits option.splits prod.splits dest!: adapter_contained)
qed

lemma goroutine_contained:
  assumes "connect_goroutine u dial e = (acts, e')"
  shows "(\<not> c_full e \<longrightarrow> \<not> c_secure e \<longrightarrow> list_all contained acts \<and> c_cleanup e' = c_cleanup e) \<and> (OpenTun \<in> set acts \<longrightarrow> ue_ok u OpenTun \<longrightarrow> c_tun e')"
  using assms
  by (auto simp: connect_goroutine_def split: sum.splits prod.splits option.splits dest!: choose_keeps bring_up_contained)

lemma disconnect_result:
  assumes "disconnect e = (down, e')"
  shows "c_state e' = StateDisconnected" "c_master e' = None" "\<not> c_slave_open e'" "\<not> c_tun e'" "c_cleanup e' = None"
    and "c_tun e \<Longrightarrow> {RestoreDNS, UnlockDNS, UnblockIPv6, CloseTun} \<subseteq> set down"
  using assms by (auto simp: disconnect_def Let_def)

lemma disconnect_contained:
  assumes "disconnect e = (down, e')" and "c_cleanup e = None"
  shows "set down \<subseteq> {RestoreDNS, UnlockDNS, UnblockIPv6, CloseMaster, CloseSlave, CloseTun, Hook StateDisconnected}"
  using assms by (auto simp: disconnect_def Let_def split: if_splits)

lemma cli_route_contained: "cli_route fl e = Some acts \<Longrightarrow> list_all contained acts \<and> OpenTun \<notin> set acts"
  by (auto simp: cli_route_def add_host_route_def split: if_splits option.splits)

text \<open>A run is a Connect that is refused, or a tunnel brought up, used and taken down.\<close>

lemma cli_runs:
  assumes "cli_main v fl = (code, acts, e)"
  obtains "acts = []" and "e = new_engine \<or> e = cli_engine fl"
  | up e1 mid down where "acts = up @ mid @ down" and "disconnect e1 = (down, e)" and "list_all contained mid" and "OpenTun \<notin> set mid"
    and "\<not> c_full (cli_engine fl) \<longrightarrow> list_all contained up \<and> c_cleanup e1 = None"
    and "OpenTun \<in> set up \<longrightarrow> ue_ok (ce_up v) OpenTun \<longrightarrow> c_tun e1"
proof (cases "acts = [] \<and> (e = new_engine \<or> e = cli_engine fl)")
  case False
  obtain err e0 where c: "connect decode64 (cl_token fl) (cli_engine fl) = (err, e0)"
    by (cases "connect decode64 (cl_token fl) (cli_engine fl)")
  obtain up e1 where g: "(if ce_in_time v then connect_goroutine (ce_up v) (ce_dial v) e0 else ([], e0)) = (up, e1)"
    by (metis surj_pair)
  obtain down e2 where d: "disconnect e1 = (down, e2)" by (cases "disconnect e1")
  have err: "err = None"
    using assms c False by (cases err) (auto simp: cli_main_def connect_def split: if_splits option.splits)
  have e0: "c_full e0 = c_full (cli_engine fl)" "c_secure e0 \<longrightarrow> c_full e0" "c_cleanup e0 = None"
    using c err by (auto simp: connect_def cli_engine_def new_engine_def Let_def split: if_splits option.splits)
  have up: "\<not> c_full (cli_engine fl) \<longrightarrow> list_all contained up \<and> c_cleanup e1 = None"
    "OpenTun \<in> set up \<longrightarrow> ue_ok (ce_up v) OpenTun \<longrightarrow> c_tun e1"
    using g e0 goroutine_contained[of "ce_up v" "ce_dial v" e0 up e1] by (auto split: if_splits)
  obtain mid where "acts = up @ mid @ down" "e = e2" "list_all contained mid" "OpenTun \<notin> set mid"
    using assms c err g d False cli_route_contained[of fl e1]
    by (auto simp: cli_main_def split: if_splits option.splits prod.splits)
  then show thesis using up d that(2) by blast
qed (use that(1) in blast)

section \<open>Properties\<close>


definition sample_cli :: cli_env where
  "sample_cli = \<lparr>ce_dial = sample_dial, ce_up = sample_upenv, ce_in_time = True\<rparr>"

definition sample_cli_flags :: cli_flags where
  "sample_cli_flags = \<lparr>cl_master = ''198.51.100.1:7000'', cl_token = encode64 (replicate 16 7), cl_full = True,
     cl_route = [], cl_secure_dns = True, cl_transport = ''auto'', cl_version = False\<rparr>"

lemma sample_bring_up_opens:
  "\<exists>acts e'. bring_up sample_upenv r e = ((None, acts), e') \<and> OpenTun \<in> set acts \<and> Hook StateConnected \<in> set acts"
  by (auto simp: bring_up_def hop_to_data_port_def sample_upenv_def new_aead_def Let_def open_adapter_def
      split: prod.splits)

lemma encode64_nonempty: "bs \<noteq> [] \<Longrightarrow> encode64 bs \<noteq> []"
  by (cases bs rule: encode64.cases) auto

lemma sample_cli_run: "\<exists>acts e. cli_main sample_cli sample_cli_flags = (ExitOK, acts, e) \<and> OpenTun \<in> set acts"
proof -
  obtain e where c: "connect decode64 (cl_token sample_cli_flags) (cli_engine sample_cli_flags) = (None, e)"
      "c_transport e = ''auto''" "c_last_good e = []"
    by (auto simp: connect_def sample_cli_flags_def base64_inverse cli_engine_def new_engine_def)
  let ?r = "sample_result\<lparr>hr_carrier := ''webrtc''\<rparr>"
  have h: "choose_handshake sample_dial e = (Inr ?r, e\<lparr>c_last_good := ''webrtc''\<rparr>)"
    using c(2,3) by (simp add: choose_handshake_def auto_order_def auto_carrier_order_def sample_dial_def)
  obtain acts e' where b: "bring_up sample_upenv ?r (e\<lparr>c_last_good := ''webrtc''\<rparr>) = ((None, acts), e')"
      "OpenTun \<in> set acts" "Hook StateConnected \<in> set acts"
    using sample_bring_up_opens by blast
  have ne: "\<not> cl_version sample_cli_flags" "cl_master sample_cli_flags \<noteq> []" "cl_token sample_cli_flags \<noteq> []" "cl_route sample_cli_flags = []"
    using encode64_nonempty[of "replicate 16 7"] by (simp_all add: sample_cli_flags_def)
  have "connect_goroutine sample_upenv sample_dial e = (acts, e')"
    using h b(1) by (simp add: connect_goroutine_def)
  then show ?thesis
    using ne c(1) b(2,3) by (auto simp: cli_main_def sample_cli_def cli_route_def split: prod.splits)
qed


text \<open>The agent dies with its owner: with an owner to watch, the requests before the first poll that
  misses it are served as by the agent alone, then nothing more is; the engine is disconnected,
  the endpoint file is gone and the process has ended. Without an owner it never ends by itself.\<close>

fun requests :: "agent_event list \<Rightarrow> (bool \<times> request) list" where
  "requests [] = []"
| "requests (Request ok r # es) = (ok, r) # requests es"
| "requests (Poll x # es) = requests es"

lemma agent_life_runs:
  "agent_life d owner es p =
    (let alive = (if owner \<le> 0 then es else takeWhile (\<lambda>x. x \<noteq> Poll False) es);
         run = agent_run d (requests alive) (ap_agent p);
         q = p\<lparr>ap_agent := snd run\<rparr>
     in (fst run, if owner > 0 \<and> Poll False \<in> set es then on_gone q else q))"
  by (induction d owner es p rule: agent_life.induct) (auto simp: Let_def split: prod.splits)

theorem agent_dies_with_owner:
  "agent_life d owner es p =
    (let alive = (if owner \<le> 0 then es else takeWhile (\<lambda>x. x \<noteq> Poll False) es);
         run = agent_run d (requests alive) (ap_agent p);
         q = p\<lparr>ap_agent := snd run\<rparr>
     in (fst run, if owner > 0 \<and> Poll False \<in> set es then on_gone q else q))
   \<and> ap_exited (on_gone p) \<and> ap_file (on_gone p) = None
   \<and> c_state (ag_engine (ap_agent (on_gone p))) = StateDisconnected \<and> \<not> c_tun (ag_engine (ap_agent (on_gone p)))"
  using agent_life_runs[of d owner es p] disconnect_result[OF surjective_pairing, of "ag_engine (ap_agent p)"]
  by (simp add: on_gone_def)

text \<open>The endpoint file is the key to the agent: a started agent serves a request that bears the token of
  the file it wrote, and refuses or ignores every other request on a protected path.\<close>

lemma handlers_authorized:
  "fst (handle_status d r a) \<noteq> Unauthorized" "fst (handle_profiles d ok r a) \<noteq> Unauthorized"
  "fst (handle_prefs d ok r a) \<noteq> Unauthorized" "fst (handle_connect d r a) \<noteq> Unauthorized"
  "fst (handle_disconnect r a) \<noteq> Unauthorized"
  by (auto simp: handle_status_def handle_profiles_def handle_prefs_def handle_connect_def handle_disconnect_def Let_def
      split: option.splits prod.splits if_splits)

theorem endpoint_opens_agent:
  assumes "agent_main v fl old = Running a file" and "av_writes v"
  shows "\<exists>f. file = Some f \<and> ef_pid f = av_pid v
    \<and> (rq_auth r = ''Bearer '' @ ef_token f \<longrightarrow> fst (agent_serve d ok r a) \<noteq> Unauthorized)
    \<and> (rq_auth r \<noteq> ''Bearer '' @ ef_token f \<longrightarrow> snd (agent_serve d ok r a) = a
        \<and> (rq_path r \<in> {''/api/status'', ''/api/profiles'', ''/api/uiprefs'', ''/api/connect'', ''/api/disconnect''}
            \<longrightarrow> fst (agent_serve d ok r a) = Unauthorized))"
  using assms handlers_authorized
  by (auto simp: agent_main_def write_endpoint_def agent_serve_def agent_auth_def Let_def split: if_splits option.splits)

definition sample_agent_env :: agent_env where
  "sample_agent_env = \<lparr>av_windows = True, av_admin = True, av_config = None, av_rnd = Some (replicate 24 7), av_listens = True,
     av_url = ''http://127.0.0.1:5000'', av_pid = 42, av_writes = True\<rparr>"

theorem endpoint_opens_agent_witness:
  "\<exists>a f. agent_main sample_agent_env \<lparr>af_owner = 7, af_version = False\<rparr> None = Running a (Some f)
     \<and> (\<forall>d ok. fst (agent_serve d ok \<lparr>rq_method = ''GET'', rq_path = ''/api/status'', rq_auth = ''x'', rq_body = []\<rparr> a) = Unauthorized)"
proof -
  obtain a fo where r: "agent_main sample_agent_env \<lparr>af_owner = 7, af_version = False\<rparr> None = Running a fo"
    by (simp add: agent_main_def sample_agent_env_def agent_start_def)
  have w: "av_writes sample_agent_env" by (simp add: sample_agent_env_def)
  show ?thesis
    using endpoint_opens_agent[OF r w, of "\<lparr>rq_method = ''GET'', rq_path = ''/api/status'', rq_auth = ''x'', rq_body = []\<rparr>"] r
    by auto
qed

text \<open>The bridge lists the carriers the core can build: a name is known exactly when it is empty or one
  of the comma-separated names.\<close>

theorem bridge_lists_carriers:
  "carrier_known n \<longleftrightarrow> n = [] \<or> n \<in> set (split_on CHR '','' mobile_carriers)"
proof -
  have "split_on CHR '','' mobile_carriers = [''cs2'', ''utp'', ''webrtc'', ''quic'']"
    by (simp add: mobile_carriers_def)
  then show ?thesis by (simp add: carrier_known_def by_name_def)
qed

end
