(* ===== verification/Netstack.thy ===== *)
theory Netstack
  imports Dns Protocol
begin

text \<open>
  The master's side of the userspace network stack, \<open>master/netstack\<close>: the egress filter and what
  is done with each TCP and UDP flow a client opens, with the in-tunnel DNS service. The stack
  itself (gVisor) is not modelled: whether it makes an endpoint and whether a dial succeeds are
  arguments, the actions taken are the result.
\<close>

section \<open>Address classes of package net\<close>

definition ip_is_loopback :: "ip \<Rightarrow> bool" where
  "ip_is_loopback a = (case to4 a of
     Some b \<Rightarrow> b ! 0 = 127 | None \<Rightarrow> ip_equal a (replicate 15 0 @ [1]))"

definition ip_is_multicast :: "ip \<Rightarrow> bool" where
  "ip_is_multicast a = (case to4 a of
     Some b \<Rightarrow> b ! 0 AND 0xF0 = 0xE0 | None \<Rightarrow> length a = 16 \<and> a ! 0 = 0xFF)"

definition ip_is_link_local :: "ip \<Rightarrow> bool" where
  "ip_is_link_local a = (case to4 a of
     Some b \<Rightarrow> b ! 0 = 169 \<and> b ! 1 = 254
   | None \<Rightarrow> length a = 16 \<and> a ! 0 = 0xFE \<and> a ! 1 AND 0xC0 = 0x80)"

definition ip_is_link_local_multicast :: "ip \<Rightarrow> bool" where
  "ip_is_link_local_multicast a = (case to4 a of
     Some b \<Rightarrow> b ! 0 = 224 \<and> b ! 1 = 0 \<and> b ! 2 = 0
   | None \<Rightarrow> length a = 16 \<and> a ! 0 = 0xFF \<and> a ! 1 AND 0x0F = 2)"

definition ip_is_private :: "ip \<Rightarrow> bool" where
  "ip_is_private a = (case to4 a of
     Some b \<Rightarrow> b ! 0 = 10 \<or> b ! 0 = 172 \<and> b ! 1 AND 0xF0 = 16 \<or> b ! 0 = 192 \<and> b ! 1 = 168
   | None \<Rightarrow> length a = 16 \<and> a ! 0 AND 0xFE = 0xFC)"

section \<open>The egress filter\<close>

definition egress_forbidden :: "ip \<Rightarrow> bool" where
  "egress_forbidden a =
     (if a = [] then True
      else if ip_is_loopback a \<or> is_unspecified a \<or> ip_is_multicast a then True
      else if ip_is_link_local a \<or> ip_is_link_local_multicast a then True
      else if ip_is_private a then True
      else False)"

section \<open>Flows\<close>

datatype ns_action = SendReset | DialTCP string | DialUDP string | AcceptTCP | CloseUpstream | CloseClient
  | RelayTCP string | RelayUDP string | ServeDNS

definition handle_tcp :: "ip \<Rightarrow> u16 \<Rightarrow> bool \<Rightarrow> bool \<Rightarrow> ns_action list" where
  "handle_tcp dst_ip port dial_ok endpoint_ok =
     (if egress_forbidden dst_ip then [SendReset]
      else let dst = join_host_port (ip_string dst_ip) (dec (unat port)) in
        if \<not> dial_ok then [DialTCP dst, SendReset]
        else if \<not> endpoint_ok then [DialTCP dst, CloseUpstream, SendReset]
        else [DialTCP dst, AcceptTCP, RelayTCP dst])"

definition handle_udp :: "string option \<Rightarrow> ip \<Rightarrow> u16 \<Rightarrow> bool \<Rightarrow> bool \<Rightarrow> ns_action list" where
  "handle_udp dns_addr dst_ip port endpoint_ok dial_ok =
     (let dst = join_host_port (ip_string dst_ip) (dec (unat port)) in
      if \<not> endpoint_ok then []
      else if port = 53 \<and> dns_addr = Some (ip_string dst_ip) then [ServeDNS]
      else if egress_forbidden dst_ip then [CloseClient]
      else if \<not> dial_ok then [DialUDP dst, CloseClient]
      else [DialUDP dst, RelayUDP dst])"

text \<open>A packet of a client entering the stack; the empty packet is an index out of range.\<close>

datatype injected = AsIPv4 bytes | AsIPv6 bytes | Dropped

definition inject_client :: "bytes \<Rightarrow> injected option" where
  "inject_client pkt =
     (if pkt = [] then None
      else Some (let v = drop_bit 4 (pkt ! 0) in
        if v = 4 then AsIPv4 pkt else if v = 6 then AsIPv6 pkt else Dropped))"

section \<open>The DNS service\<close>

text \<open>
  The datagrams of one flow, each truncated to the buffer and answered, or dropped on an error. The
  code answers each in a goroutine of its own: the list is the order in which they are answered.
\<close>

fun serve_dns ::
    "(bytes \<Rightarrow> bytes) \<Rightarrow> (upstream \<times> time \<times> bytes) list \<Rightarrow> resolver \<Rightarrow> bytes list \<times> resolver" where
  "serve_dns u [] r = ([], r)"
| "serve_dns u ((up, now, dgram) # ds) r =
     (case dns_query u up now (take 4096 dgram) r of
        (res, r1) \<Rightarrow>
          (case serve_dns u ds r1 of
             (outs, r2) \<Rightarrow> ((case res of Inl _ \<Rightarrow> outs | Inr a \<Rightarrow> a # outs), r2)))"

section \<open>What leaves the master\<close>

text \<open>The IPv4 destinations that are refused, by their bytes.\<close>

lemma egress_forbidden_v4:
  assumes "to4 a = Some b"
  shows "egress_forbidden a \<longleftrightarrow> unat (b ! 0) = 127 \<or> b = [0, 0, 0, 0]
    \<or> 224 \<le> unat (b ! 0) \<and> unat (b ! 0) \<le> 239 \<or> unat (b ! 0) = 169 \<and> unat (b ! 1) = 254
    \<or> unat (b ! 0) = 10 \<or> unat (b ! 0) = 172 \<and> 16 \<le> unat (b ! 1) \<and> unat (b ! 1) \<le> 31
    \<or> unat (b ! 0) = 192 \<and> unat (b ! 1) = 168"
proof -
  have eq: "w = of_nat n \<longleftrightarrow> unat w = n" if "n < 256" for w :: byte and n
    using that unat_byte_less[of w] by (auto simp: unat_of_nat)
  have num: "b ! 0 = 127 \<longleftrightarrow> unat (b ! 0) = 127" "b ! 0 = 169 \<longleftrightarrow> unat (b ! 0) = 169"
    "b ! 1 = 254 \<longleftrightarrow> unat (b ! 1) = 254" "b ! 0 = 10 \<longleftrightarrow> unat (b ! 0) = 10"
    "b ! 0 = 172 \<longleftrightarrow> unat (b ! 0) = 172" "b ! 0 = 192 \<longleftrightarrow> unat (b ! 0) = 192" "b ! 1 = 168 \<longleftrightarrow> unat (b ! 1) = 168"
    "b ! 0 = 224 \<longleftrightarrow> unat (b ! 0) = 224"
    using eq[of 127 "b ! 0"] eq[of 169 "b ! 0"] eq[of 254 "b ! 1"] eq[of 10 "b ! 0"] eq[of 172 "b ! 0"]
      eq[of 192 "b ! 0"] eq[of 168 "b ! 1"] eq[of 224 "b ! 0"] by simp_all
  have m: "b ! 0 AND 0xF0 = 0xE0 \<longleftrightarrow> 224 \<le> unat (b ! 0) \<and> unat (b ! 0) \<le> 239"
    "b ! 1 AND 0xF0 = 16 \<longleftrightarrow> 16 \<le> unat (b ! 1) \<and> unat (b ! 1) \<le> 31"
    unfolding nibble by (simp_all, presburger+)
  have r16: "replicate 16 (0 :: byte) = [0, 0, 0, 0, 0, 0, 0, 0, 0, 0, 0, 0, 0, 0, 0, 0]"
    by (simp add: numeral_eq_Suc)
  have u: "is_unspecified a \<longleftrightarrow> b = [0, 0, 0, 0]"
  proof (cases "length a = 4")
    case True
    with assms show ?thesis
      by (auto simp: is_unspecified_def ip_equal_def v4_prefix_def numeral_eq_Suc)
  next
    case False
    with assms have "a = v4_prefix @ b"
      by (auto simp: to4_def append_take_drop_id split: if_splits) (metis append_take_drop_id)
    then show ?thesis
      using to4_length[OF assms] by (simp add: is_unspecified_def ip_equal_def v4_prefix_def r16)
  qed
  have "a \<noteq> []"
    using assms by (auto simp: to4_def split: if_splits)
  then show ?thesis
    using assms
    by (auto simp: egress_forbidden_def ip_is_loopback_def ip_is_multicast_def ip_is_link_local_def
        ip_is_link_local_multicast_def ip_is_private_def u m num simp del: One_nat_def)
qed

section \<open>Properties\<close>

text \<open>The egress filter, exactly: of the IPv4 destinations, in 4 or in 16 bytes, it refuses those in
  127/8, 10/8, 172.16/12, 192.168/16, 169.254/16 and 224/4 and the address 0.0.0.0, and no other;
  the shared address space 100.64/10, the rest of 0/8 and 240/4 with the broadcast address pass.\<close>

theorem egress_filter_exact:
  assumes "to4 a = Some b"
  shows "egress_forbidden a \<longleftrightarrow> unat (b ! 0) = 127 \<or> b = [0, 0, 0, 0]
    \<or> 224 \<le> unat (b ! 0) \<and> unat (b ! 0) \<le> 239 \<or> unat (b ! 0) = 169 \<and> unat (b ! 1) = 254
    \<or> unat (b ! 0) = 10 \<or> unat (b ! 0) = 172 \<and> 16 \<le> unat (b ! 1) \<and> unat (b ! 1) \<le> 31
    \<or> unat (b ! 0) = 192 \<and> unat (b ! 1) = 168"
  by (rule egress_forbidden_v4[OF assms])

theorem egress_filter_exact_witness:
  "egress_forbidden [169, 254, 169, 254] \<and> \<not> egress_forbidden [100, 64, 0, 1]
   \<and> \<not> egress_forbidden [255, 255, 255, 255]"
  using egress_filter_exact[of "[169, 254, 169, 254]" "[169, 254, 169, 254]"]
    egress_filter_exact[of "[100, 64, 0, 1]" "[100, 64, 0, 1]"]
    egress_filter_exact[of "[255, 255, 255, 255]" "[255, 255, 255, 255]"]
  by simp

text \<open>No forbidden destination is dialled: for a flow to a refused address the master resets the TCP
  connection, closes the UDP flow, or, on port 53 of the tunnel gateway, serves DNS itself; and
  whatever is dialled or relayed is the address and port of the flow.\<close>

theorem forbidden_flows_end_here:
  assumes "act \<in> set (handle_tcp dst port dial ep) \<union> set (handle_udp dns dst port ep dial)"
    and "\<exists>h. act = DialTCP h \<or> act = DialUDP h \<or> act = RelayTCP h \<or> act = RelayUDP h"
  shows "\<not> egress_forbidden dst
    \<and> act \<in> (\<lambda>f. f (join_host_port (ip_string dst) (dec (unat port)))) ` {DialTCP, DialUDP, RelayTCP, RelayUDP}"
  using assms by (auto simp: handle_tcp_def handle_udp_def Let_def split: if_splits)

theorem forbidden_flows_end_here_witness:
  "\<not> egress_forbidden [198, 51, 100, 7]"
  using forbidden_flows_end_here[of "DialTCP (join_host_port (ip_string [198, 51, 100, 7]) (dec 443))"
      "[198, 51, 100, 7]" 443 True True None]
  by (simp add: handle_tcp_def Let_def egress_forbidden_v4[of "[198, 51, 100, 7]" "[198, 51, 100, 7]"])

end
