(* ===== verification/PathTest.thy ===== *)
theory PathTest
  imports Netstack Master Client Config
begin

text \<open>
  The data-path test, \<open>tools/datapathtest\<close>: a one-shot client that shakes hands with a master, punches
  the slave, sends one DNS query through the tunnel and waits for the answer, or measures the time
  to each slave. The packets it builds and parses are modelled to the byte; sockets, the clock and
  the randomness are arguments. Indexing that could be out of range is an option.
\<close>

section \<open>The Internet checksum\<close>

fun sum16 :: "bytes \<Rightarrow> u32 \<Rightarrow> u32" where
  "sum16 (a # b # r) s = sum16 r (s + (push_bit 8 (ucast a) OR ucast b))"
| "sum16 _ s = s"

lemma unat_halves:
  fixes s :: u32
  shows "unat (s AND 0xFFFF) = unat s mod 65536" "unat (drop_bit 16 s) = unat s div 65536"
proof -
  have "s AND 0xFFFF = take_bit 16 s" by (simp add: take_bit_eq_mask mask_eq_exp_minus_1)
  then show "unat (s AND 0xFFFF) = unat s mod 65536"
    by (simp only: unsigned_take_bit_eq) (simp add: take_bit_eq_mod)
  show "unat (drop_bit 16 s) = unat s div 65536"
    unfolding unat_drop_bit_eq by (simp add: drop_bit_eq_div)
qed

lemma unat_folded: "unat (((s :: u32) AND 0xFFFF) + drop_bit 16 s) = unat s mod 65536 + unat s div 65536"
proof -
  have "unat s mod 65536 + unat s div 65536 \<le> unat s"
    using div_mult_mod_eq[of "unat s" 65536] by linarith
  then have "unat s mod 65536 + unat s div 65536 < 2 ^ 32"
    using unat32_less[of s] by (rule le_less_trans)
  then show ?thesis
    by (simp add: unat_word_ariths unat_halves)
qed

lemma folded_less: "drop_bit 16 (s :: u32) \<noteq> 0 \<Longrightarrow> unat s mod 65536 + unat s div 65536 < unat s"
proof -
  assume "drop_bit 16 s \<noteq> 0"
  then have "unat (drop_bit 16 s) \<noteq> 0" by (simp add: unsigned_eq_0_iff)
  then have "0 < unat s div 65536" by (simp add: unat_halves)
  moreover have "unat s = 65536 * (unat s div 65536) + unat s mod 65536" by simp
  ultimately show ?thesis by linarith
qed

function fold_carry :: "u32 \<Rightarrow> u32" where
  "fold_carry s = (if drop_bit 16 s \<noteq> 0 then fold_carry ((s AND 0xFFFF) + drop_bit 16 s) else s)"
  by pat_completeness auto
termination by (relation "measure unat") (simp_all add: unat_folded folded_less)

declare fold_carry.simps [simp del]

definition ipck :: "bytes \<Rightarrow> u16" where
  "ipck b = NOT (ucast (fold_carry (sum16 b 0)))"

section \<open>Packets\<close>

definition build_udp_ip :: "ip \<Rightarrow> ip \<Rightarrow> u16 \<Rightarrow> u16 \<Rightarrow> bytes \<Rightarrow> bytes" where
  "build_udp_ip src dst sport dport payload =
     (let total = 28 + length payload;
          head = (\<lambda>ck. [0x45, 0] @ put16 (of_nat total) @ [0, 0, 0, 0, 64, 17] @ ck @ put_ip4 src @ put_ip4 dst)
      in head (put16 (ipck (head [0, 0]))) @ put16 sport @ put16 dport @ put16 (of_nat (8 + length payload)) @ [0, 0] @ payload)"

text \<open>
  The runes of a name as Go converts them back to strings; \<open>u\<close> is what that gives for a name with a
  byte outside ASCII. Labels are emitted with their length in one byte.
\<close>

definition rune_strings :: "(bytes \<Rightarrow> bytes list) \<Rightarrow> bytes \<Rightarrow> bytes list" where
  "rune_strings u name = (if list_all (\<lambda>b. b < 128) name then map (\<lambda>b. [b]) name else u name)"

definition emit_label :: "bytes \<Rightarrow> bytes" where
  "emit_label s = of_nat (length s) # s"

fun emit_labels :: "bytes list \<Rightarrow> bytes \<Rightarrow> bytes" where
  "emit_labels [] cur = (if cur \<noteq> [] then emit_label cur else [])"
| "emit_labels (c # cs) cur =
     (if c = [0x2E] then emit_label cur @ emit_labels cs [] else emit_labels cs (cur @ c))"

definition query_header :: bytes where
  "query_header = put16 0x1234 @ put16 0x0100 @ put16 1 @ [0, 0, 0, 0, 0, 0]"

definition build_dns_query :: "(bytes \<Rightarrow> bytes list) \<Rightarrow> bytes \<Rightarrow> bytes" where
  "build_dns_query u name = query_header @ emit_labels (rune_strings u name) [] @ [0, 0, 1, 0, 1]"

section \<open>Reading the answer\<close>

text \<open>\<open>b[i]\<close> and the first two bytes of \<open>b[i:]\<close>, \<open>None\<close> when out of range.\<close>

definition byte_at :: "bytes \<Rightarrow> nat \<Rightarrow> byte option" where
  "byte_at b i = (if i < length b then Some (b ! i) else None)"

definition u16_at :: "bytes \<Rightarrow> nat \<Rightarrow> u16 option" where
  "u16_at b i = (if i + 2 \<le> length b then Some (get16 (slice i (i + 2) b)) else None)"

function skip_labels :: "bytes \<Rightarrow> nat \<Rightarrow> nat" where
  "skip_labels dns p = (if p < length dns \<and> dns ! p \<noteq> 0 then skip_labels dns (p + unat (dns ! p) + 1) else p)"
  by pat_completeness auto
termination by (relation "measure (\<lambda>(dns, p). length dns - p)") auto

declare skip_labels.simps [simp del]

primrec answer_loop :: "bytes \<Rightarrow> nat \<Rightarrow> nat \<Rightarrow> string option" where
  "answer_loop dns 0 p = Some []"
| "answer_loop dns (Suc n) p =
     (if p + 12 > length dns then Some []
      else case byte_at dns p of
        None \<Rightarrow> None
      | Some b \<Rightarrow>
          (let p1 = (if b AND 0xC0 = 0xC0 then p + 2 else skip_labels dns p + 1) in
           if p1 + 10 > length dns then Some []
           else case (u16_at dns p1, u16_at dns (p1 + 8)) of
             (Some typ, Some rd) \<Rightarrow>
               (let rdlen = unat rd; p2 = p1 + 10 in
                if typ = 1 \<and> rdlen = 4 \<and> p2 + 4 \<le> length dns then Some (ip_string (slice p2 (p2 + 4) dns))
                else answer_loop dns n (p2 + rdlen))
           | _ \<Rightarrow> None))"

definition parse_dns_answer :: "bytes \<Rightarrow> string option" where
  "parse_dns_answer pkt =
     (if length pkt < 20 then Some []
      else case byte_at pkt 0 of
        None \<Rightarrow> None
      | Some b \<Rightarrow>
          (let ihl = unat (b AND 0x0F) * 4 in
           if length pkt < ihl + 8 then Some []
           else let dns = drop (ihl + 8) pkt in
             if length dns < 12 then Some []
             else let an = get16 (slice 6 8 dns) in
               if an = 0 then Some []
               else answer_loop dns (unat an) (skip_labels dns 12 + 5)))"

section \<open>The run\<close>

record test_flags =
  tf_master :: string
  tf_token :: string
  tf_dns :: string
  tf_name :: bytes
  tf_transport :: string
  tf_hop :: bool
  tf_probe :: bool

text \<open>
  What a run meets: the carrier's seed, clock and randomness of its \<open>k\<close>-th frame, the resolution of the
  master, whether sockets open, the reply to the hello, the prefixes of the two ciphers, for each
  slave the send time of its five pings with the datagrams read until the deadline and the clock
  of each, and the datagrams of the downlink before the deadline.
\<close>

type_synonym ping_reads = "u64 \<times> (bytes \<times> u64) list"

record test_env =
  te_seed :: bytes
  te_wrap :: "nat \<Rightarrow> wenv"
  te_resolve :: "string \<Rightarrow> udpaddr option"
  te_listen :: bool
  te_unix :: u64
  te_nonce :: "bytes option"
  te_reply :: "bytes option"
  te_rnd1 :: "bytes option"
  te_rnd2 :: "bytes option"
  te_pings :: "udpaddr \<Rightarrow> ping_reads list"
  te_dial :: bool
  te_runes :: "bytes \<Rightarrow> bytes list"
  te_downlink :: "bytes list"

text \<open>How a run ends; \<open>Crashed\<close> is a Go panic, the strings are the contexts of \<open>must\<close>.\<close>

datatype verdict = BadTransportFlag | Fatal string | Crashed | Rtts "(ip \<times> int) list"
  | NoDownlink | AnswerOk string | DownlinkOnly nat

type_synonym sender = "nat \<times> transport"

definition send_raw :: "test_env \<Rightarrow> byte \<Rightarrow> bytes \<Rightarrow> sender \<Rightarrow> bytes \<times> sender" where
  "send_raw v t p s = (case tr_wrap (te_wrap v (fst s)) (snd s) t p of (f, tr) \<Rightarrow> (f, (fst s + 1, tr)))"

section \<open>Probing\<close>

text \<open>The first pong of the reads of one ping, and the time it gives.\<close>

fun read_pong :: "transport \<Rightarrow> (bytes \<times> u64) list \<Rightarrow> int option" where
  "read_pong tr [] = None"
| "read_pong tr ((d, now) # ds) =
     (case tr_unwrap tr (take 2048 d) of
        None \<Rightarrow> read_pong tr ds
      | Some (t, p) \<Rightarrow>
          if t \<noteq> PktTypePong \<or> length p < 12 then read_pong tr ds
          else Some (quot (sint (now - get64 (slice 4 12 p))) 1000000))"

definition best_of :: "int option \<Rightarrow> int \<Rightarrow> int" where
  "best_of r best = (case r of None \<Rightarrow> best | Some x \<Rightarrow> if 0 \<le> x \<and> (best < 0 \<or> x < best) then x else best)"

fun ping_rounds :: "test_env \<Rightarrow> ip \<Rightarrow> ping_reads list \<Rightarrow> sender \<Rightarrow> int \<Rightarrow> bytes list \<times> sender \<times> int" where
  "ping_rounds v tun [] s best = ([], s, best)"
| "ping_rounds v tun ((sent, reads) # rs) s best =
     (case send_raw v PktTypePing (put_ip4 tun @ put64 sent) s of (f, s1) \<Rightarrow>
        (case ping_rounds v tun rs s1 (best_of (read_pong (snd s1) reads) best) of
           (out, x) \<Rightarrow> (f # out, x)))"

definition probe_slave :: "test_env \<Rightarrow> ip \<Rightarrow> udpaddr \<Rightarrow> sender \<Rightarrow> bytes list \<times> sender \<times> int" where
  "probe_slave v tun a s =
     (case send_raw v PktTypePunch (four_bytes tun) s of (pn, s1) \<Rightarrow>
        (case ping_rounds v tun (take 5 (te_pings v a)) s1 (- 1) of
           (out, x) \<Rightarrow> (replicate 4 pn @ out, x)))"

fun probe_all :: "test_env \<Rightarrow> ip \<Rightarrow> udpaddr list \<Rightarrow> sender \<Rightarrow> (udpaddr \<times> bytes) list \<times> (ip \<times> int) list" where
  "probe_all v tun [] s = ([], [])"
| "probe_all v tun (a # as) s =
     (case probe_slave v tun a s of (out, s1, rtt) \<Rightarrow>
        (case probe_all v tun as s1 of (outs, rtts) \<Rightarrow> (map (Pair a) out @ outs, (uip a, rtt) # rtts)))"

definition candidates :: "welcome_msg \<Rightarrow> udpaddr list" where
  "candidates w =
     (if length (w_slaves w) > 0 then map endpoint_addr (w_slaves w)
      else [\<lparr>uip = w_slave_ip w, uport = unat (w_slave_port w)\<rparr>])"

section \<open>The query and its answer\<close>

text \<open>\<open>Open\<close> on a cipher whose creation may have failed: the nil pointer crashes past the length check.\<close>

definition open_rx :: "cipher \<Rightarrow> aead option \<Rightarrow> bytes \<Rightarrow> (cerr + bytes) option" where
  "open_rx C rx d =
     (case rx of
        Some a \<Rightarrow> Some (aead_open C a d)
      | None \<Rightarrow> if length d < 28 then Some (Inl ErrDecrypt) else None)"

fun read_answer :: "cipher \<Rightarrow> aead option \<Rightarrow> transport \<Rightarrow> bytes list \<Rightarrow> verdict" where
  "read_answer C rx tr [] = NoDownlink"
| "read_answer C rx tr (d # ds) =
     (case tr_unwrap tr (take 65535 d) of
        None \<Rightarrow> read_answer C rx tr ds
      | Some (_, p) \<Rightarrow>
          (case open_rx C rx p of
             None \<Rightarrow> Crashed
           | Some (Inl _) \<Rightarrow> read_answer C rx tr ds
           | Some (Inr plain) \<Rightarrow>
               (case parse_dns_answer plain of
                  None \<Rightarrow> Crashed
                | Some a \<Rightarrow> if a \<noteq> [] then AnswerOk a else DownlinkOnly (length plain))))"

definition query_packet :: "test_env \<Rightarrow> test_flags \<Rightarrow> ip \<Rightarrow> bytes" where
  "query_packet v fl tun =
     build_udp_ip tun (case parse_ip (tf_dns fl) of None \<Rightarrow> [] | Some a \<Rightarrow> a) 40000 53
       (build_dns_query (te_runes v) (tf_name fl))"

definition data_addr :: "test_flags \<Rightarrow> udpaddr \<Rightarrow> welcome_msg \<Rightarrow> udpaddr" where
  "data_addr fl m w =
     (if tf_transport fl = ''quic'' then \<lparr>uip = w_slave_ip w, uport = unat (w_slave_port w)\<rparr>
      else if w_data_port w \<noteq> 0 then \<lparr>uip = uip m, uport = unat (w_data_port w)\<rparr>
      else m)"

definition send_query ::
    "cipher \<Rightarrow> test_env \<Rightarrow> test_flags \<Rightarrow> udpaddr \<Rightarrow> welcome_msg \<Rightarrow> aead \<Rightarrow> aead option \<Rightarrow> sender
      \<Rightarrow> (udpaddr \<times> bytes) list \<times> verdict" where
  "send_query C v fl m w tx rx s =
     (case fst (aead_seal C tx (query_packet v fl (w_assigned w))) of
        Inl _ \<Rightarrow> ([], Fatal ''seal'')
      | Inr ct \<Rightarrow>
          if tf_hop fl \<and> w_data_port w \<noteq> 0 \<and> tf_transport fl \<noteq> ''quic'' \<and> \<not> te_dial v
          then ([], Fatal ''dial data port'')
          else case send_raw v PktTypeData ct s of (f, s1) \<Rightarrow>
            ([(data_addr fl m w, f)], read_answer C rx (snd s1) (te_downlink v)))"

text \<open>After the welcome: the ciphers, the punch, then the probe or the query.\<close>

definition after_welcome ::
    "cipher \<Rightarrow> test_env \<Rightarrow> test_flags \<Rightarrow> bytes \<Rightarrow> udpaddr \<Rightarrow> welcome_msg \<Rightarrow> sender
      \<Rightarrow> (udpaddr \<times> bytes) list \<times> verdict" where
  "after_welcome C v fl tok m w s =
     (let key = session_key tok (w_assigned w);
          slave = \<lparr>uip = w_slave_ip w, uport = unat (w_slave_port w)\<rparr>
      in case send_raw v PktTypePunch (four_bytes (w_assigned w)) s of (pn, s1) \<Rightarrow>
        if tf_probe fl then
          (case probe_all v (w_assigned w) (candidates w) s1 of (out, rtts) \<Rightarrow> ((slave, pn) # out, Rtts rtts))
        else case new_aead key (te_rnd1 v) of
          None \<Rightarrow> ([(slave, pn)], Crashed)
        | Some tx \<Rightarrow>
            (case send_query C v fl m w tx (new_aead key (te_rnd2 v)) s1 of (out, x) \<Rightarrow> ((slave, pn) # out, x)))"

definition path_test :: "cipher \<Rightarrow> test_env \<Rightarrow> test_flags \<Rightarrow> (udpaddr \<times> bytes) list \<times> verdict" where
  "path_test C v fl =
     (case by_name (te_seed v) (tf_transport fl) of
        None \<Rightarrow> ([], BadTransportFlag)
      | Some tr \<Rightarrow>
          (case decode64 (tf_token fl) of
             None \<Rightarrow> ([], Fatal ''decode token'')
           | Some tok \<Rightarrow>
               (case te_resolve v (tf_master fl) of
                  None \<Rightarrow> ([], Fatal ''resolve master'')
                | Some m \<Rightarrow>
                    if \<not> te_listen v then ([], Fatal ''listen'')
                    else (case te_nonce v of
                       None \<Rightarrow> ([], Fatal ''nonce'')
                     | Some nonce \<Rightarrow>
                         (case send_raw v PktTypeHandshake (hello_marshal (signed_hello tok (te_unix v) nonce)) (0, tr) of
                            (f, s) \<Rightarrow>
                              (case te_reply v of
                                 None \<Rightarrow> ([(m, f)], Fatal ''welcome'')
                               | Some buf \<Rightarrow>
                                   (case tr_unwrap (snd s) (take 65535 buf) of
                                      None \<Rightarrow> ([(m, f)], Fatal ''unwrap welcome'')
                                    | Some (_, p) \<Rightarrow>
                                        (case parse_welcome p of
                                           Inl _ \<Rightarrow> ([(m, f)], Fatal ''parse welcome'')
                                         | Inr w \<Rightarrow>
                                             (case after_welcome C v fl tok m w s of
                                                (out, x) \<Rightarrow> ((m, f) # out, x))))))))))"

section \<open>The checksum is right\<close>

lemma unat_word16: "unat (push_bit 8 (ucast (a :: byte)) OR ucast (b :: byte) :: u32) = 256 * unat a + unat b"
proof -
  have "push_bit 8 (ucast a) OR ucast b = (push_bit 8 (ucast a) + ucast b :: u32)"
    by (rule disjunctive_add [symmetric]) (auto simp: bit_simps dest: bit_imp_le_length)
  moreover have "unat (push_bit 8 (ucast a) + ucast b :: u32) = 256 * unat a + unat b"
    using unat_byte_less[of a] unat_byte_less[of b]
    by (simp add: push_bit_eq_mult unat_word_ariths unsigned_ucast_eq take_bit_nat_eq_self)
  ultimately show ?thesis by simp
qed

lemma unat_sum16: "unat s + sum_list (groups b) < 2 ^ 32 \<Longrightarrow> unat (sum16 b s) = unat s + sum_list (groups b)"
proof (induction b s rule: sum16.induct)
  case (1 x y r s)
  let ?w = "push_bit 8 (ucast x) OR ucast y :: u32"
  have w: "unat ?w = 256 * unat x + unat y" by (rule unat_word16)
  have "unat s + unat ?w < 2 ^ 32" using "1.prems" w by simp
  then have "unat (s + ?w) = unat s + (256 * unat x + unat y)" using w by (simp add: unat_word_ariths)
  then show ?case using 1 by simp
qed simp_all

lemma fold_carry_unat:
  "unat (fold_carry s) < 65536 \<and> unat (fold_carry s) mod 65535 = unat s mod 65535 \<and> (unat (fold_carry s) = 0 \<longleftrightarrow> unat s = 0)"
proof (induction s rule: fold_carry.induct)
  case (1 s)
  show ?case
  proof (cases "drop_bit 16 s = 0")
    case True
    then have "unat s div 65536 = 0" using unat_halves(2)[of s] by simp
    then have "unat s < 65536" by (simp add: div_eq_0_iff)
    moreover have "fold_carry s = s" using True by (subst fold_carry.simps) simp
    ultimately show ?thesis by simp
  next
    case False
    have s: "unat s = (unat s mod 65536 + unat s div 65536) + 65535 * (unat s div 65536)" by simp
    have "(unat s mod 65536 + unat s div 65536) mod 65535 = unat s mod 65535"
      using arg_cong[OF s, of "\<lambda>n. n mod 65535"] by (simp only: mod_mult_self2)
    moreover have "unat s mod 65536 + unat s div 65536 = 0 \<longleftrightarrow> unat s = 0" using s by linarith
    moreover have "fold_carry s = fold_carry ((s AND 0xFFFF) + drop_bit 16 s)"
      using False by (subst fold_carry.simps) simp
    ultimately show ?thesis
      using 1[OF False] unat_folded[of s] by simp
  qed
qed

lemma unat_NOT16: "unat (NOT w) = 65535 - unat (w :: u16)"
proof -
  have "NOT w = - 1 - w" by (simp add: not_eq_complement)
  moreover have "unat (- 1 :: u16) = 65535" by (simp add: unsigned_minus_1_eq_mask mask_eq_exp_minus_1)
  moreover have "w \<le> - 1" by simp
  ultimately show ?thesis by (simp only: unat_sub)
qed

lemma unat_ipck:
  assumes "sum_list (groups b) < 2 ^ 32"
  obtains r where "unat (ipck b) = 65535 - r" and "r < 65536" and "r mod 65535 = sum_list (groups b) mod 65535"
    and "r = 0 \<longleftrightarrow> sum_list (groups b) = 0"
proof -
  let ?r = "unat (fold_carry (sum16 b 0))"
  have f: "?r < 65536" "?r mod 65535 = sum_list (groups b) mod 65535" "?r = 0 \<longleftrightarrow> sum_list (groups b) = 0"
    using fold_carry_unat[of "sum16 b 0"] unat_sum16[of 0 b] assms by simp_all
  have u: "unat (ucast (fold_carry (sum16 b 0)) :: u16) = ?r"
    using f(1) by (simp add: unsigned_ucast_eq take_bit_nat_eq_self)
  have "unat (ipck b) = 65535 - ?r"
    unfolding ipck_def unat_NOT16 using u by simp
  then show thesis using f by (rule that)
qed

lemma groups_append: "even (length xs) \<Longrightarrow> groups (xs @ ys) = groups xs @ groups ys"
  by (induction xs rule: groups.induct) auto

lemma groups_put16: "groups (put16 w) = [unat w]"
proof -
  obtain a b where ab: "put16 w = [a, b]" by (simp add: put16_def)
  have "get16 (put16 w) = w" by simp
  then have "unat w = unat (push_bit 8 (ucast a) OR ucast b :: u16)" by (simp add: ab get16_def)
  moreover have "push_bit 8 (ucast a) OR ucast b = (push_bit 8 (ucast a) + ucast b :: u16)"
    by (rule disjunctive_add [symmetric]) (auto simp: bit_simps dest: bit_imp_le_length)
  moreover have "unat (push_bit 8 (ucast a) + ucast b :: u16) = 256 * unat a + unat b"
    using unat_byte_less[of a] unat_byte_less[of b]
    by (simp add: push_bit_eq_mult unat_word_ariths unsigned_ucast_eq take_bit_nat_eq_self)
  ultimately show ?thesis by (simp add: ab)
qed

lemma groups_bound: "sum_list (groups b) \<le> 65535 * (length b div 2)"
proof (induction b rule: groups.induct)
  case (1 a b r)
  then show ?case using unat_byte_less[of a] unat_byte_less[of b] by simp
qed simp_all

text \<open>A header whose checksum field holds the checksum of the rest sums to zero.\<close>

lemma ipck_verifies:
  assumes "even (length A)" and "length A + length B \<le> 1000" and "sum_list (groups A) > 0"
  shows "ipck (A @ put16 (ipck (A @ [0, 0] @ B)) @ B) = 0"
proof -
  let ?n = "sum_list (groups A) + sum_list (groups B)" and ?c = "ipck (A @ [0, 0] @ B)"
  have z: "sum_list (groups (A @ [0, 0] @ B)) = ?n"
    using assms(1) by (simp add: groups_append)
  have f: "sum_list (groups (A @ put16 ?c @ B)) = ?n + unat ?c"
    using assms(1) by (simp add: groups_append groups_put16)
  have small: "?n < 2 ^ 32" "?n + unat ?c < 2 ^ 32"
    using groups_bound[of "A @ [0, 0] @ B"] groups_bound[of "A @ put16 ?c @ B"] assms(2) z f by simp_all
  obtain r where r: "unat ?c = 65535 - r" "r < 65536" "r mod 65535 = ?n mod 65535"
    using unat_ipck[of "A @ [0, 0] @ B"] small z by metis
  obtain q where q: "unat (ipck (A @ put16 ?c @ B)) = 65535 - q" "q < 65536"
      "q mod 65535 = (?n + unat ?c) mod 65535" "q = 0 \<longleftrightarrow> ?n + unat ?c = 0"
    using unat_ipck[of "A @ put16 ?c @ B"] small f by metis
  have "(?n + unat ?c) mod 65535 = (r + (65535 - r)) mod 65535"
    using r by (metis mod_add_left_eq)
  also have "\<dots> = 0" using r(2) by simp
  finally have "q mod 65535 = 0" using q(3) by simp
  moreover have "q \<noteq> 0" using q(4) assms(3) by (metis add_is_0 less_numeral_extra(3))
  ultimately have "q = 65535" using q(2) by (auto elim!: dvdE)
  then show ?thesis using q(1) by (simp add: unsigned_eq_0_iff)
qed

section \<open>Names\<close>

text \<open>A name of labels, as typed and on the wire.\<close>

fun dotted :: "bytes list \<Rightarrow> bytes" where
  "dotted [] = []"
| "dotted [l] = l"
| "dotted (l # m # ls) = l @ 0x2E # dotted (m # ls)"

definition wire_labels :: "bytes list \<Rightarrow> bytes" where
  "wire_labels ls = concat (map emit_label ls) @ [0]"

definition dns_label :: "bytes \<Rightarrow> bool" where
  "dns_label l \<longleftrightarrow> l \<noteq> [] \<and> length l < 64 \<and> list_all (\<lambda>b. b < 128 \<and> b \<noteq> 0x2E) l"

lemma emit_labels_run: "0x2E \<notin> set l \<Longrightarrow> emit_labels (map (\<lambda>b. [b]) l @ r) cur = emit_labels r (cur @ l)"
  by (induction l arbitrary: cur) auto

lemma emit_labels_dotted:
  "\<forall>l \<in> set ls. dns_label l \<Longrightarrow> emit_labels (map (\<lambda>b. [b]) (dotted ls)) [] = concat (map emit_label ls)"
proof (induction ls rule: dotted.induct)
  case (2 l)
  then have "0x2E \<notin> set l" "l \<noteq> []" by (auto simp: dns_label_def list_all_iff)
  then show ?case using emit_labels_run[of l "[]" "[]"] by simp
next
  case (3 l m ls)
  then have "0x2E \<notin> set l" by (auto simp: dns_label_def list_all_iff)
  then show ?case using 3 emit_labels_run[of l "[0x2E] # map (\<lambda>b. [b]) (dotted (m # ls))" "[]"] by simp
qed simp

lemma dotted_ascii: "\<forall>l \<in> set ls. dns_label l \<Longrightarrow> list_all (\<lambda>b. b < 128) (dotted ls)"
  by (induction ls rule: dotted.induct) (auto simp: dns_label_def list_all_iff)

lemma build_dns_query_labels:
  "\<forall>l \<in> set ls. dns_label l \<Longrightarrow> build_dns_query u (dotted ls) = query_header @ wire_labels ls @ [0, 1, 0, 1]"
  using emit_labels_dotted[of ls] dotted_ascii[of ls]
  by (simp add: build_dns_query_def rune_strings_def wire_labels_def)

lemma short_byte: "n < 64 \<Longrightarrow> unat (of_nat n :: byte) = n" "n < 64 \<Longrightarrow> (of_nat n :: byte) AND 0xC0 = 0"
proof -
  assume n: "n < 64"
  then show u: "unat (of_nat n :: byte) = n" by (simp add: unat_of_nat)
  have "(of_nat n :: byte) AND NOT (mask 6) = push_bit 6 (drop_bit 6 (of_nat n))"
    by (rule bit_word_eqI) (auto simp: bit_simps)
  moreover have "NOT (mask 6) = (0xC0 :: byte)" by (simp add: mask_eq_exp_minus_1)
  moreover have "unat (drop_bit 6 (of_nat n :: byte)) = 0"
    unfolding unat_drop_bit_eq u using n by (simp add: drop_bit_eq_div)
  ultimately show "(of_nat n :: byte) AND 0xC0 = 0" by (simp add: unsigned_eq_0_iff)
qed

lemma short_nonzero: "0 < n \<Longrightarrow> n < 64 \<Longrightarrow> (of_nat n :: byte) \<noteq> 0"
  using short_byte(1)[of n] by auto

lemma skip_labels_wire:
  assumes "\<forall>l \<in> set ls. l \<noteq> [] \<and> length l < 64"
  shows "skip_labels (pre @ wire_labels ls @ r) (length pre) + 1 = length pre + length (wire_labels ls)"
  using assms
proof (induction ls arbitrary: pre)
  case Nil
  show ?case by (subst skip_labels.simps) (simp add: wire_labels_def)
next
  case (Cons l ls)
  have "(of_nat (length l) :: byte) \<noteq> 0" "unat (of_nat (length l) :: byte) = length l"
    using Cons.prems short_nonzero[of "length l"] short_byte(1)[of "length l"] by auto
  then have "skip_labels (pre @ wire_labels (l # ls) @ r) (length pre)
      = skip_labels ((pre @ emit_label l) @ wire_labels ls @ r) (length (pre @ emit_label l))"
    by (subst skip_labels.simps) (simp add: wire_labels_def emit_label_def)
  then show ?case
    using Cons.IH[of "pre @ emit_label l"] Cons.prems by (simp add: wire_labels_def emit_label_def)
qed

lemma question_name_wire:
  assumes "\<forall>l \<in> set ls. dns_label l"
  shows "question_name v (pre @ wire_labels ls @ r) (length pre) acc
    = Some (acc @ concat (map (\<lambda>l. map ascii_lower l @ [0x2E]) ls), length pre + length (wire_labels ls))"
  using assms
proof (induction ls arbitrary: pre acc)
  case Nil
  show ?case by (subst question_name.simps) (simp add: wire_labels_def)
next
  case (Cons l ls)
  have l: "dns_label l" using Cons.prems by simp
  then have b: "(of_nat (length l) :: byte) AND 0xC0 = 0" "unat (of_nat (length l) :: byte) = length l" "l \<noteq> []"
    using short_byte[of "length l"] by (auto simp: dns_label_def)
  have low: "to_lower v l = map ascii_lower l" using l by (simp add: to_lower_def dns_label_def list_all_iff)
  have sl: "slice (Suc (length pre)) (Suc (length pre + length l)) (pre @ of_nat (length l) # l @ x) = l" for x
    by (simp add: slice_def)
  have "question_name v (pre @ wire_labels (l # ls) @ r) (length pre) acc
      = question_name v ((pre @ emit_label l) @ wire_labels ls @ r) (length (pre @ emit_label l)) (acc @ map ascii_lower l @ [0x2E])"
    using b by (subst question_name.simps) (simp add: wire_labels_def emit_label_def sl low Let_def)
  then show ?case
    using Cons.IH[of "pre @ emit_label l"] Cons.prems by (simp add: wire_labels_def emit_label_def)
qed

lemma test_query_parses:
  assumes "\<forall>l \<in> set ls. dns_label l"
  shows "parse_question v (build_dns_query u (dotted ls)) = Some (concat (map (\<lambda>l. map ascii_lower l @ [0x2E]) ls), 1)"
proof -
  have h: "length query_header = 12" by (simp add: query_header_def)
  have "slice 4 6 query_header = put16 1" by (simp add: query_header_def put16_def slice_def)
  then have c: "get16 (slice 4 6 (query_header @ x)) = 1" for x
    by (simp add: slice_append_left h)
  have t: "get16 (slice (length p) (length p + 2) (p @ [0, 1, 0, 1])) = (1 :: u16)" for p
    by (simp add: slice_def get16_def)
  show ?thesis
    unfolding build_dns_query_labels[OF assms] parse_question_def
    using question_name_wire[OF assms, of v query_header "[0, 1, 0, 1]" "[]"] c h
      t[of "query_header @ wire_labels ls"]
    by simp
qed

section \<open>Answers\<close>

text \<open>Resource records as an upstream writes them.\<close>

datatype rr_name = NamePtr byte byte | NameLabels "bytes list"

record rr =
  rr_name :: rr_name
  rr_type :: u16
  rr_class :: u16
  rr_ttl :: u32
  rr_data :: bytes

fun encode_name :: "rr_name \<Rightarrow> bytes" where
  "encode_name (NamePtr a b) = [0xC0 OR a, b]"
| "encode_name (NameLabels ls) = wire_labels ls"

definition encode_rr :: "rr \<Rightarrow> bytes" where
  "encode_rr x = encode_name (rr_name x) @ put16 (rr_type x) @ put16 (rr_class x) @ put32 (rr_ttl x)
     @ put16 (of_nat (length (rr_data x))) @ rr_data x"

definition wf_rr :: "rr \<Rightarrow> bool" where
  "wf_rr x \<longleftrightarrow> length (rr_data x) < 65536
     \<and> (case rr_name x of NamePtr _ _ \<Rightarrow> True | NameLabels ls \<Rightarrow> list_all (\<lambda>l. l \<noteq> [] \<and> length l < 64) ls)"

text \<open>The reference: the address of the first A record.\<close>

definition is_a :: "rr \<Rightarrow> bool" where
  "is_a x \<longleftrightarrow> rr_type x = 1 \<and> length (rr_data x) = 4"

fun first_a :: "rr list \<Rightarrow> string" where
  "first_a [] = []"
| "first_a (x # xs) = (if is_a x then ip_string (rr_data x) else first_a xs)"

lemma ptr_byte: "((0xC0 OR a) AND 0xC0 :: byte) = 0xC0"
  by (rule bit_word_eqI) (auto simp: bit_simps)

lemma wire_head: "\<forall>l \<in> set ls. l \<noteq> [] \<and> length l < 64 \<Longrightarrow> (wire_labels ls ! 0) AND 0xC0 = 0"
  by (cases ls) (auto simp: wire_labels_def emit_label_def short_byte(2))

lemma name_end:
  assumes "wf_rr x" and "dns = pre @ encode_name (rr_name x) @ tl'"
  shows "(if dns ! length pre AND 0xC0 = 0xC0 then length pre + 2 else skip_labels dns (length pre) + 1)
    = length (pre @ encode_name (rr_name x))"
proof (cases "rr_name x")
  case (NamePtr a b)
  then show ?thesis using assms(2) ptr_byte[of a] by simp
next
  case (NameLabels ls)
  then have ls: "\<forall>l \<in> set ls. l \<noteq> [] \<and> length l < 64"
    using assms(1) by (simp add: wf_rr_def list_all_iff)
  have "wire_labels ls \<noteq> []" by (simp add: wire_labels_def)
  then have "dns ! length pre = wire_labels ls ! 0"
    using assms(2) NameLabels by (simp add: nth_append)
  then show ?thesis
    using skip_labels_wire[OF ls, of pre tl'] wire_head[OF ls] assms(2) NameLabels by simp
qed

lemma encode_name_length: "0 < length (encode_name n)"
  by (cases n) (simp_all add: wire_labels_def)

lemma u16_at_append: "u16_at (p @ put16 w @ r) (length p) = Some w"
  by (simp add: u16_at_def slice_def)

lemma answer_step:
  assumes "wf_rr x" and "dns = pre @ encode_rr x @ rest" and "length pre + 12 \<le> length dns"
  shows "answer_loop dns (Suc n) (length pre)
    = (if is_a x then Some (ip_string (rr_data x)) else answer_loop dns n (length (pre @ encode_rr x)))"
proof -
  let ?p = "pre @ encode_name (rr_name x)"
  have d: "dns = pre @ encode_name (rr_name x) @ put16 (rr_type x) @ put16 (rr_class x) @ put32 (rr_ttl x)
      @ put16 (of_nat (length (rr_data x))) @ rr_data x @ rest"
    using assms(2) by (simp add: encode_rr_def)
  have e: "(if dns ! length pre AND 0xC0 = 0xC0 then length pre + 2 else skip_labels dns (length pre) + 1) = length ?p"
    by (rule name_end[OF assms(1) d])
  have len: "length dns = length ?p + 10 + length (rr_data x) + length rest"
    using d by simp
  have t: "u16_at dns (length ?p) = Some (rr_type x)"
    using u16_at_append[of ?p "rr_type x"] d by simp
  let ?q = "?p @ put16 (rr_type x) @ put16 (rr_class x) @ put32 (rr_ttl x)"
  have l: "u16_at dns (length ?p + 8) = Some (of_nat (length (rr_data x)))"
    using u16_at_append[of ?q "of_nat (length (rr_data x))" "rr_data x @ rest"] d by (simp add: add.assoc)
  have rd: "unat (of_nat (length (rr_data x)) :: u16) = length (rr_data x)"
    using assms(1) by (simp add: wf_rr_def unat_of_nat)
  have data: "slice (length ?p + 10) (length ?p + 10 + length (rr_data x)) dns = rr_data x"
    unfolding d by (simp add: slice_def)
  then have data: "is_a x \<Longrightarrow> slice (length ?p + 10) (length ?p + 10 + 4) dns = rr_data x"
    by (simp add: is_a_def)
  have b: "byte_at dns (length pre) = Some (dns ! length pre)"
    using assms(3) by (simp add: byte_at_def)
  show ?thesis
    using assms(3) e len t l rd data
    by (simp add: b Let_def is_a_def encode_rr_def add.assoc del: One_nat_def)
qed

lemma length_member_concat: "y \<in> set xs \<Longrightarrow> length (f y) \<le> length (concat (map f xs))"
  by (induction xs) auto

lemma first_a_none: "(\<And>y. y \<in> set xs \<Longrightarrow> \<not> is_a y) \<Longrightarrow> first_a xs = []"
  by (induction xs) auto

lemma answer_loop_first_a:
  assumes "\<forall>x \<in> set xs. wf_rr x"
  shows "answer_loop (pre @ concat (map encode_rr xs) @ rest) (length xs) (length pre) = Some (first_a xs)"
  using assms
proof (induction xs arbitrary: pre)
  case (Cons x xs)
  let ?dns = "pre @ concat (map encode_rr (x # xs)) @ rest"
  show ?case
  proof (cases "length pre + 12 \<le> length ?dns")
    case True
    then show ?thesis
      using answer_step[of x ?dns pre "concat (map encode_rr xs) @ rest" "length xs"]
        Cons.IH[of "pre @ encode_rr x"] Cons.prems by simp
  next
    case False
    have "\<not> is_a y" if "y \<in> set (x # xs)" for y
    proof
      assume "is_a y"
      then have "15 \<le> length (encode_rr y)"
        using encode_name_length[of "rr_name y"] unfolding encode_rr_def is_a_def length_append by (simp add: Suc_le_eq)
      moreover have "length (encode_rr y) \<le> length (concat (map encode_rr (x # xs)))"
        using that by (rule length_member_concat)
      ultimately show False using False by simp
    qed
    then have "first_a (x # xs) = []" by (rule first_a_none)
    then show ?thesis using False by simp
  qed
qed simp

section \<open>What the test sends\<close>

lemma build_udp_ip_parts:
  fixes payload :: bytes
  defines "A \<equiv> [0x45, 0] @ put16 (of_nat (28 + length payload)) @ [0, 0, 0, 0, 64, 17]"
  shows "build_udp_ip src dst sport dport payload
    = (A @ put16 (ipck (A @ [0, 0] @ put_ip4 src @ put_ip4 dst)) @ put_ip4 src @ put_ip4 dst)
      @ put16 sport @ put16 dport @ put16 (of_nat (8 + length payload)) @ [0, 0] @ payload"
    and "length A = 10" and "0 < sum_list (groups A)"
  by (simp_all add: build_udp_ip_def A_def Let_def)

lemma build_udp_ip_fields:
  "length (build_udp_ip src dst sport dport payload) = 28 + length payload"
  "build_udp_ip src dst sport dport payload ! 0 = 0x45"
  "slice 12 16 (build_udp_ip src dst sport dport payload) = put_ip4 src"
  "slice 16 20 (build_udp_ip src dst sport dport payload) = put_ip4 dst"
  "slice 22 24 (build_udp_ip src dst sport dport payload) = put16 dport"
  "drop 28 (build_udp_ip src dst sport dport payload) = payload"
  by (simp_all add: build_udp_ip_def Let_def slice_def)

lemma build_udp_ip_checksum: "ipck (take 20 (build_udp_ip src dst sport dport payload)) = 0"
  using ipck_verifies[of "[0x45, 0] @ put16 (of_nat (28 + length payload)) @ [0, 0, 0, 0, 64, 17]" "put_ip4 src @ put_ip4 dst"]
    build_udp_ip_parts(2,3)[of payload]
  by (subst build_udp_ip_parts(1)) simp

lemma query_packet_fields:
  assumes "to4 tun = Some t"
  shows "src_matches_tunnel (query_packet v fl tun) tun" "inject_client (query_packet v fl tun) = Some (AsIPv4 (query_packet v fl tun))"
    "ipck (take 20 (query_packet v fl tun)) = 0" "get16 (slice 22 24 (query_packet v fl tun)) = 53"
    "drop 28 (query_packet v fl tun) = build_dns_query (te_runes v) (tf_name fl)"
proof -
  let ?p = "query_packet v fl tun"
  have l: "length ?p \<ge> 28" and h: "?p ! 0 = 0x45" unfolding query_packet_def by (simp_all add: build_udp_ip_fields)
  have n: "drop_bit 4 (0x45 :: byte) = 4" by (simp add: high_nibble)
  have "slice 12 16 ?p = t" using assms by (simp add: query_packet_def build_udp_ip_fields put_ip4_def)
  then show "src_matches_tunnel ?p tun" using l h n assms by (simp add: src_matches_tunnel_def)
  have "?p \<noteq> []" using l by auto
  then show "inject_client ?p = Some (AsIPv4 ?p)" using h n by (simp add: inject_client_def)
  show "ipck (take 20 ?p) = 0" unfolding query_packet_def by (rule build_udp_ip_checksum)
  show "get16 (slice 22 24 ?p) = 53" unfolding query_packet_def by (simp add: build_udp_ip_fields)
  show "drop 28 ?p = build_dns_query (te_runes v) (tf_name fl)" unfolding query_packet_def by (simp add: build_udp_ip_fields)
qed

lemma send_raw_unwraps:
  assumes "\<forall>k. wf_env (te_wrap v k)" and "wf_transport (snd s)" and "send_raw v t p s = (f, s')" and "same_kind tr (snd s)"
  shows "tr_unwrap tr f = Some (t, p)" "wf_transport (snd s')" "same_kind tr (snd s')"
proof -
  obtain x where x: "tr_wrap (te_wrap v (fst s)) (snd s) t p = (f, x)" "s' = (fst s + 1, x)"
    using assms(3) by (auto simp: send_raw_def split: prod.splits)
  show "tr_unwrap tr f = Some (t, p)"
    using tr_unwrap_wrap[of "te_wrap v (fst s)" "snd s" t p] assms(1,2) x tr_unwrap_kind[OF assms(4)] by simp
  show "wf_transport (snd s')" using tr_wrap_wf[of "te_wrap v (fst s)" "snd s" t p] assms(1,2) x by simp
  show "same_kind tr (snd s')" using tr_wrap_kind[of "te_wrap v (fst s)" "snd s" t p] assms(4) x by (auto simp: same_kind_def)
qed

section \<open>What the test reads\<close>

lemma answer_loop_total: "\<exists>a. answer_loop dns n p = Some a"
  by (induction n arbitrary: p) (auto simp: byte_at_def u16_at_def Let_def)

lemma parse_dns_answer_total: "parse_dns_answer pkt \<noteq> None"
  using answer_loop_total by (auto simp: parse_dns_answer_def byte_at_def Let_def)

lemma read_answer_live: "read_answer C (Some rx) tr ds \<noteq> Crashed"
  by (induction C "Some rx" tr ds rule: read_answer.induct)
    (auto simp: open_rx_def parse_dns_answer_total split: option.splits sum.splits)

text \<open>An answer message inside its headers, as the tunnel delivers it.\<close>

definition answer_packet :: "bytes \<Rightarrow> bytes \<Rightarrow> bytes list \<Rightarrow> rr list \<Rightarrow> bytes \<Rightarrow> bytes" where
  "answer_packet hdr h ls xs rest =
     hdr @ h @ wire_labels ls @ [0, 1, 0, 1] @ concat (map encode_rr xs) @ rest"

definition answers :: "bytes \<Rightarrow> bytes \<Rightarrow> bytes list \<Rightarrow> rr list \<Rightarrow> bool" where
  "answers hdr h ls xs \<longleftrightarrow> length hdr = 28 \<and> hdr ! 0 = 0x45 \<and> length h = 12
     \<and> length xs < 65536 \<and> xs \<noteq> [] \<and> slice 6 8 h = put16 (of_nat (length xs))
     \<and> list_all dns_label ls \<and> list_all wf_rr xs"

lemma parse_answer_packet:
  assumes "answers hdr h ls xs"
  shows "parse_dns_answer (answer_packet hdr h ls xs rest) = Some (first_a xs)"
proof -
  let ?q = "h @ wire_labels ls @ [0, 1, 0, 1]" and ?rr = "concat (map encode_rr xs) @ rest"
  let ?pkt = "answer_packet hdr h ls xs rest"
  have a: "length hdr = 28" "hdr ! 0 = 0x45" "length h = 12" "slice 6 8 h = put16 (of_nat (length xs))"
    "\<forall>l \<in> set ls. l \<noteq> [] \<and> length l < 64" "\<forall>x \<in> set xs. wf_rr x" "0 < length xs" "length xs < 65536"
    using assms by (auto simp: answers_def list_all_iff dns_label_def)
  have d: "drop 28 ?pkt = ?q @ ?rr" using a(1) by (simp add: answer_packet_def)
  have b: "byte_at ?pkt 0 = Some 0x45" and l: "40 \<le> length ?pkt"
    using a(1-3) by (auto simp: answer_packet_def byte_at_def nth_append)
  have i: "unat (0x45 AND 0x0F :: byte) = 5" by simp
  have n: "slice 6 8 (?q @ ?rr) = put16 (of_nat (length xs))"
    using a(3,4) by (simp add: slice_append_left)
  have u: "unat (of_nat (length xs) :: u16) = length xs" using a(8) by (simp add: unat_of_nat)
  then have z: "(of_nat (length xs) :: u16) \<noteq> 0" using a(7) by auto
  have "skip_labels (?q @ ?rr) 12 + 5 = length ?q"
    using skip_labels_wire[OF a(5), of h "[0, 1, 0, 1] @ ?rr"] a(3) by simp
  then show ?thesis
    using answer_loop_first_a[OF a(6), of ?q rest] l d n u z a(3)
    unfolding parse_dns_answer_def by (simp add: b i Let_def)
qed

text \<open>Datagrams the test passes over.\<close>

definition unreadable :: "cipher \<Rightarrow> aead \<Rightarrow> transport \<Rightarrow> bytes \<Rightarrow> bool" where
  "unreadable C rx tr d =
     (case tr_unwrap tr (take 65535 d) of
        None \<Rightarrow> True
      | Some (_, p) \<Rightarrow> (case aead_open C rx p of Inl _ \<Rightarrow> True | Inr _ \<Rightarrow> False))"

lemma read_answer_skips:
  "list_all (unreadable C rx tr) ds \<Longrightarrow> read_answer C (Some rx) tr (ds @ es) = read_answer C (Some rx) tr es"
  by (induction ds) (auto simp: unreadable_def open_rx_def split: option.splits sum.splits)

lemma read_answer_first:
  assumes "list_all (unreadable C rx tr) ds" and "tr_unwrap tr (take 65535 g) = Some (t, ct)"
    and "aead_open C rx ct = Inr pkt" and "parse_dns_answer pkt = Some a" and "a \<noteq> []"
  shows "read_answer C (Some rx) tr (ds @ g # es) = AnswerOk a"
  using assms read_answer_skips[OF assms(1)] by (simp add: open_rx_def)

lemma after_welcome_query:
  assumes "\<not> tf_probe fl" and "te_rnd1 v = Some pre" and "tf_hop fl \<longrightarrow> te_dial v"
    and "\<forall>k. wf_env (te_wrap v k)" and "wf_transport (snd s)"
  obtains pn f ct tx s' tr'
  where "after_welcome C v fl tok m w s =
      ([(\<lparr>uip = w_slave_ip w, uport = unat (w_slave_port w)\<rparr>, pn), (data_addr fl m w, f)],
       read_answer C (new_aead (session_key tok (w_assigned w)) (te_rnd2 v)) tr' (te_downlink v))"
    and "aead_seal C \<lparr>a_key = session_key tok (w_assigned w), a_prefix = pre, a_counter = 0\<rparr> (query_packet v fl (w_assigned w)) = (Inr ct, tx)"
    and "tr_unwrap (snd s) f = Some (PktTypeData, ct)" and "same_kind (snd s) tr'"
proof -
  let ?a = "\<lparr>a_key = session_key tok (w_assigned w), a_prefix = pre, a_counter = 0\<rparr>"
  obtain ct tx where seal: "aead_seal C ?a (query_packet v fl (w_assigned w)) = (Inr ct, tx)"
    by (simp add: aead_seal_def aead_nonce_def)
  obtain pn s1 where p: "send_raw v PktTypePunch (four_bytes (w_assigned w)) s = (pn, s1)" by (cases "send_raw v PktTypePunch (four_bytes (w_assigned w)) s")
  obtain f s2 where d: "send_raw v PktTypeData ct s1 = (f, s2)" by (cases "send_raw v PktTypeData ct s1")
  have k: "same_kind (snd s) (snd s)" by (simp add: same_kind_def)
  note w1 = send_raw_unwraps(2,3)[OF assms(4,5) p k]
  note w2 = send_raw_unwraps[OF assms(4) w1(1) d w1(2)]
  show thesis
  proof (rule that[OF _ seal w2(1) w2(3)])
    show "after_welcome C v fl tok m w s =
      ([(\<lparr>uip = w_slave_ip w, uport = unat (w_slave_port w)\<rparr>, pn), (data_addr fl m w, f)],
       read_answer C (new_aead (session_key tok (w_assigned w)) (te_rnd2 v)) (snd s2) (te_downlink v))"
      using assms(1-3) p d seal by (simp add: after_welcome_def send_query_def Let_def new_aead_def)
  qed
qed

section \<open>Properties\<close>

definition sample_flags :: test_flags where
  "sample_flags = \<lparr>tf_master = ''198.51.100.1:7000'', tf_token = [], tf_dns = ''10.8.0.1'',
     tf_name = [0x69, 0x70, 0x2E, 0x73, 0x62], tf_transport = ''cs2'', tf_hop = False, tf_probe = False\<rparr>"

definition sample_tunnel :: welcome_msg where
  "sample_tunnel = \<lparr>w_assigned = [10, 8, 0, 2], w_slave_ip = [203, 0, 113, 5], w_slave_port = 7002,
     w_data_port = 40000, w_server_id = replicate 8 0, w_slaves = []\<rparr>"

definition sample_answer :: bytes where
  "sample_answer = answer_packet (0x45 # replicate 27 0) (replicate 6 0 @ put16 1 @ replicate 4 0)
     [[0x69, 0x70], [0x73, 0x62]]
     [\<lparr>rr_name = NamePtr 0 12, rr_type = 1, rr_class = 1, rr_ttl = 60, rr_data = [192, 0, 2, 1]\<rparr>] []"

definition sample_test :: test_env where
  "sample_test = \<lparr>te_seed = replicate 16 0, te_wrap = (\<lambda>k. sample_env),
     te_resolve = (\<lambda>h. Some \<lparr>uip = [198, 51, 100, 1], uport = 7000\<rparr>), te_listen = True, te_unix = 0,
     te_nonce = Some (replicate 8 0), te_reply = None, te_rnd1 = Some (replicate 8 0), te_rnd2 = Some (replicate 8 1),
     te_pings = (\<lambda>a. []), te_dial = True, te_runes = (\<lambda>n. []),
     te_downlink = [[], cs2_wrap PktTypeData (replicate 12 0 @ sample_answer @ replicate 16 0)]\<rparr>"

lemma sample_labels: "dotted [[0x69, 0x70], [0x73, 0x62]] = tf_name sample_flags"
    "\<forall>l \<in> set [[0x69, 0x70], [0x73, 0x62]]. dns_label l"
  by (simp_all add: sample_flags_def dns_label_def)

lemma sample_test_fields [simp]:
  "te_rnd1 sample_test = Some (replicate 8 0)" "te_rnd2 sample_test = Some (replicate 8 1)" "wf_env (te_wrap sample_test k)"
  "te_dial sample_test" "\<not> tf_probe sample_flags" "\<not> tf_hop sample_flags" "tf_transport sample_flags = ''cs2''"
  "w_assigned sample_tunnel = [10, 8, 0, 2]" "w_data_port sample_tunnel = 40000"
  "te_downlink sample_test = [[], cs2_wrap PktTypeData (replicate 12 0 @ sample_answer @ replicate 16 0)]"
  "w_slave_ip sample_tunnel = [203, 0, 113, 5]" "w_slave_port sample_tunnel = 7002"
  by (simp_all add: sample_test_def sample_flags_def sample_tunnel_def)

lemma sample_opens: "aead_open null_cipher a (replicate 12 0 @ x @ replicate 16 0) = Inr x"
  by (simp add: aead_open_def null_cipher_def)

text \<open>C33. The query of the path test: after the welcome the test sends a punch and one data frame, which
  unwraps to a packet sealed under the session's key; the packet passes the master's check of the
  source, enters the stack as IPv4, its header checksum verifies, it is for port 53, and the
  resolver reads its payload as the A question for the name asked for, in lower case.\<close>

theorem path_test_query:
  assumes "cipher_ok C" and "te_rnd1 v = Some pre" and "length pre = 8" and "\<not> tf_probe fl" and "tf_hop fl \<longrightarrow> te_dial v"
    and "\<forall>k. wf_env (te_wrap v k)" and "wf_transport (snd s)" and "to4 (w_assigned w) = Some t"
    and "tf_name fl = dotted ls" and "\<forall>l \<in> set ls. dns_label l"
    and "a_key b = session_key tok (w_assigned w)"
  shows "\<exists>pn f ct pkt. fst (after_welcome C v fl tok m w s)
      = [(\<lparr>uip = w_slave_ip w, uport = unat (w_slave_port w)\<rparr>, pn), (data_addr fl m w, f)]
    \<and> tr_unwrap (snd s) f = Some (PktTypeData, ct) \<and> aead_open C b ct = Inr pkt
    \<and> src_matches_tunnel pkt (w_assigned w) \<and> inject_client pkt = Some (AsIPv4 pkt) \<and> ipck (take 20 pkt) = 0
    \<and> get16 (slice 22 24 pkt) = 53
    \<and> parse_question lower (drop 28 pkt) = Some (concat (map (\<lambda>l. map ascii_lower l @ [0x2E]) ls), 1)"
proof -
  obtain pn f ct tx s' tr' where
    run: "after_welcome C v fl tok m w s =
      ([(\<lparr>uip = w_slave_ip w, uport = unat (w_slave_port w)\<rparr>, pn), (data_addr fl m w, f)],
       read_answer C (new_aead (session_key tok (w_assigned w)) (te_rnd2 v)) tr' (te_downlink v))"
    and seal: "aead_seal C \<lparr>a_key = session_key tok (w_assigned w), a_prefix = pre, a_counter = 0\<rparr> (query_packet v fl (w_assigned w)) = (Inr ct, tx)"
    and un: "tr_unwrap (snd s) f = Some (PktTypeData, ct)"
    by (rule after_welcome_query[OF assms(4,2,5,6,7)])
  have "aead_open C b ct = Inr (query_packet v fl (w_assigned w))"
    using aead_open_seal(1)[OF assms(1) _ _ seal] assms(3,11) by (simp add: wf_aead_def)
  then show ?thesis
    using run un query_packet_fields[OF assms(8)] test_query_parses[OF assms(10)] assms(9) by auto
qed

theorem path_test_query_witness:
  "\<exists>pn f pkt. fst (after_welcome null_cipher sample_test sample_flags [] \<lparr>uip = [198, 51, 100, 1], uport = 7000\<rparr> sample_tunnel (1, CS2))
      = [(\<lparr>uip = [203, 0, 113, 5], uport = 7002\<rparr>, pn), (\<lparr>uip = [198, 51, 100, 1], uport = 40000\<rparr>, f)]
    \<and> src_matches_tunnel pkt [10, 8, 0, 2] \<and> ipck (take 20 pkt) = 0"
proof -
  let ?b = "\<lparr>a_key = session_key [] [10, 8, 0, 2], a_prefix = [], a_counter = 0\<rparr>" and ?m = "\<lparr>uip = [198, 51, 100, 1], uport = 7000\<rparr>"
  have "a_key ?b = session_key [] (w_assigned sample_tunnel)" "to4 (w_assigned sample_tunnel) = Some [10, 8, 0, 2]" by simp_all
  then obtain pn f pkt where "fst (after_welcome null_cipher sample_test sample_flags [] ?m sample_tunnel (1, CS2))
      = [(\<lparr>uip = w_slave_ip sample_tunnel, uport = unat (w_slave_port sample_tunnel)\<rparr>, pn), (data_addr sample_flags ?m sample_tunnel, f)]"
    "src_matches_tunnel pkt (w_assigned sample_tunnel)" "ipck (take 20 pkt) = 0"
    using path_test_query[OF null_cipher_ok sample_test_fields(1) _ sample_test_fields(5) _ _ _ _ sample_labels(1)[symmetric] sample_labels(2),
        of "(1, CS2)" sample_tunnel "[10, 8, 0, 2]" ?b "[]" ?m id] by auto
  then show ?thesis
    by (intro exI[of _ pn] exI[of _ f] exI[of _ pkt]) (simp add: data_addr_def)
qed



text \<open>The path test never crashes on what it receives: with randomness for its two ciphers no run ends
  in a panic, whatever the bytes of the welcome, the pongs and the downlink.\<close>

theorem path_test_safe:
  assumes "te_rnd1 v = Some pre" and "te_rnd2 v = Some pre'"
  shows "snd (path_test C v fl) \<noteq> Crashed"
proof -
  have q: "snd (send_query C v fl m w tx (Some rx) s) \<noteq> Crashed" for m w tx rx s
    by (auto simp: send_query_def read_answer_live split: sum.splits prod.splits)
  have "snd (after_welcome C v fl tok m w s) \<noteq> Crashed" for tok m w s
    using q assms by (auto simp: after_welcome_def Let_def new_aead_def split: prod.splits) (metis snd_conv)
  then show ?thesis
    by (auto simp: path_test_def split: option.splits sum.splits prod.splits) (metis snd_conv)
qed

theorem path_test_safe_witness:
  "snd (path_test null_cipher sample_test sample_flags) \<noteq> Crashed"
  using path_test_safe[of sample_test "replicate 8 0" "replicate 8 1"] by (simp add: sample_test_def)

end
