(* ===== verification/Tun.thy ===== *)
theory Tun
  imports Netfw NetAddr "HOL-Library.Multiset"
begin

text \<open>
  The adapter of the client, \<open>common/tun\<close>: what it runs on Linux and on Windows to configure the
  interface, its routes, the resolver and the DNS kill-switch. Commands and their answers are
  those of \<open>Netfw\<close>; the driver's packet queues are not modelled.
\<close>

section \<open>Linux\<close>

record linux_dev =
  ld_name :: string
  ld_lock :: string

definition ip_cmd :: "string list \<Rightarrow> cmd" where "ip_cmd args = (''ip'', args)"
definition iptables :: "string list \<Rightarrow> cmd" where "iptables args = (''iptables'', args)"

definition linux_configure :: "runner \<Rightarrow> linux_dev \<Rightarrow> ip \<Rightarrow> ip \<Rightarrow> int \<Rightarrow> cmd list \<Rightarrow> bool \<times> cmd list" where
  "linux_configure run d local peer mtu h =
     run_all run
       [ip_cmd [''addr'', ''add'', ip_string local @ ''/32'', ''peer'', ip_string peer, ''dev'', ld_name d],
        ip_cmd [''link'', ''set'', ''dev'', ld_name d, ''mtu'', sprint mtu, ''up'']] h"

definition linux_default_route :: "linux_dev \<Rightarrow> ip \<Rightarrow> cmd" where
  "linux_default_route d gw = ip_cmd [''route'', ''add'', ''default'', ''via'', ip_string gw, ''dev'', ld_name d]"

definition linux_add_host :: "linux_dev \<Rightarrow> ip \<Rightarrow> cmd" where
  "linux_add_host d a = ip_cmd [''route'', ''add'', ip_string a @ ''/32'', ''dev'', ld_name d]"

definition linux_del_host :: "linux_dev \<Rightarrow> ip \<Rightarrow> cmd" where
  "linux_del_host d a = ip_cmd [''route'', ''del'', ip_string a @ ''/32'', ''dev'', ld_name d]"

definition linux_add_prefix :: "linux_dev \<Rightarrow> string \<Rightarrow> cmd" where
  "linux_add_prefix d p = ip_cmd [''route'', ''add'', p, ''dev'', ld_name d]"

definition linux_del_prefix :: "linux_dev \<Rightarrow> string \<Rightarrow> cmd" where
  "linux_del_prefix d p = ip_cmd [''route'', ''del'', p, ''dev'', ld_name d]"

definition linux_exclude :: "ip \<Rightarrow> ip option \<Rightarrow> string \<Rightarrow> cmd" where
  "linux_exclude a gw iface =
     (case gw of
        Some g \<Rightarrow> ip_cmd [''route'', ''add'', ip_string a @ ''/32'', ''via'', ip_string g]
      | None \<Rightarrow> ip_cmd [''route'', ''add'', ip_string a @ ''/32'', ''dev'', iface])"

definition linux_unexclude :: "ip \<Rightarrow> cmd" where
  "linux_unexclude a = ip_cmd [''route'', ''del'', ip_string a @ ''/32'']"

definition ipv6_halves :: "string list" where
  "ipv6_halves = [''::/1'', ''8000::/1'']"

definition linux_block_ipv6 :: "cmd list" where
  "linux_block_ipv6 = map (\<lambda>p. ip_cmd [''-6'', ''route'', ''add'', ''blackhole'', p]) ipv6_halves"

definition linux_unblock_ipv6 :: "cmd list" where
  "linux_unblock_ipv6 = map (\<lambda>p. ip_cmd [''-6'', ''route'', ''del'', ''blackhole'', p]) ipv6_halves"

definition linux_flush_dns :: "cmd list" where
  "linux_flush_dns = [(''resolvectl'', [''flush-caches'']), (''systemctl'', [''restart'', ''nscd''])]"

section \<open>The resolver file\<close>

text \<open>The two files, \<open>None\<close> when there is none; the flags say which writes succeed.\<close>

record dns_files =
  resolv_conf :: "string option"
  resolv_backup :: "string option"

definition resolv_content :: "ip \<Rightarrow> string" where
  "resolv_content a = ''# mini-tun-asymmetric: all DNS via tunnel'' @ [CHR 0x0A] @ ''nameserver '' @ ip_string a @ [CHR 0x0A]"

definition set_dns :: "bool \<Rightarrow> bool \<Rightarrow> ip \<Rightarrow> dns_files \<Rightarrow> bool \<times> dns_files" where
  "set_dns backup_ok conf_ok a f =
     (let f1 = (case resolv_backup f of
                  Some _ \<Rightarrow> f
                | None \<Rightarrow> (case resolv_conf f of
                     None \<Rightarrow> f | Some d \<Rightarrow> if backup_ok then f\<lparr>resolv_backup := Some d\<rparr> else f))
      in if conf_ok then (True, f1\<lparr>resolv_conf := Some (resolv_content a)\<rparr>) else (False, f1))"

definition restore_dns :: "bool \<Rightarrow> dns_files \<Rightarrow> bool \<times> dns_files" where
  "restore_dns conf_ok f =
     (case resolv_backup f of
        None \<Rightarrow> (True, f)
      | Some d \<Rightarrow> if conf_ok then (True, f\<lparr>resolv_conf := Some d, resolv_backup := None\<rparr>) else (False, f))"

section \<open>The kill-switch on Linux\<close>

definition dns_protos :: "string list" where "dns_protos = [''udp'', ''tcp'']"

definition accept_rule :: "string \<Rightarrow> string \<Rightarrow> string list" where
  "accept_rule proto a = [''-p'', proto, ''--dport'', ''53'', ''-d'', a, ''-j'', ''ACCEPT'']"

definition drop_rule :: "string \<Rightarrow> string list" where
  "drop_rule proto = [''-p'', proto, ''--dport'', ''53'', ''-j'', ''DROP'']"

definition linux_lock_dns :: "ip \<Rightarrow> linux_dev \<Rightarrow> cmd list \<times> linux_dev" where
  "linux_lock_dns a d =
     (concat (map (\<lambda>proto. [iptables ([''-I'', ''OUTPUT'', ''1''] @ accept_rule proto (ip_string a)),
                            iptables ([''-A'', ''OUTPUT''] @ drop_rule proto)]) dns_protos),
      d\<lparr>ld_lock := ip_string a\<rparr>)"

definition linux_unlock_dns :: "linux_dev \<Rightarrow> cmd list \<times> linux_dev" where
  "linux_unlock_dns d =
     (concat (map (\<lambda>proto. iptables ([''-D'', ''OUTPUT''] @ drop_rule proto)
                    # (if ld_lock d = [] then [] else [iptables ([''-D'', ''OUTPUT''] @ accept_rule proto (ld_lock d))]))
                  dns_protos),
      d\<lparr>ld_lock := []\<rparr>)"

section \<open>Windows\<close>

definition netsh :: "string list \<Rightarrow> cmd" where "netsh args = (''netsh'', args)"

text \<open>\<open>itoa\<close> writes into twelve bytes from the end; \<open>None\<close> is its index out of range.\<close>

function itoa_loop :: "nat \<Rightarrow> nat \<Rightarrow> string \<Rightarrow> string option" where
  "itoa_loop room n acc =
     (if n = 0 then Some acc
      else if room = 0 then None
      else itoa_loop (room - 1) (n div 10) (digit (n mod 10) # acc))"
  by pat_completeness auto
termination by (relation "measure (\<lambda>(room, n, acc). n)") auto

declare itoa_loop.simps [simp del]

definition itoa :: "int \<Rightarrow> string option" where
  "itoa n = (if n = 0 then Some ''0'' else if n < 0 then Some [] else itoa_loop 12 (nat n) [])"

definition win_configure :: "runner \<Rightarrow> string \<Rightarrow> ip \<Rightarrow> int \<Rightarrow> cmd list \<Rightarrow> (bool \<times> cmd list) option" where
  "win_configure run name local mtu h =
     (case run_cmd run (netsh [''interface'', ''ip'', ''set'', ''address'', name, ''static'', ip_string local, ''255.255.255.0'']) h of
        (ok, h1) \<Rightarrow>
          if \<not> ok then Some (False, h1)
          else (case itoa (if mtu \<le> 0 then 1400 else mtu) of
             None \<Rightarrow> None
           | Some s \<Rightarrow> Some (True, h1 @ [netsh [''interface'', ''ipv4'', ''set'', ''subinterface'', name,
               ''mtu='' @ s, ''store=active'']])))"

definition win_add_prefix :: "string \<Rightarrow> string \<Rightarrow> cmd" where
  "win_add_prefix name p = netsh [''interface'', ''ipv4'', ''add'', ''route'', ''prefix='' @ p, ''interface='' @ name, ''store=active'']"

definition win_del_prefix :: "string \<Rightarrow> string \<Rightarrow> cmd" where
  "win_del_prefix name p = netsh [''interface'', ''ipv4'', ''delete'', ''route'', ''prefix='' @ p, ''interface='' @ name]"

definition win_default_route :: "string \<Rightarrow> cmd" where
  "win_default_route name = win_add_prefix name ''0.0.0.0/0''"

definition win_add_host :: "string \<Rightarrow> ip \<Rightarrow> cmd" where
  "win_add_host name a = win_add_prefix name (ip_string a @ ''/32'')"

definition win_del_host :: "string \<Rightarrow> ip \<Rightarrow> cmd" where
  "win_del_host name a = win_del_prefix name (ip_string a @ ''/32'')"

definition win_set_dns :: "string \<Rightarrow> ip \<Rightarrow> cmd" where
  "win_set_dns name a = netsh [''interface'', ''ipv4'', ''set'', ''dnsservers'', ''name='' @ name, ''static'', ip_string a,
     ''primary'', ''validate=no'']"

definition win_restore_dns :: "string \<Rightarrow> cmd" where
  "win_restore_dns name = netsh [''interface'', ''ipv4'', ''set'', ''dnsservers'', ''name='' @ name, ''dhcp'']"

definition dns_rule :: string where "dns_rule = ''MiniTunAsymmetric-DNS-Killswitch''"

definition uint32_to_ip :: "u32 \<Rightarrow> string" where
  "uint32_to_ip u = ip_string (put32 u)"

definition complement_range :: "ip \<Rightarrow> string option" where
  "complement_range a =
     (case to4 a of
        None \<Rightarrow> None
      | Some v4 \<Rightarrow>
          (let u = get32 v4 in
           Some (join '','' ((if u > 0 then [''0.0.0.0-'' @ uint32_to_ip (u - 1)] else [])
                        @ (if u < 0xFFFFFFFF then [uint32_to_ip (u + 1) @ ''-255.255.255.255''] else [])))))"

definition win_unlock_dns :: cmd where
  "win_unlock_dns = netsh [''advfirewall'', ''firewall'', ''delete'', ''rule'', ''name='' @ dns_rule]"

definition win_block_rule :: "string \<Rightarrow> string \<Rightarrow> cmd" where
  "win_block_rule proto rng = netsh [''advfirewall'', ''firewall'', ''add'', ''rule'', ''name='' @ dns_rule,
     ''dir=out'', ''action=block'', ''protocol='' @ proto, ''remoteport=53'', ''remoteip='' @ rng]"

definition win_lock_dns :: "runner \<Rightarrow> ip \<Rightarrow> cmd list \<Rightarrow> bool \<times> cmd list" where
  "win_lock_dns run a h =
     (case complement_range a of
        None \<Rightarrow> (False, h @ [win_unlock_dns])
      | Some rng \<Rightarrow> run_all run [win_block_rule ''UDP'' rng, win_block_rule ''TCP'' rng] (h @ [win_unlock_dns]))"

definition win_ipv6 :: "string \<Rightarrow> string list \<Rightarrow> string \<Rightarrow> string \<Rightarrow> cmd" where
  "win_ipv6 verb tail name p = netsh ([''interface'', ''ipv6'', verb, ''route'', ''prefix='' @ p, ''interface='' @ name] @ tail)"

definition win_block_ipv6 :: "string \<Rightarrow> cmd list" where
  "win_block_ipv6 name = map (win_ipv6 ''add'' [''store=active''] name) ipv6_halves"

definition win_unblock_ipv6 :: "string \<Rightarrow> cmd list" where
  "win_unblock_ipv6 name = map (win_ipv6 ''delete'' [] name) ipv6_halves"

section \<open>The range without the resolver\<close>

definition complement_parts :: "u32 \<Rightarrow> (u32 \<times> u32) list" where
  "complement_parts u = (if u > 0 then [(0, u - 1)] else []) @ (if u < 0xFFFFFFFF then [(u + 1, 0xFFFFFFFF)] else [])"

definition range_text :: "u32 \<times> u32 \<Rightarrow> string" where
  "range_text r = uint32_to_ip (fst r) @ ''-'' @ uint32_to_ip (snd r)"

lemma dec_samples: "dec 0 = ''0''" "dec 255 = ''255''"
  by (simp_all add: dec.simps digit_def char_of_def bit_Suc_0_iff)

lemma uint32_ends: "uint32_to_ip 0 = ''0.0.0.0''" "uint32_to_ip 0xFFFFFFFF = ''255.255.255.255''"
proof -
  have "put32 0 = [0, 0, 0, 0]" "put32 0xFFFFFFFF = [255, 255, 255, 255]"
    by (simp_all add: put32_def)
  then show "uint32_to_ip 0 = ''0.0.0.0''" "uint32_to_ip 0xFFFFFFFF = ''255.255.255.255''"
    by (simp_all add: uint32_to_ip_def ip_string_def to4_def ip4_string_def dec_samples)
qed

lemma complement_text:
  "to4 a = Some v \<Longrightarrow> complement_range a = Some (join '','' (map range_text (complement_parts (get32 v))))"
  by (simp add: complement_range_def complement_parts_def range_text_def uint32_ends Let_def)

lemma complement_covers: "(\<exists>r \<in> set (complement_parts u). fst r \<le> x \<and> x \<le> snd r) \<longleftrightarrow> x \<noteq> u"
proof -
  have lt: "x \<le> u - 1 \<longleftrightarrow> x < u" if "0 < u"
    using that by (simp add: word_le_nat_alt word_less_nat_alt unat_sub_if') arith
  have gt: "u + 1 \<le> x \<longleftrightarrow> u < x" if "u < 0xFFFFFFFF"
    using that unat32_less[of u] by (simp add: word_le_nat_alt word_less_nat_alt unat_word_ariths Suc_le_eq)
  have top: "x \<le> 0xFFFFFFFF" for x :: u32
    using unat32_less[of x] by (simp add: word_le_nat_alt)
  have "u = 0 \<or> 0 < u" "u = 0xFFFFFFFF \<or> u < 0xFFFFFFFF"
    using top[of u] by (auto simp: word_gt_0 le_less)
  then show ?thesis
    using lt gt top[of x] by (auto simp: complement_parts_def word_neq_0_conv not_le)
qed

section \<open>The buffer of itoa\<close>

lemma itoa_loop_room: "itoa_loop room n acc = (if n < 10 ^ room then Some ((if n = 0 then [] else dec n) @ acc) else None)"
proof (induction room n acc rule: itoa_loop.induct)
  case (1 room n acc)
  show ?case
  proof (cases "n = 0 \<or> room = 0")
    case True
    then show ?thesis by (subst itoa_loop.simps) auto
  next
    case False
    then obtain k where k: "room = Suc k" by (cases room) auto
    have fit: "n div 10 < 10 ^ k \<longleftrightarrow> n < 10 ^ room"
      by (auto simp: k div_less_iff_less_mult mult.commute)
    have "dec n = (if n div 10 = 0 then [] else dec (n div 10)) @ [digit (n mod 10)]"
      by (subst dec.simps) (auto simp: div_eq_0_iff)
    with False fit "1.IH" show ?thesis
      by (subst itoa_loop.simps) (simp add: k)
  qed
qed

section \<open>The OUTPUT chain\<close>

text \<open>The rules of the kill-switch for a resolver.\<close>

definition lock_rules :: "ip \<Rightarrow> string list set" where
  "lock_rules a = {accept_rule ''udp'' (ip_string a), accept_rule ''tcp'' (ip_string a), drop_rule ''udp'', drop_rule ''tcp''}"

definition locked :: "ip \<Rightarrow> string list list \<Rightarrow> string list list" where
  "locked a c = [accept_rule ''tcp'' (ip_string a), accept_rule ''udp'' (ip_string a)] @ c @ [drop_rule ''udp'', drop_rule ''tcp'']"

definition unlocked :: "string \<Rightarrow> string list list \<Rightarrow> string list list" where
  "unlocked a c = remove1 (accept_rule ''tcp'' a) (remove1 (drop_rule ''tcp'')
     (remove1 (accept_rule ''udp'' a) (remove1 (drop_rule ''udp'') c)))"

lemma distinct_rules:
  "accept_rule p a \<noteq> drop_rule q" "drop_rule q \<noteq> accept_rule p a"
  "accept_rule ''udp'' a \<noteq> accept_rule ''tcp'' a" "accept_rule ''tcp'' a \<noteq> accept_rule ''udp'' a"
  "drop_rule ''udp'' \<noteq> drop_rule ''tcp''" "drop_rule ''tcp'' \<noteq> drop_rule ''udp''"
  by (simp_all add: accept_rule_def drop_rule_def)

lemma unlocked_locked: "set c \<inter> lock_rules a = {} \<Longrightarrow> unlocked (ip_string a) (locked a c) = c"
  by (simp add: unlocked_def locked_def lock_rules_def distinct_rules remove1_append)

text \<open>A second lock on top of a first is taken away as a whole.\<close>

lemma unlocked_twice: "set c \<inter> lock_rules a = {} \<Longrightarrow> mset (unlocked (ip_string a) (locked a (locked a c))) = mset (locked a c)"
  by (simp add: unlocked_def locked_def lock_rules_def distinct_rules remove1_append)

text \<open>What the kill-switch relies on of \<open>iptables\<close>: \<open>-I\<close> puts a rule in front, \<open>-A\<close> at the end, \<open>-D\<close> takes the
  first copy away.\<close>

locale iptables_tool =
  fixes chain :: "cmd list \<Rightarrow> string list list"
  assumes chain_insert: "chain (h @ [iptables ([''-I'', ''OUTPUT'', ''1''] @ r)]) = r # chain h"
    and chain_append: "chain (h @ [iptables ([''-A'', ''OUTPUT''] @ r)]) = chain h @ [r]"
    and chain_delete: "chain (h @ [iptables ([''-D'', ''OUTPUT''] @ r)]) = remove1 r (chain h)"
begin

lemma after_lock: "chain (h @ fst (linux_lock_dns a d)) = locked a (chain h)"
proof -
  let ?i = "\<lambda>p. iptables ([''-I'', ''OUTPUT'', ''1''] @ accept_rule p (ip_string a))"
  let ?a = "\<lambda>p. iptables ([''-A'', ''OUTPUT''] @ drop_rule p)"
  have eq: "h @ fst (linux_lock_dns a d) = (((h @ [?i ''udp'']) @ [?a ''udp'']) @ [?i ''tcp'']) @ [?a ''tcp'']"
    by (simp add: linux_lock_dns_def dns_protos_def)
  show ?thesis
    unfolding eq by (simp only: chain_insert chain_append) (simp add: locked_def)
qed

lemma after_unlock:
  assumes "ld_lock d \<noteq> []"
  shows "chain (h @ fst (linux_unlock_dns d)) = unlocked (ld_lock d) (chain h)"
proof -
  let ?d = "\<lambda>r. iptables ([''-D'', ''OUTPUT''] @ r)"
  have eq: "h @ fst (linux_unlock_dns d) = (((h @ [?d (drop_rule ''udp'')]) @ [?d (accept_rule ''udp'' (ld_lock d))])
      @ [?d (drop_rule ''tcp'')]) @ [?d (accept_rule ''tcp'' (ld_lock d))]"
    using assms by (simp add: linux_unlock_dns_def dns_protos_def)
  show ?thesis
    unfolding eq by (simp only: chain_delete) (simp add: unlocked_def)
qed

lemma session_chain:
  assumes "linux_lock_dns a d = (lock, d')" and "ip_string a \<noteq> []"
  shows "chain (h @ lock @ fst (linux_unlock_dns d')) = unlocked (ip_string a) (locked a (chain h))"
proof -
  have d': "ld_lock d' = ip_string a" "lock = fst (linux_lock_dns a d)"
    using assms(1) by (auto simp: linux_lock_dns_def)
  have "chain ((h @ lock) @ fst (linux_unlock_dns d')) = unlocked (ld_lock d') (chain (h @ lock))"
    using assms(2) by (intro after_unlock) (simp add: d')
  then show ?thesis
    by (simp add: d' after_lock)
qed

end

text \<open>The chain after a history of commands.\<close>

definition chain_effect :: "cmd \<Rightarrow> string list list \<Rightarrow> string list list" where
  "chain_effect c C =
     (let a = snd c in
      if take 1 a = [''-I''] then drop 3 a # C
      else if take 1 a = [''-A''] then C @ [drop 2 a]
      else if take 1 a = [''-D''] then remove1 (drop 2 a) C
      else C)"

definition chain_after :: "cmd list \<Rightarrow> string list list" where
  "chain_after h = fold chain_effect h []"

interpretation output_chain: iptables_tool chain_after
  by unfold_locales (simp_all add: chain_after_def chain_effect_def iptables_def)

section \<open>Properties\<close>

text \<open>The DNS kill-switch on Linux: for a tool that keeps a chain as its commands say, locking puts the
  accepting rules for the resolver first and the dropping rules last, behind every rule already
  there, and unlocking gives the chain back. It is not idempotent: over a lock that a crash left
  behind, a whole session locks again and leaves all four rules in place.\<close>

theorem kill_switch_chain:
  assumes "\<And>h r. chain (h @ [iptables ([''-I'', ''OUTPUT'', ''1''] @ r)]) = r # chain h"
    and "\<And>h r. chain (h @ [iptables ([''-A'', ''OUTPUT''] @ r)]) = chain h @ [r]"
    and "\<And>h r. chain (h @ [iptables ([''-D'', ''OUTPUT''] @ r)]) = remove1 r (chain h)"
    and "set (chain h) \<inter> lock_rules a = {}" and "ip_string a \<noteq> []" and "linux_lock_dns a d = (lock, d')"
  shows "chain (h @ lock) = [accept_rule ''tcp'' (ip_string a), accept_rule ''udp'' (ip_string a)] @ chain h
      @ [drop_rule ''udp'', drop_rule ''tcp'']
    \<and> chain (h @ lock @ fst (linux_unlock_dns d')) = chain h
    \<and> lock_rules a \<subseteq> set (chain ((h @ lock) @ lock @ fst (linux_unlock_dns d')))"
proof -
  note tool = iptables_tool.intro[OF assms(1-3)]
  have lock: "chain (h @ lock) = locked a (chain h)" for h
    using iptables_tool.after_lock[OF tool, of h a d] assms(6) by simp
  have "chain (h @ lock @ fst (linux_unlock_dns d')) = chain h"
    using iptables_tool.session_chain[OF tool assms(6,5)] unlocked_locked[OF assms(4)] by simp
  moreover have "mset (chain ((h @ lock) @ lock @ fst (linux_unlock_dns d'))) = mset (locked a (chain h))"
    using iptables_tool.session_chain[OF tool assms(6,5), of "h @ lock"] unlocked_twice[OF assms(4)] lock by simp
  then have "set (chain ((h @ lock) @ lock @ fst (linux_unlock_dns d'))) = set (locked a (chain h))"
    by (rule mset_eq_setD)
  ultimately show ?thesis
    using lock by (auto simp: locked_def lock_rules_def)
qed

theorem kill_switch_chain_witness:
  "\<exists>lock d'. linux_lock_dns [10, 8, 0, 1] \<lparr>ld_name = ''tun0'', ld_lock = []\<rparr> = (lock, d')
     \<and> chain_after (lock @ fst (linux_unlock_dns d')) = []
     \<and> drop_rule ''udp'' \<in> set (chain_after (lock @ lock @ fst (linux_unlock_dns d')))"
proof -
  obtain lock d' where l: "linux_lock_dns [10, 8, 0, 1] \<lparr>ld_name = ''tun0'', ld_lock = []\<rparr> = (lock, d')"
    by (metis prod.exhaust)
  have e: "chain_after [] = []" "ip_string [10, 8, 0, 1] \<noteq> []"
    by (simp_all add: chain_after_def ip_string_def to4_def ip4_string_def)
  have "chain_after ([] @ lock @ fst (linux_unlock_dns d')) = chain_after []
      \<and> lock_rules [10, 8, 0, 1] \<subseteq> set (chain_after (([] @ lock) @ lock @ fst (linux_unlock_dns d')))"
    using kill_switch_chain[OF output_chain.chain_insert output_chain.chain_append output_chain.chain_delete _ e(2) l,
        of "[]"] e(1) by simp
  with l e(1) show ?thesis by (auto simp: lock_rules_def)
qed

text \<open>The kill-switch on Windows: the remote addresses of the blocking rules, two ranges or one at either
  end, contain every IPv4 address but the resolver's.\<close>

theorem complement_exact:
  assumes "to4 a = Some v"
  shows "\<exists>rs. complement_range a = Some (join '','' (map (\<lambda>r. uint32_to_ip (fst r) @ ''-'' @ uint32_to_ip (snd r)) rs))
    \<and> (\<forall>x. (\<exists>r \<in> set rs. fst r \<le> x \<and> x \<le> snd r) \<longleftrightarrow> x \<noteq> get32 v)"
  using complement_text[OF assms] complement_covers
  by (intro exI[of _ "complement_parts (get32 v)"]) (simp add: range_text_def[abs_def])

theorem complement_exact_witness:
  "\<exists>rs. complement_range [10, 8, 0, 1] = Some (join '','' (map (\<lambda>r. uint32_to_ip (fst r) @ ''-'' @ uint32_to_ip (snd r)) rs))
    \<and> (\<exists>r \<in> set rs. fst r \<le> 0x08080808 \<and> (0x08080808 :: u32) \<le> snd r)"
proof -
  have "get32 [10, 8, 0, 1] = (0x0A080001 :: u32)"
    by (simp add: get32_def)
  then show ?thesis
    using complement_exact[of "[10, 8, 0, 1]" "[10, 8, 0, 1]"] by (auto simp: to4_def)
qed

text \<open>The resolver file: however often the resolver is set, restoring gives back the file there was before,
  and the backup is gone; where there was no file, the first setting stays.\<close>

theorem resolver_restored:
  assumes "resolv_backup f = None" and "as \<noteq> []"
  shows "snd (restore_dns True (fold (\<lambda>a f. snd (set_dns True True a f)) as f))
    = (case resolv_conf f of Some _ \<Rightarrow> f | None \<Rightarrow> f\<lparr>resolv_conf := Some (resolv_content (hd as))\<rparr>)"
proof (cases "resolv_conf f")
  case (Some d)
  have "fold (\<lambda>a f. snd (set_dns True True a f)) as f =
      f\<lparr>resolv_conf := Some (resolv_content (last as)), resolv_backup := Some d\<rparr>"
    using assms(2)
  proof (induction as rule: rev_induct)
    case (snoc a as)
    then show ?case
      using assms(1) Some by (cases "as = []") (simp_all add: set_dns_def)
  qed simp
  with Some assms(1) show ?thesis by (cases f) (simp add: restore_dns_def)
next
  case None
  have "fold (\<lambda>a f. snd (set_dns True True a f)) as f =
      f\<lparr>resolv_conf := Some (resolv_content (last as)),
        resolv_backup := (if tl as = [] then None else Some (resolv_content (hd as)))\<rparr>"
    using assms(2)
  proof (induction as rule: rev_induct)
    case (snoc a as)
    show ?case
    proof (cases "as = []")
      case True
      with assms(1) None show ?thesis by (cases f) (simp add: set_dns_def)
    next
      case False
      with snoc show ?thesis by (cases as rule: list.exhaust) (auto simp: set_dns_def)
    qed
  qed simp
  with None assms show ?thesis
    by (cases f; cases as) (auto simp: restore_dns_def)
qed

theorem resolver_restored_witness:
  "snd (restore_dns True (fold (\<lambda>a f. snd (set_dns True True a f)) [[10, 8, 0, 1], [10, 8, 0, 1]]
     \<lparr>resolv_conf = Some ''nameserver 1.1.1.1'', resolv_backup = None\<rparr>))
   = \<lparr>resolv_conf = Some ''nameserver 1.1.1.1'', resolv_backup = None\<rparr>"
  using resolver_restored[of "\<lparr>resolv_conf = Some ''nameserver 1.1.1.1'', resolv_backup = None\<rparr>"
      "[[10, 8, 0, 1], [10, 8, 0, 1]]"] by simp

text \<open>\<open>itoa\<close> renders a number of at most twelve digits as decimal, zero included, and indexes out of its
  buffer on every larger one; a negative number becomes the empty string.\<close>

theorem itoa_exact:
  "itoa n = (if n < 0 then Some [] else if n < 10 ^ 12 then Some (dec (nat n)) else None)"
proof -
  have "nat n < 10 ^ 12 \<longleftrightarrow> n < 10 ^ 12" if "0 \<le> n"
    using that by (simp add: nat_less_iff)
  then show ?thesis
    by (auto simp: itoa_def itoa_loop_room dec_samples)
qed

end
