(* ===== verification/TunIO.thy ===== *)
theory TunIO
  imports Tun
begin

text \<open>
  Packets in and out of the adapter, \<open>common/tun\<close>: opening it on Linux and on Windows, reading, writing
  and closing. What the kernel and the WinTun driver answer is an argument; handles are numbers,
  0 the invalid one. The concurrency of \<open>Read\<close>, \<open>Write\<close> and \<open>Close\<close> on Windows is a step relation
  whose steps are the driver's calls.
\<close>

section \<open>Linux\<close>

datatype tun_error = NoTunDevice | IoctlFailed | NoDll | CreateFailed | SessionFailed

definition if_name :: "bytes \<Rightarrow> bytes" where
  "if_name s = take 16 (s @ replicate 16 0)"

text \<open>The interface name the kernel left in the request, up to its first zero byte.\<close>

definition linux_open :: "bool \<Rightarrow> (bytes \<Rightarrow> bytes option) \<Rightarrow> bytes \<Rightarrow> int \<Rightarrow> tun_error + bytes \<times> int" where
  "linux_open dev_ok ioctl name mtu =
     (if \<not> dev_ok then Inl NoTunDevice
      else case ioctl (if_name name) of
        None \<Rightarrow> Inl IoctlFailed
      | Some nm \<Rightarrow> Inr (takeWhile (\<lambda>b. b \<noteq> 0) nm, mtu))"

section \<open>Windows\<close>

datatype drv_call = DrvOpen string | DrvCreate string | DrvStart nat | DrvClose nat | DrvEnd nat
  | DrvReceive nat | DrvRelease nat | DrvAlloc nat nat | DrvSend nat

record win_dev =
  wd_adapter :: nat
  wd_session :: nat
  wd_name :: string
  wd_mtu :: int
  wd_closed :: bool

definition win_open :: "bool \<Rightarrow> nat \<Rightarrow> nat \<Rightarrow> nat \<Rightarrow> string \<Rightarrow> int \<Rightarrow> drv_call list \<times> (tun_error + win_dev)" where
  "win_open dll opened created session name mtu =
     (if \<not> dll then ([], Inl NoDll)
      else let adapter = (if opened = 0 then created else opened);
               calls = DrvOpen name # (if opened = 0 then [DrvCreate name] else [])
           in if adapter = 0 then (calls, Inl CreateFailed)
              else if session = 0 then (calls @ [DrvStart adapter, DrvClose adapter], Inl SessionFailed)
              else (calls @ [DrvStart adapter], Inr \<lparr>wd_adapter = adapter, wd_session = session, wd_name = name,
                      wd_mtu = mtu, wd_closed = False\<rparr>))"

text \<open>A poll of \<open>Read\<close>: whether the device is closed when it is checked, and what the driver then answers.\<close>

datatype received = Packet bytes | NoMoreItems | ReceiveFailed

datatype read_result = ReadEOF | ReadPacket bytes | ReadError

fun win_read :: "nat \<Rightarrow> nat \<Rightarrow> (bool \<times> received) list \<Rightarrow> drv_call list \<times> read_result option" where
  "win_read session room [] = ([], None)"
| "win_read session room ((closed, r) # ps) =
     (if closed then ([], Some ReadEOF)
      else case r of
        Packet p \<Rightarrow> ([DrvReceive session, DrvRelease session], Some (ReadPacket (take room p)))
      | NoMoreItems \<Rightarrow> (case win_read session room ps of (cs, x) \<Rightarrow> (DrvReceive session # cs, x))
      | ReceiveFailed \<Rightarrow> ([DrvReceive session], Some ReadError))"

definition win_write :: "nat \<Rightarrow> bool \<Rightarrow> bytes \<Rightarrow> drv_call list \<times> bytes option" where
  "win_write session alloc_ok buf =
     (if \<not> alloc_ok then ([DrvAlloc session (length buf)], None)
      else ([DrvAlloc session (length buf), DrvSend session], Some buf))"

definition win_close :: "win_dev \<Rightarrow> drv_call list \<times> win_dev" where
  "win_close d =
     (if wd_closed d then ([], d)
      else ([DrvEnd (wd_session d), DrvClose (wd_adapter d)], d\<lparr>wd_closed := True\<rparr>))"

section \<open>Read, Write and Close together\<close>

datatype reader = ReadIdle | ReadChecked
datatype writer = WriteIdle | WriteAllocated
datatype closer = CloseIdle | CloseSleeping | SessionEnded | AdapterClosed

record dev_state =
  dv_closed :: bool
  dv_reader :: reader
  dv_writer :: writer
  dv_closer :: closer
  dv_misuse :: bool

definition session_gone :: "dev_state \<Rightarrow> bool" where
  "session_gone d \<longleftrightarrow> dv_closer d = SessionEnded \<or> dv_closer d = AdapterClosed"

text \<open>A call of the driver on the session; on an ended session it is a misuse.\<close>

definition use_session :: "dev_state \<Rightarrow> dev_state" where
  "use_session d = d\<lparr>dv_misuse := (dv_misuse d \<or> session_gone d)\<rparr>"

definition fresh_dev :: dev_state where
  "fresh_dev = \<lparr>dv_closed = False, dv_reader = ReadIdle, dv_writer = WriteIdle, dv_closer = CloseIdle, dv_misuse = False\<rparr>"

text \<open>
  The steps. \<open>settled\<close> says that the ten milliseconds \<open>Close\<close> sleeps are enough for a reader past its check
  to make its call; the flag says whether the step is one of \<open>Write\<close>.
\<close>

inductive dev_step :: "bool \<Rightarrow> dev_state \<Rightarrow> bool \<Rightarrow> dev_state \<Rightarrow> bool" for settled where
  check: "dv_reader d = ReadIdle \<Longrightarrow> \<not> dv_closed d \<Longrightarrow> dev_step settled d False (d\<lparr>dv_reader := ReadChecked\<rparr>)"
| eof: "dv_reader d = ReadIdle \<Longrightarrow> dv_closed d \<Longrightarrow> dev_step settled d False d"
| receive: "dv_reader d = ReadChecked \<Longrightarrow> dev_step settled d False ((use_session d)\<lparr>dv_reader := ReadIdle\<rparr>)"
| alloc: "dv_writer d = WriteIdle \<Longrightarrow> dev_step settled d True ((use_session d)\<lparr>dv_writer := WriteAllocated\<rparr>)"
| alloc_failed: "dv_writer d = WriteIdle \<Longrightarrow> dev_step settled d True (use_session d)"
| send: "dv_writer d = WriteAllocated \<Longrightarrow> dev_step settled d True ((use_session d)\<lparr>dv_writer := WriteIdle\<rparr>)"
| close: "\<not> dv_closed d \<Longrightarrow> dev_step settled d False (d\<lparr>dv_closed := True, dv_closer := CloseSleeping\<rparr>)"
| close_again: "dv_closed d \<Longrightarrow> dev_step settled d False d"
| end_session: "dv_closer d = CloseSleeping \<Longrightarrow> (settled \<longrightarrow> dv_reader d = ReadIdle)
    \<Longrightarrow> dev_step settled d False (d\<lparr>dv_closer := SessionEnded\<rparr>)"
| close_adapter: "dv_closer d = SessionEnded \<Longrightarrow> dev_step settled d False (d\<lparr>dv_closer := AdapterClosed\<rparr>)"

inductive_cases dev_stepE: "dev_step settled d w d'"

inductive dev_run :: "bool \<Rightarrow> bool list \<Rightarrow> dev_state \<Rightarrow> bool" for settled where
  start: "dev_run settled [] fresh_dev"
| step: "dev_run settled ws d \<Longrightarrow> dev_step settled d w d' \<Longrightarrow> dev_run settled (ws @ [w]) d'"

text \<open>Once closing has begun the device is marked; past the sleep no reader is between check and call.\<close>

definition dev_ok :: "dev_state \<Rightarrow> bool" where
  "dev_ok d \<longleftrightarrow> (dv_closer d \<noteq> CloseIdle \<longrightarrow> dv_closed d) \<and> (session_gone d \<longrightarrow> dv_reader d = ReadIdle)"

lemma dev_ok_fresh: "dev_ok fresh_dev"
  by (simp add: dev_ok_def fresh_dev_def session_gone_def)

lemma dev_ok_step: "dev_step True d w d' \<Longrightarrow> dev_ok d \<Longrightarrow> dev_ok d'"
  by (erule dev_stepE) (auto simp: dev_ok_def session_gone_def use_session_def)

lemma dev_run_ok: "dev_run True ws d \<Longrightarrow> dev_ok d"
  by (induction rule: dev_run.induct) (auto intro: dev_ok_fresh dev_ok_step)

lemma reads_never_misuse: "dev_step True d False d' \<Longrightarrow> dev_ok d \<Longrightarrow> dv_misuse d' = dv_misuse d"
  by (erule dev_stepE) (auto simp: dev_ok_def use_session_def)

section \<open>Properties\<close>

lemma win_read_result:
  assumes "win_read session room ps = (cs, Some x)"
  shows "\<exists>qs closed r rest. ps = qs @ (closed, r) # rest \<and> list_all (\<lambda>(c, q). \<not> c \<and> q = NoMoreItems) qs
    \<and> x = (if closed then ReadEOF else case r of Packet p \<Rightarrow> ReadPacket (take room p) | _ \<Rightarrow> ReadError)
    \<and> cs = replicate (length qs) (DrvReceive session)
        @ (if closed then [] else case r of Packet p \<Rightarrow> [DrvReceive session, DrvRelease session] | _ \<Rightarrow> [DrvReceive session])"
  using assms
proof (induction session room ps arbitrary: cs rule: win_read.induct)
  case (2 session room closed r ps)
  show ?case
  proof (cases "\<not> closed \<and> r = NoMoreItems")
    case True
    then obtain cs' where c: "win_read session room ps = (cs', Some x)" "cs = DrvReceive session # cs'"
      using "2.prems" by (auto split: prod.splits)
    then obtain qs cl q rest where "ps = qs @ (cl, q) # rest" "list_all (\<lambda>(c, q). \<not> c \<and> q = NoMoreItems) qs"
        "x = (if cl then ReadEOF else case q of Packet p \<Rightarrow> ReadPacket (take room p) | _ \<Rightarrow> ReadError)"
        "cs' = replicate (length qs) (DrvReceive session)
          @ (if cl then [] else case q of Packet p \<Rightarrow> [DrvReceive session, DrvRelease session] | _ \<Rightarrow> [DrvReceive session])"
      using "2.IH"[of cs'] True by auto
    then show ?thesis using True c(2)
      by (intro exI[of _ "(closed, r) # qs"] exI[of _ cl] exI[of _ q] exI[of _ rest]) simp
  next
    case False
    then show ?thesis using "2.prems"
      by (intro exI[of _ "[]"] exI[of _ closed] exI[of _ r] exI[of _ ps]) (auto split: received.splits)
  qed
qed simp



text \<open>Reading on Windows: a read that returns polled the driver until the device was marked closed, or a
  packet or an error came; it gives end of file without a further call, the packet cut to the
  buffer and its memory released, or the error; and a second Close calls nothing.\<close>

theorem adapter_read_exact:
  assumes "win_read session room ps = (cs, Some x)"
  shows "\<exists>qs closed r rest. ps = qs @ (closed, r) # rest \<and> list_all (\<lambda>(c, q). \<not> c \<and> q = NoMoreItems) qs
    \<and> x = (if closed then ReadEOF else case r of Packet p \<Rightarrow> ReadPacket (take room p) | _ \<Rightarrow> ReadError)
    \<and> cs = replicate (length qs) (DrvReceive session)
        @ (if closed then [] else case r of Packet p \<Rightarrow> [DrvReceive session, DrvRelease session] | _ \<Rightarrow> [DrvReceive session])
    \<and> win_close (snd (win_close d)) = ([], snd (win_close d))"
  using win_read_result[OF assms] by (simp add: win_close_def)

theorem adapter_read_exact_witness:
  "win_read 3 2 [(False, NoMoreItems), (False, Packet [1, 2, 3]), (True, NoMoreItems)]
     = ([DrvReceive 3, DrvReceive 3, DrvRelease 3], Some (ReadPacket [1, 2]))"
  using adapter_read_exact[of 3 2 "[(False, NoMoreItems), (False, Packet [1, 2, 3]), (True, NoMoreItems)]"] by simp

end
