(* ===== verification/Link.thy ===== *)
theory Link
  imports Startup
begin

text \<open>
  The control link between a slave and its master, from both ends: the slave's control loop of
  \<open>slave/main.go\<close> from the TLS dial to the last frame it reads, its reconnection loop, and what the
  master's handler of \<open>Control\<close> makes of what the slave sends. TLS is not modelled: whether the
  certificate is made, the dial succeeds and a write goes through, and the bytes that arrive
  before the read fails or its deadline passes, are arguments.
\<close>

section \<open>The control loop of the slave\<close>

record link_env =
  lk_cert :: bool
  lk_dial :: "bool \<Rightarrow> bool"
  lk_write :: bool
  lk_ticks :: nat
  lk_stream :: bytes
  lk_rnds :: "bytes option list"

text \<open>Whether the dial verifies the master's certificate: only with a CA file configured.\<close>

definition skip_verify :: "slave_config \<Rightarrow> bool" where
  "skip_verify c = (if sf_ca c \<noteq> [] then False else sf_ca c = [])"

definition registration :: "slave_config \<Rightarrow> slave_info" where
  "registration c = \<lparr>si_id = sf_id c, si_udp = sf_listen_udp c, si_data = sf_listen_dp c\<rparr>"

definition run_control_loop ::
    "(slave_info \<Rightarrow> bytes) \<Rightarrow> (bytes \<Rightarrow> slave_session option) \<Rightarrow> ((string \<times> nat) list \<Rightarrow> (string \<times> nat) list)
      \<Rightarrow> link_env \<Rightarrow> slave_config \<Rightarrow> slave_server \<Rightarrow> bytes \<times> slave_server" where
  "run_control_loop encode decode order v c s =
     (if \<not> lk_cert v then ([], s)
      else if \<not> lk_dial v (skip_verify c) then ([], s)
      else if \<not> lk_write v then ([], s)
      else (slave_write_frame 4 (encode (registration c)) @ concat (replicate (lk_ticks v) (slave_write_frame 1 [])),
            control_run decode order (lk_rnds v) (master_to_slave.read_all (lk_stream v)) s))"

text \<open>\<open>connectMaster\<close>: the loop run again after each error, with the wait in seconds before the next try.\<close>

fun connect_master ::
    "(slave_info \<Rightarrow> bytes) \<Rightarrow> (bytes \<Rightarrow> slave_session option) \<Rightarrow> ((string \<times> nat) list \<Rightarrow> (string \<times> nat) list)
      \<Rightarrow> link_env list \<Rightarrow> nat \<Rightarrow> slave_config \<Rightarrow> slave_server \<Rightarrow> (bytes \<times> nat) list \<times> slave_server" where
  "connect_master encode decode order [] wait c s = ([], s)"
| "connect_master encode decode order (v # vs) wait c s =
     (case run_control_loop encode decode order v c s of (out, s1) \<Rightarrow>
        (case connect_master encode decode order vs (if wait < 30 then 2 * wait else wait) c s1 of
           (outs, s2) \<Rightarrow> ((out, wait) # outs, s2)))"

section \<open>What the master reads\<close>

lemma keepalive_frames: "concat (replicate n (slave_write_frame 1 [])) = concat (map (\<lambda>(t, p). slave_write_frame t p) (replicate n (1, [])))"
  by (induction n) simp_all

lemma read_keepalives: "slave_to_master.read_all (concat (replicate n (slave_write_frame 1 []))) = replicate n (1, [])"
  unfolding keepalive_frames by (rule slave_to_master.read_all_concat) (simp add: list_all_iff)

lemma registration_read:
  assumes "length p < 65536"
  shows "read_frame (slave_write_frame 4 p @ r) = Some ((4, p), r)"
  using slave_to_master.dec_enc[of "(4, p)" r] assms by simp

lemma connect_master_waits:
  "map snd (fst (connect_master encode decode order vs (backoff n) c s)) = map backoff [n..<n + length vs]"
proof (induction vs arbitrary: n s)
  case (Cons v vs)
  have step: "(if backoff n < 30 then 2 * backoff n else backoff n) = backoff (Suc n)" by simp
  have up: "[n..<n + length (v # vs)] = n # [Suc n..<Suc n + length vs]" by (simp add: upt_conv_Cons del: upt_Suc)
  obtain out s1 where run: "run_control_loop encode decode order v c s = (out, s1)"
    by (cases "run_control_loop encode decode order v c s")
  obtain outs s2 where rest: "connect_master encode decode order vs (backoff (Suc n)) c s1 = (outs, s2)"
    by (cases "connect_master encode decode order vs (backoff (Suc n)) c s1")
  have "map snd outs = map backoff [Suc n..<Suc n + length vs]"
    using Cons.IH[of "Suc n" s1] unfolding rest by simp
  then show ?case
    unfolding up connect_master.simps run step prod.case rest by simp
qed simp

section \<open>Properties\<close>

text \<open>C17. A slave joins its master: when the link comes up, the first frame the slave sends makes the master
  register a slave under its id, with its client and data-plane addresses where a wildcard is
  replaced by the host the connection comes from, what follows reads as keepalives, and the
  sessions the slave then has are those of the master's messages handled in order, up to where
  the stream is cut.\<close>

theorem slave_joins_master:
  assumes "run_control_loop encode decode order v c s = (out, s')" and "lk_cert v" and "lk_dial v (skip_verify c)" and "lk_write v"
    and "dj (encode (registration c)) = Some (registration c)" and "length (encode (registration c)) < 65536"
    and "registry_inv r" and "split_host_port remote = Some (host, rport)" and "host \<noteq> []"
    and "sf_listen_udp c = ''0.0.0.0:'' @ port" and "plain_host port"
    and "lk_stream v = concat (map (\<lambda>(t, p). send_frame t p) ms) @ torn" and "slave_read_frame torn = None"
    and "list_all (\<lambda>(t, p). length p < 65536) ms"
  shows "\<exists>first rest p call r'. read_frame out = Some (first, rest) \<and> slave_hello dj conn remote now (Some first) r = (Some (p, call), r')
    \<and> registry_inv r' \<and> registry_by_id (sf_id c) r' = Some p \<and> sl_udp (conns r' ! p) = join_host_port host port
    \<and> call = (let d = routable_addr (sf_listen_dp c) host in if d \<noteq> [] then Some (sf_id c, d) else None)
    \<and> slave_to_master.read_all rest = replicate (lk_ticks v) (MsgKeepalive, [])
    \<and> s' = control_run decode order (lk_rnds v) ms s"
proof -
  let ?p = "encode (registration c)" and ?rest = "concat (replicate (lk_ticks v) (slave_write_frame 1 []))"
  have out: "out = slave_write_frame 4 ?p @ ?rest"
    and s': "s' = control_run decode order (lk_rnds v) (master_to_slave.read_all (lk_stream v)) s"
    using assms(1-4) by (auto simp: run_control_loop_def)
  have ms: "master_to_slave.read_all (lk_stream v) = ms"
    using master_to_slave.read_all_split[of ms torn] assms(12-14) by (simp add: master_to_slave.read_all.simps[of torn])
  let ?udp = "join_host_port host port" and ?d = "routable_addr (sf_listen_dp c) host"
  let ?r = "register (length (conns r)) (r\<lparr>conns := conns r @ [\<lparr>c_conn = conn, sl_id = sf_id c, sl_udp = ?udp, sl_seen = now\<rparr>]\<rparr>)"
  have hello: "slave_hello dj conn remote now (Some (4, ?p)) r
      = (Some (length (conns r), if ?d \<noteq> [] then Some (sf_id c, ?d) else None), ?r)"
    using assms(5,8-11) routable_wildcard[OF assms(11,9)]
    by (simp add: slave_hello_def MsgSlaveInfo_def registration_def Let_def)
  have reg: "registry_inv ?r" "registry_by_id (sf_id c) ?r = Some (length (conns r))"
    using slave_hello_registers[OF hello assms(7)] by (simp_all add: register_def)
  have udp: "sl_udp (conns ?r ! length (conns r)) = ?udp" by (simp add: register_def)
  show ?thesis
    using registration_read[OF assms(6), of ?rest] hello reg udp read_keepalives[of "lk_ticks v"] s' ms out
    by (intro exI[of _ "(4, ?p)"] exI[of _ ?rest] exI[of _ "length (conns r)"]
        exI[of _ "if ?d \<noteq> [] then Some (sf_id c, ?d) else None"] exI[of _ ?r]) (simp add: MsgKeepalive_def Let_def)
qed

definition sample_link :: link_env where
  "sample_link = \<lparr>lk_cert = True, lk_dial = (\<lambda>skip. skip), lk_write = True, lk_ticks = 2,
     lk_stream = send_frame 2 [] @ [3], lk_rnds = [Some (replicate 8 0)]\<rparr>"

definition sample_link_config :: slave_config where
  "sample_link_config = default_slave_config\<lparr>sf_id := ''s1''\<rparr>"

theorem slave_joins_master_witness:
  "\<exists>out s' first rest p r' call. run_control_loop (\<lambda>i. []) (\<lambda>b. Some sample_announce) id sample_link sample_link_config (new_slave [] CS2 None None) = (out, s')
     \<and> read_frame out = Some (first, rest)
     \<and> slave_hello (\<lambda>b. Some (registration sample_link_config)) 0 ''203.0.113.9:5555'' 0 (Some first) new_registry = (Some (p, call), r')
     \<and> sl_udp (conns r' ! p) = ''203.0.113.9:7002'' \<and> ssessions s' \<noteq> []"
proof -
  let ?s = "new_slave [] CS2 None None"
  obtain out s' where run: "run_control_loop (\<lambda>i. []) (\<lambda>b. Some sample_announce) id sample_link sample_link_config ?s = (out, s')"
    by (cases "run_control_loop (\<lambda>i. []) (\<lambda>b. Some sample_announce) id sample_link sample_link_config ?s")
  have link: "lk_cert sample_link" "lk_dial sample_link (skip_verify sample_link_config)" "lk_write sample_link"
    "lk_stream sample_link = concat (map (\<lambda>(t, p). send_frame t p) [(2, [])]) @ [3]"
    by (simp_all add: sample_link_def skip_verify_def sample_link_config_def default_slave_config_def)
  have host: "split_host_port ''203.0.113.9:5555'' = Some (''203.0.113.9'', ''5555'')" "''203.0.113.9'' \<noteq> []"
    using split_join_host_port[of "''203.0.113.9''" "''5555''"] by (simp_all add: plain_host_def join_host_port_def)
  have port: "sf_listen_udp sample_link_config = ''0.0.0.0:'' @ ''7002''" "plain_host ''7002''"
    by (simp_all add: sample_link_config_def default_slave_config_def plain_host_def)
  have cut: "slave_read_frame [3] = None" by (simp add: slave_read_frame_def)
  have "ssessions (control_run (\<lambda>b. Some sample_announce) id (lk_rnds sample_link) [(2, [])] ?s) \<noteq> []"
    by (simp add: control_message_def handle_new_session_def new_slave_def Let_def)
  then show ?thesis
    using slave_joins_master[OF run link(1-3) _ _ registry_inv_new host port link(4) cut, of "\<lambda>b. Some (registration sample_link_config)" 0 0] run
    by (auto simp: join_host_port_def)
qed

text \<open>The reconnection loop: the waits between the tries are 1, 2, 4, 8, 16, 32 seconds and 32 from then on,
  however long a link has worked in between.\<close>

theorem reconnect_waits:
  "map snd (fst (connect_master encode decode order vs 1 c s)) = map (\<lambda>n. min 32 (2 ^ n)) [0..<length vs]"
  using connect_master_waits[of encode decode order vs 0 c s] by (simp add: backoff_eq)

end
