(* ===== verification/Spec2Isabelle.thy ===== *)
theory Spec2Isabelle
  imports Connect Manager Commands PathTest TunIO Link
begin

text \<open>
  Mini-tun-asymmetric: verification development.
\<close>

end
